theory Spec2Isabelle
  imports Main "HOL-Library.AList"
begin

section \<open>Values and toolbox items\<close>

text \<open>
  JavaScript values as far as the program inspects them. Numbers are modelled as
  integers (the program only compares the \<open>format\<close> field with \<open>2\<close>); an object is an
  association list whose first binding of a key is the one read.
\<close>

datatype jsval =
    JNull
  | JBool bool
  | JNum int
  | JStr string
  | JArr "jsval list"
  | JObj "(string \<times> jsval) list"

text \<open>
  A toolbox item (\<open>ToolboxItemInfo\<close>) is a JavaScript object; the filter dispatches on
  which properties it has, so every property is optional: \<open>None\<close> is a property that is
  absent. The fields are \<open>kind\<close>, \<open>type\<close> (named \<open>btype\<close> here), \<open>custom\<close>, \<open>contents\<close> and
  the annotations the filter writes: \<open>hidden\<close>, \<open>disabled\<close>, \<open>disabledReasons\<close>. The filters
  write booleans into some of them and the strings \<open>true\<close> and \<open>false\<close> into others.
  A list of items is a tree: every position holds an object of its own. A toolbox
  definition in which one object occurs at two positions, so that a mark written at one
  of them shows at the other, is no value of this type; the filter of
  \<open>unnamed/part_000\<close>, whose marks on separators depend on the position, is given on a store
  of objects as well.
\<close>

datatype item = Item
  (kind: "string option")
  (btype: "string option")
  (custom: "string option")
  (contents: "item list option")
  (hidden: "jsval option")
  (disabled: "jsval option")
  (disabledReasons: "string list option")

section \<open>Case conversion\<close>

text \<open>
  \<open>String.prototype.toUpperCase\<close> and \<open>toLowerCase\<close>. On a string of ASCII characters they
  change the 26 letters and nothing else, which is what the definitions compute. What they
  return for a string with a character beyond ASCII depends on the Unicode tables of the
  runtime; that part is taken as given and left unspecified (\<open>unicode_upper\<close>,
  \<open>unicode_lower\<close>), so that nothing proved here depends on it.
\<close>

definition is_ascii :: "string \<Rightarrow> bool" where
  "is_ascii s = list_all (\<lambda>c. \<not> digit7 c) s"

definition upper_char :: "char \<Rightarrow> char" where
  "upper_char c =
     (case map_of (zip ''abcdefghijklmnopqrstuvwxyz'' ''ABCDEFGHIJKLMNOPQRSTUVWXYZ'') c of
        None \<Rightarrow> c | Some u \<Rightarrow> u)"

definition lower_char :: "char \<Rightarrow> char" where
  "lower_char c =
     (case map_of (zip ''ABCDEFGHIJKLMNOPQRSTUVWXYZ'' ''abcdefghijklmnopqrstuvwxyz'') c of
        None \<Rightarrow> c | Some l \<Rightarrow> l)"

definition unicode_upper :: "string \<Rightarrow> string" where
  "unicode_upper = undefined"

definition unicode_lower :: "string \<Rightarrow> string" where
  "unicode_lower = undefined"

definition toUpperCase :: "string \<Rightarrow> string" where
  "toUpperCase s = (if is_ascii s then map upper_char s else unicode_upper s)"

definition toLowerCase :: "string \<Rightarrow> string" where
  "toLowerCase s = (if is_ascii s then map lower_char s else unicode_lower s)"

section \<open>The filter of \<open>packages/blockly/src/manager.ts\<close>\<close>

datatype error = TypeError

text \<open>\<open>this._allowedBlocks === undefined || this._allowedBlocks.includes(s)\<close>\<close>

definition allowed :: "string list option \<Rightarrow> string \<Rightarrow> bool" where
  "allowed ab s = (case ab of None \<Rightarrow> True | Some l \<Rightarrow> s \<in> set l)"

text \<open>
  \<open>_filterContents\<close> mutates the items in place and returns the count \<open>visible\<close>; the
  model returns the count together with the items as the call leaves them. \<open>filterItem\<close>
  is the body of the \<open>forEach\<close> callback: it takes the running count and returns the new
  one. A block without a \<open>type\<close> makes \<open>blockInfo.type.toLowerCase()\<close> throw a \<open>TypeError\<close>
  when the allow-list is defined (the \<open>||\<close> short-circuits otherwise). The exception
  leaves every enclosing call at once: the result is then \<open>Inl TypeError\<close>, together with
  the items as they are at that moment (the items before the block are marked, the block,
  the items after it and the \<open>hidden\<close> flag of the enclosing categories are not written).
\<close>

fun filterContents :: "string list option \<Rightarrow> item list \<Rightarrow> (error + nat) \<times> item list"
  and filterLoop :: "string list option \<Rightarrow> nat \<Rightarrow> item list \<Rightarrow> (error + nat) \<times> item list"
  and filterItem :: "string list option \<Rightarrow> nat \<Rightarrow> item \<Rightarrow> (error + nat) \<times> item"
where
  "filterContents ab cs = filterLoop ab 0 cs"
| "filterLoop ab visible [] = (Inr visible, [])"
| "filterLoop ab visible (x # xs) =
     (case filterItem ab visible x of
        (Inl e, x') \<Rightarrow> (Inl e, x' # xs)
      | (Inr visible', x') \<Rightarrow>
          (case filterLoop ab visible' xs of
             (r, xs') \<Rightarrow> (r, x' # xs')))"
| "filterItem ab visible (Item k t cu co h d dr) =
     (case k of
        None \<Rightarrow> (Inr visible, Item k t cu co h d dr)
      | Some kd \<Rightarrow>
          if toUpperCase kd = ''CATEGORY'' then
            (case co of
               Some cs \<Rightarrow>
                 (case filterContents ab cs of
                    (Inl e, cs') \<Rightarrow> (Inl e, Item k t cu (Some cs') h d dr)
                  | (Inr n, cs') \<Rightarrow>
                      if n > 0 then
                        (Inr (visible + 1), Item k t cu (Some cs') (Some (JStr ''false'')) d dr)
                      else
                        (Inr visible, Item k t cu (Some cs') (Some (JStr ''true'')) d dr))
             | None \<Rightarrow>
                 (case cu of
                    Some c \<Rightarrow>
                      if allowed ab (toLowerCase c) then
                        (Inr (visible + 1), Item k t cu co (Some (JStr ''false'')) d dr)
                      else
                        (Inr visible, Item k t cu co (Some (JStr ''true'')) d dr)
                  | None \<Rightarrow> (Inr visible, Item k t cu co h d dr)))
          else if toUpperCase kd = ''BLOCK'' then
            (if ab = None then
               (Inr (visible + 1), Item k t cu co h (Some (JBool False)) (Some []))
             else
               (case t of
                  None \<Rightarrow> (Inl TypeError, Item k t cu co h d dr)
                | Some ty \<Rightarrow>
                    if allowed ab (toLowerCase ty) then
                      (Inr (visible + 1), Item k t cu co h (Some (JBool False)) (Some []))
                    else
                      (Inr visible, Item k t cu co h (Some (JBool True))
                         (Some [''This block is not allowed'']))))
          else (Inr visible, Item k t cu co h d dr))"

section \<open>The filter of the second copy of \<open>manager.ts\<close> (\<open>unnamed/part_000\<close>)\<close>

text \<open>
  This copy dispatches on the properties \<open>contents\<close> and \<open>type\<close> before it looks at
  \<open>kind\<close>, compares types with the allow-list as they are, and handles separators
  with the cursor \<open>lastSeparator\<close>. Nothing in it can throw.
\<close>

fun filterContents_p0 :: "string list option \<Rightarrow> item list \<Rightarrow> nat \<times> item list"
  and filterLoop_p0 ::
    "string list option \<Rightarrow> nat \<Rightarrow> nat \<Rightarrow> item list \<Rightarrow> nat \<times> item list"
  and filterItem_p0 ::
    "string list option \<Rightarrow> nat \<Rightarrow> nat \<Rightarrow> item \<Rightarrow> nat \<times> nat \<times> item"
where
  "filterContents_p0 ab cs = filterLoop_p0 ab 0 0 cs"
| "filterLoop_p0 ab visible lastSeparator [] = (visible, [])"
| "filterLoop_p0 ab visible lastSeparator (x # xs) =
     (case filterItem_p0 ab visible lastSeparator x of
        (visible', lastSeparator', x') \<Rightarrow>
          (case filterLoop_p0 ab visible' lastSeparator' xs of
             (n, xs') \<Rightarrow> (n, x' # xs')))"
| "filterItem_p0 ab visible lastSeparator (Item k t cu co h d dr) =
     (case co of
        Some cs \<Rightarrow>
          (case filterContents_p0 ab cs of
             (n, cs') \<Rightarrow>
               if n > 0 then
                 (visible + 1, lastSeparator,
                  Item k t cu (Some cs') (Some (JStr ''false'')) d dr)
               else
                 (visible, lastSeparator,
                  Item k t cu (Some cs') (Some (JStr ''true'')) d dr))
      | None \<Rightarrow>
          (case t of
             Some ty \<Rightarrow>
               if allowed ab ty then
                 (visible + 1, lastSeparator,
                  Item k t cu co h (Some (JBool False)) (Some []))
               else
                 (visible, lastSeparator,
                  Item k t cu co h (Some (JBool True)) (Some [''This block is not allowed'']))
           | None \<Rightarrow>
               if k = Some ''CATEGORY'' \<and> cu \<noteq> None then
                 (if allowed ab (the cu) then
                    (visible + 1, lastSeparator,
                     Item k t cu co h (Some (JStr ''false'')) dr)
                  else
                    (visible, lastSeparator,
                     Item k t cu co h (Some (JStr ''true'')) dr))
               else if k = Some ''SEP'' then
                 (if lastSeparator = visible then
                    (visible, lastSeparator, Item k t cu co (Some (JBool True)) d dr)
                  else
                    (visible, visible, Item k t cu co h d dr))
               else (visible, lastSeparator, Item k t cu co h d dr)))"

section \<open>The manager\<close>

text \<open>
  \<open>BlocklyManager.Change\<close>, the kernel specification (\<open>KernelSpec.ISpecModel\<close>, the fields the
  manager reads) and the state of a \<open>BlocklyManager\<close>. The registry and the session context
  belong to other modules; the manager reads three tables of them, which are part of the
  state here: \<open>toolboxes\<close> (\<open>this._registry.toolboxes\<close>, a \<open>Map\<close> in insertion order from a
  name to the \<open>contents\<close> of a \<open>ToolboxInfo\<close>; the filter updates the stored tree),
  \<open>generators\<close> (\<open>this._registry.generators\<close>, with an opaque generator type \<open>'g\<close>) and
  \<open>kernelspecs\<close> (\<open>this._sessionContext.specsManager.specs.kernelspecs\<close>, an object keyed by
  kernel name). \<open>changeKernelCalls\<close> records the requests \<open>sessionContext.changeKernel({name})\<close>
  and \<open>emitted\<close> the values passed to \<open>this._changed.emit\<close>, oldest first. Both copies of
  \<open>manager.ts\<close> share this state; the copy in \<open>unnamed/part_000\<close> has no \<open>description\<close>.
\<close>

datatype change = Toolbox | Kernel | Description

record spec =
  name :: string
  display_name :: string
  language :: string

record 'g manager =
  description :: "string option"
  toolbox :: string
  allowedBlocks :: "string list option"
  generator :: "'g option"
  selectedKernel :: "spec option"
  toolboxes :: "(string \<times> item list) list"
  generators :: "string \<rightharpoonup> 'g"
  kernelspecs :: "(string \<times> spec) list"
  changeKernelCalls :: "string list"
  emitted :: "change list"

definition emit :: "change \<Rightarrow> 'g manager \<Rightarrow> 'g manager" where
  "emit c m = m\<lparr>emitted := emitted m @ [c]\<rparr>"

text \<open>The getter \<open>kernel\<close>: \<open>this._selectedKernel?.name || 'No kernel'\<close>.\<close>

definition kernel :: "'g manager \<Rightarrow> string" where
  "kernel m =
     (case selectedKernel m of
        None \<Rightarrow> ''No kernel''
      | Some s \<Rightarrow> if name s = [] then ''No kernel'' else name s)"

definition getToolbox :: "'g manager \<Rightarrow> string" where
  "getToolbox m = toolbox m"

text \<open>
  The keys of \<open>toolboxes\<close> and of \<open>kernelspecs\<close> are distinct, as the keys of a \<open>Map\<close> and of
  an object are. When the filter throws, the exception leaves \<open>_filterToolbox\<close> and the
  method of the manager that called it; such a call is \<open>Inl\<close> here, and the model does not
  follow the manager after an exception that nothing catches.
\<close>

definition filterToolbox :: "'g manager \<Rightarrow> error + 'g manager" where
  "filterToolbox m =
     (case map_of (toolboxes m) (toolbox m) of
        None \<Rightarrow> Inr m
      | Some cs \<Rightarrow>
          (case filterContents (allowedBlocks m) cs of
             (Inl e, cs') \<Rightarrow> Inl e
           | (Inr n, cs') \<Rightarrow>
               Inr (m\<lparr>toolboxes := AList.update (toolbox m) cs' (toolboxes m)\<rparr>)))"

definition setToolbox :: "string \<Rightarrow> 'g manager \<Rightarrow> error + 'g manager" where
  "setToolbox nm m =
     (if toolbox m \<noteq> nm then
        (case filterToolbox
                (m\<lparr>toolbox := (if map_of (toolboxes m) nm \<noteq> None then nm else ''default'')\<rparr>) of
           Inl e \<Rightarrow> Inl e
         | Inr m' \<Rightarrow> Inr (emit Toolbox m'))
      else Inr m)"

definition listToolboxes :: "'g manager \<Rightarrow> (string \<times> string) list" where
  "listToolboxes m = map (\<lambda>(nm, tb). (nm, nm)) (toolboxes m)"

definition setAllowedBlocks :: "string list option \<Rightarrow> 'g manager \<Rightarrow> error + 'g manager" where
  "setAllowedBlocks ab m =
     (case filterToolbox (m\<lparr>allowedBlocks := ab\<rparr>) of
        Inl e \<Rightarrow> Inl e
      | Inr m' \<Rightarrow> Inr (emit Toolbox m'))"

definition selectKernel :: "string \<Rightarrow> 'g manager \<Rightarrow> 'g manager" where
  "selectKernel nm m = m\<lparr>changeKernelCalls := changeKernelCalls m @ [nm]\<rparr>"

text \<open>\<open>listKernels\<close> returns the pairs \<open>(label, value)\<close>.\<close>

definition listKernels :: "'g manager \<Rightarrow> (string \<times> string) list" where
  "listKernels m =
     map (\<lambda>(key, s). (display_name s, name s))
       (filter (\<lambda>(key, s). generators m (language s) \<noteq> None) (kernelspecs m))"

text \<open>
  \<open>_onKernelChanged\<close>; of \<open>args.newValue\<close> (a kernel connection or \<open>null\<close>) only the name is
  read. The handler has the same text in both copies of \<open>manager.ts\<close>.
\<close>

definition onKernelChanged :: "string option \<Rightarrow> 'g manager \<Rightarrow> 'g manager" where
  "onKernelChanged newValue m =
     (case newValue of
        None \<Rightarrow> m
      | Some nm \<Rightarrow>
          (case map_of (kernelspecs m) nm of
             None \<Rightarrow> m
           | Some s \<Rightarrow>
               emit Kernel
                 (m\<lparr>selectedKernel := Some s, generator := generators m (language s)\<rparr>)))"

text \<open>
  The same operations in the second copy (\<open>unnamed/part_000\<close>), whose filter cannot throw.
\<close>

definition filterToolbox_p0 :: "'g manager \<Rightarrow> 'g manager" where
  "filterToolbox_p0 m =
     (case map_of (toolboxes m) (toolbox m) of
        None \<Rightarrow> m
      | Some cs \<Rightarrow>
          m\<lparr>toolboxes :=
               AList.update (toolbox m) (snd (filterContents_p0 (allowedBlocks m) cs))
                 (toolboxes m)\<rparr>)"

definition setToolbox_p0 :: "string \<Rightarrow> 'g manager \<Rightarrow> 'g manager" where
  "setToolbox_p0 nm m =
     (if toolbox m \<noteq> nm then
        emit Toolbox
          (filterToolbox_p0
             (m\<lparr>toolbox := (if map_of (toolboxes m) nm \<noteq> None then nm else ''default'')\<rparr>))
      else m)"

definition setAllowedBlocks_p0 :: "string list option \<Rightarrow> 'g manager \<Rightarrow> 'g manager" where
  "setAllowedBlocks_p0 ab m = emit Toolbox (filterToolbox_p0 (m\<lparr>allowedBlocks := ab\<rparr>))"

section \<open>The panel: loading and saving a document\<close>

text \<open>
  \<open>BlocklyPanel\<close> (the widget source that follows \<open>package.json\<close> in
  \<open>packages/blockly-extension\<close>). The state holds the manager, the JSON content of the
  document model (\<open>this._context.model\<close>), the workspace of the layout (\<open>None\<close> is
  \<open>undefined\<close>), the dialogs opened by \<open>showErrorMessage\<close> (the title and the value spliced
  into the text) and the values reported by \<open>console.warn\<close>.
\<close>

datatype saveState = Started | Completed | Failed

record 'g panel =
  manager :: "'g manager"
  model :: jsval
  workspace :: "jsval option"
  errorMessages :: "(string \<times> jsval option) list"
  warnings :: "jsval list"

text \<open>Truthiness of a value; \<open>None\<close> is \<open>undefined\<close>.\<close>

fun truthy :: "jsval option \<Rightarrow> bool" where
  "truthy None = False"
| "truthy (Some JNull) = False"
| "truthy (Some (JBool b)) = b"
| "truthy (Some (JNum n)) = (n \<noteq> 0)"
| "truthy (Some (JStr s)) = (s \<noteq> [])"
| "truthy (Some (JArr xs)) = True"
| "truthy (Some (JObj kvs)) = True"

text \<open>
  Reading one of the properties \<open>format\<close>, \<open>blocks\<close>, \<open>workspace\<close>, \<open>metadata\<close>, \<open>toolbox\<close>,
  \<open>kernel\<close> of a value other than \<open>null\<close>: only an object can have them.
\<close>

fun getProp :: "jsval \<Rightarrow> string \<Rightarrow> jsval option" where
  "getProp (JObj kvs) key = map_of kvs key"
| "getProp v key = None"

definition showErrorMessage :: "string \<Rightarrow> jsval option \<Rightarrow> 'g panel \<Rightarrow> 'g panel" where
  "showErrorMessage title v p = p\<lparr>errorMessages := errorMessages p @ [(title, v)]\<rparr>"

text \<open>The two blocks of \<open>_load\<close> that apply \<open>metadata['toolbox']\<close> and \<open>metadata['kernel']\<close>.\<close>

definition load_toolbox :: "jsval \<Rightarrow> 'g panel \<Rightarrow> error + 'g panel" where
  "load_toolbox metadata p =
     (if truthy (getProp metadata ''toolbox'') then
        (case find (\<lambda>v. Some (JStr (snd v)) = getProp metadata ''toolbox'')
                (listToolboxes (manager p)) of
           Some v \<Rightarrow>
             (case setToolbox (snd v) (manager p) of
                Inl e \<Rightarrow> Inl e
              | Inr m' \<Rightarrow> Inr (p\<lparr>manager := m'\<rparr>))
         | None \<Rightarrow> Inr (showErrorMessage ''Unknown toolbox'' (getProp metadata ''toolbox'') p))
      else Inr p)"

definition load_kernel :: "jsval \<Rightarrow> 'g panel \<Rightarrow> 'g panel" where
  "load_kernel metadata p =
     (if truthy (getProp metadata ''kernel'') \<and> getProp metadata ''kernel'' \<noteq> Some (JStr ''No kernel'')
      then
        (case find (\<lambda>v. Some (JStr (snd v)) = getProp metadata ''kernel'')
                (listKernels (manager p)) of
           Some v \<Rightarrow> p\<lparr>manager := selectKernel (snd v) (manager p)\<rparr>
         | None \<Rightarrow> p\<lparr>warnings := warnings p @ [the (getProp metadata ''kernel'')]\<rparr>)
      else p)"

text \<open>
  \<open>_load\<close>. Reading \<open>fileContent['format']\<close> of \<open>null\<close> (an empty document) throws.
\<close>

definition load :: "'g panel \<Rightarrow> error + 'g panel" where
  "load p =
     (let fileContent = model p in
      if fileContent = JNull then Inl TypeError
      else
        let fileFormat = getProp fileContent ''format'' in
        if fileFormat = None \<and> truthy (getProp fileContent ''blocks'') then
          Inr (p\<lparr>workspace := Some fileContent\<rparr>)
        else if fileFormat = Some (JNum 2) then
          (let p1 = p\<lparr>workspace := getProp fileContent ''workspace''\<rparr>;
               metadata = getProp fileContent ''metadata''
           in if truthy metadata then
                (case load_toolbox (the metadata) p1 of
                   Inl e \<Rightarrow> Inl e
                 | Inr p2 \<Rightarrow> Inr (load_kernel (the metadata) p2))
              else Inr p1)
        else Inr (showErrorMessage ''Unsupported file format'' fileFormat p))"

text \<open>
  \<open>_onSave\<close>. A property whose value is \<open>undefined\<close> is not part of the JSON content.
\<close>

definition onSave :: "saveState \<Rightarrow> 'g panel \<Rightarrow> 'g panel" where
  "onSave state p =
     (if state = Started then
        p\<lparr>model :=
            JObj ([(''format'', JNum 2)]
                  @ (case workspace p of None \<Rightarrow> [] | Some w \<Rightarrow> [(''workspace'', w)])
                  @ [(''metadata'',
                      JObj [(''toolbox'', JStr (getToolbox (manager p))),
                            (''kernel'', JStr (kernel (manager p)))])])\<rparr>
      else p)"

section \<open>The filter of \<open>unnamed/part_000\<close> on a store\<close>

text \<open>
  The items of a toolbox are objects and the filter writes to them in place, so that a
  mark written to an object shows at every position of the tree that holds it. Here an
  object has the properties of an item, \<open>contents\<close> being the objects that the array holds,
  given by their addresses; a store gives the object at every address.
\<close>

datatype obj = Obj
  (okind: "string option")
  (otype: "string option")
  (ocustom: "string option")
  (ocontents: "nat list option")
  (ohidden: "jsval option")
  (odisabled: "jsval option")
  (oreasons: "string list option")

type_synonym store = "nat \<Rightarrow> obj"

text \<open>
  \<open>_filterContents\<close> of \<open>unnamed/part_000\<close>, reading and writing the store. \<open>fuel\<close> bounds the
  nesting of the calls of \<open>_filterContents\<close>: a run that would nest deeper, which is every
  run on contents that contain themselves, has no result.
\<close>

function filterContents_st ::
    "nat \<Rightarrow> string list option \<Rightarrow> store \<Rightarrow> nat list \<Rightarrow> (nat \<times> store) option"
  and filterLoop_st ::
    "nat \<Rightarrow> string list option \<Rightarrow> nat \<Rightarrow> nat \<Rightarrow> store \<Rightarrow> nat list \<Rightarrow> (nat \<times> store) option"
  and filterItem_st ::
    "nat \<Rightarrow> string list option \<Rightarrow> nat \<Rightarrow> nat \<Rightarrow> store \<Rightarrow> nat \<Rightarrow> (nat \<times> nat \<times> store) option"
where
  "filterContents_st fuel ab s as = filterLoop_st fuel ab 0 0 s as"
| "filterLoop_st fuel ab visible lastSeparator s [] = Some (visible, s)"
| "filterLoop_st fuel ab visible lastSeparator s (a # as) =
     (case filterItem_st fuel ab visible lastSeparator s a of
        None \<Rightarrow> None
      | Some (visible', lastSeparator', s') \<Rightarrow>
          filterLoop_st fuel ab visible' lastSeparator' s' as)"
| "filterItem_st fuel ab visible lastSeparator s a =
     (case s a of
        Obj k t cu co h d dr \<Rightarrow>
          (case co of
             Some cs \<Rightarrow>
               (case fuel of
                  0 \<Rightarrow> None
                | Suc f \<Rightarrow>
                    (case filterContents_st f ab s cs of
                       None \<Rightarrow> None
                     | Some (n, s') \<Rightarrow>
                         (case s' a of
                            Obj k' t' cu' co' h' d' dr' \<Rightarrow>
                              if n > 0 then
                                Some (visible + 1, lastSeparator,
                                      s'(a := Obj k' t' cu' co' (Some (JStr ''false'')) d' dr'))
                              else
                                Some (visible, lastSeparator,
                                      s'(a := Obj k' t' cu' co' (Some (JStr ''true'')) d' dr')))))
           | None \<Rightarrow>
               (case t of
                  Some ty \<Rightarrow>
                    if allowed ab ty then
                      Some (visible + 1, lastSeparator,
                            s(a := Obj k t cu co h (Some (JBool False)) (Some [])))
                    else
                      Some (visible, lastSeparator,
                            s(a := Obj k t cu co h (Some (JBool True))
                                     (Some [''This block is not allowed''])))
                | None \<Rightarrow>
                    if k = Some ''CATEGORY'' \<and> cu \<noteq> None then
                      (if allowed ab (the cu) then
                         Some (visible + 1, lastSeparator,
                               s(a := Obj k t cu co h (Some (JStr ''false'')) dr))
                       else
                         Some (visible, lastSeparator,
                               s(a := Obj k t cu co h (Some (JStr ''true'')) dr)))
                    else if k = Some ''SEP'' then
                      (if lastSeparator = visible then
                         Some (visible, lastSeparator,
                               s(a := Obj k t cu co (Some (JBool True)) d dr))
                       else Some (visible, visible, s))
                    else Some (visible, lastSeparator, s))))"
  by pat_completeness auto
termination
  by (relation "measures
        [\<lambda>x. case x of Inl (fuel, _) \<Rightarrow> fuel
                      | Inr (Inl (fuel, _)) \<Rightarrow> fuel
                      | Inr (Inr (fuel, _)) \<Rightarrow> fuel,
         \<lambda>x. case x of Inl (_, _, _, as) \<Rightarrow> length as + 2
                      | Inr (Inl (_, _, _, _, _, as)) \<Rightarrow> length as + 1
                      | Inr (Inr _) \<Rightarrow> 0]") auto

text \<open>
  The tree that a store holds below a list of addresses, read to the depth \<open>fuel\<close>
  (\<open>read_st\<close>), and the objects met on the way, one entry for every position
  (\<open>objects_st\<close>): no object is shared between two positions when this list is
  distinct. \<open>run_st\<close> is a run of the filter followed by reading the tree it leaves.
\<close>

function read_st :: "nat \<Rightarrow> store \<Rightarrow> nat list \<Rightarrow> item list option"
  and read_item :: "nat \<Rightarrow> store \<Rightarrow> nat \<Rightarrow> item option"
where
  "read_st fuel s [] = Some []"
| "read_st fuel s (a # as) =
     (case read_item fuel s a of
        None \<Rightarrow> None
      | Some x \<Rightarrow> (case read_st fuel s as of None \<Rightarrow> None | Some xs \<Rightarrow> Some (x # xs)))"
| "read_item fuel s a =
     (case s a of
        Obj k t cu co h d dr \<Rightarrow>
          (case co of
             None \<Rightarrow> Some (Item k t cu None h d dr)
           | Some cs \<Rightarrow>
               (case fuel of
                  0 \<Rightarrow> None
                | Suc f \<Rightarrow>
                    (case read_st f s cs of
                       None \<Rightarrow> None
                     | Some xs \<Rightarrow> Some (Item k t cu (Some xs) h d dr)))))"
  by pat_completeness auto
termination
  by (relation "measures
        [\<lambda>x. case x of Inl (fuel, _) \<Rightarrow> fuel | Inr (fuel, _) \<Rightarrow> fuel,
         \<lambda>x. case x of Inl (_, _, as) \<Rightarrow> length as + 1 | Inr _ \<Rightarrow> 0]") auto

function objects_st :: "nat \<Rightarrow> store \<Rightarrow> nat list \<Rightarrow> nat list"
  and objects_item :: "nat \<Rightarrow> store \<Rightarrow> nat \<Rightarrow> nat list"
where
  "objects_st fuel s [] = []"
| "objects_st fuel s (a # as) = objects_item fuel s a @ objects_st fuel s as"
| "objects_item fuel s a =
     a # (case ocontents (s a) of
            None \<Rightarrow> []
          | Some cs \<Rightarrow> (case fuel of 0 \<Rightarrow> [] | Suc f \<Rightarrow> objects_st f s cs))"
  by pat_completeness auto
termination
  by (relation "measures
        [\<lambda>x. case x of Inl (fuel, _) \<Rightarrow> fuel | Inr (fuel, _) \<Rightarrow> fuel,
         \<lambda>x. case x of Inl (_, _, as) \<Rightarrow> length as + 1 | Inr _ \<Rightarrow> 0]") auto

definition run_st ::
    "nat \<Rightarrow> string list option \<Rightarrow> store \<Rightarrow> nat list \<Rightarrow> (nat \<times> item list) option"
where
  "run_st fuel ab s as =
     (case filterContents_st fuel ab s as of
        None \<Rightarrow> None
      | Some (n, s') \<Rightarrow>
          (case read_st fuel s' as of None \<Rightarrow> None | Some cs \<Rightarrow> Some (n, cs)))"

section \<open>Reading a document\<close>

text \<open>
  What a document's metadata names: \<open>metadata['toolbox']\<close> and \<open>metadata['kernel']\<close> when
  \<open>metadata\<close> is truthy. \<open>metadata_applied p p'\<close> relates a panel before and after a load of
  a document of format 2: a toolbox name that is a non-empty string registered in the
  registry becomes the manager's toolbox; any other value leaves the toolbox as it was, and
  a truthy one opens the dialog \<open>Unknown toolbox\<close>; a kernel name that is a non-empty string
  other than \<open>No kernel\<close> and is the value of an entry of \<open>listKernels\<close> is requested from the
  session; any other value requests nothing, and a truthy one other than \<open>No kernel\<close> is
  reported with \<open>console.warn\<close>.
\<close>

definition doc_toolbox :: "jsval \<Rightarrow> jsval option" where
  "doc_toolbox fc =
     (if truthy (getProp fc ''metadata'') then getProp (the (getProp fc ''metadata'')) ''toolbox''
      else None)"

definition doc_kernel :: "jsval \<Rightarrow> jsval option" where
  "doc_kernel fc =
     (if truthy (getProp fc ''metadata'') then getProp (the (getProp fc ''metadata'')) ''kernel''
      else None)"

definition metadata_applied :: "'g panel \<Rightarrow> 'g panel \<Rightarrow> bool" where
  "metadata_applied p p' =
     ((\<forall>T. doc_toolbox (model p) = Some (JStr T) \<and> T \<noteq> []
            \<and> map_of (toolboxes (manager p)) T \<noteq> None \<longrightarrow> toolbox (manager p') = T)
      \<and> (\<not> (\<exists>T. doc_toolbox (model p) = Some (JStr T)
                \<and> map_of (toolboxes (manager p)) T \<noteq> None) \<longrightarrow>
           toolbox (manager p') = toolbox (manager p)
           \<and> (truthy (doc_toolbox (model p)) \<longrightarrow>
                errorMessages p' =
                  errorMessages p @ [(''Unknown toolbox'', doc_toolbox (model p))]))
      \<and> (\<forall>K. doc_kernel (model p) = Some (JStr K) \<and> K \<noteq> [] \<and> K \<noteq> ''No kernel''
             \<and> K \<in> snd ` set (listKernels (manager p)) \<longrightarrow>
           changeKernelCalls (manager p') = changeKernelCalls (manager p) @ [K])
      \<and> (\<not> (\<exists>K. doc_kernel (model p) = Some (JStr K)
                \<and> K \<in> snd ` set (listKernels (manager p))) \<longrightarrow>
           changeKernelCalls (manager p') = changeKernelCalls (manager p)
           \<and> (truthy (doc_kernel (model p))
                \<and> doc_kernel (model p) \<noteq> Some (JStr ''No kernel'') \<longrightarrow>
                warnings p' = warnings p @ [the (doc_kernel (model p))])))"

section \<open>Reading a toolbox tree\<close>

text \<open>
  The items of a tree in pre-order. \<open>all_items\<close> descends into every item that has
  \<open>contents\<close>, as the filter of \<open>unnamed/part_000\<close> does; \<open>toolbox_items\<close> descends into the
  \<open>contents\<close> of the items whose \<open>kind\<close> is \<open>category\<close> in any letter case, as the filter of
  \<open>packages/blockly/src/manager.ts\<close> does.
\<close>

fun subitems :: "item \<Rightarrow> item list"
  and all_items :: "item list \<Rightarrow> item list"
where
  "subitems (Item k t cu co h d dr) =
     Item k t cu co h d dr # (case co of None \<Rightarrow> [] | Some cs \<Rightarrow> all_items cs)"
| "all_items [] = []"
| "all_items (x # xs) = subitems x @ all_items xs"

definition isCategoryKind :: "item \<Rightarrow> bool" where
  "isCategoryKind i = (case kind i of None \<Rightarrow> False | Some kd \<Rightarrow> toUpperCase kd = ''CATEGORY'')"

fun toolbox_subitems :: "item \<Rightarrow> item list"
  and toolbox_items :: "item list \<Rightarrow> item list"
where
  "toolbox_subitems (Item k t cu co h d dr) =
     Item k t cu co h d dr #
       (if isCategoryKind (Item k t cu co h d dr)
        then (case co of None \<Rightarrow> [] | Some cs \<Rightarrow> toolbox_items cs) else [])"
| "toolbox_items [] = []"
| "toolbox_items (x # xs) = toolbox_subitems x @ toolbox_items xs"

text \<open>
  The four variants of an item as \<open>manager.ts\<close> tells them apart: a static category has the
  kind \<open>category\<close> and \<open>contents\<close>, a dynamic category has the kind \<open>category\<close>, no \<open>contents\<close>
  and a \<open>custom\<close> key, a block has the kind \<open>block\<close>. That filter has no case for a
  separator; \<open>isSeparator\<close> is the kind \<open>sep\<close>.
\<close>

definition isStaticCategory :: "item \<Rightarrow> bool" where
  "isStaticCategory i = (isCategoryKind i \<and> contents i \<noteq> None)"

definition isDynamicCategory :: "item \<Rightarrow> bool" where
  "isDynamicCategory i = (isCategoryKind i \<and> contents i = None \<and> custom i \<noteq> None)"

definition isBlock :: "item \<Rightarrow> bool" where
  "isBlock i = (case kind i of None \<Rightarrow> False | Some kd \<Rightarrow> toUpperCase kd = ''BLOCK'')"

definition isSeparator :: "item \<Rightarrow> bool" where
  "isSeparator i = (case kind i of None \<Rightarrow> False | Some kd \<Rightarrow> toUpperCase kd = ''SEP'')"

text \<open>
  The items that \<open>unnamed/part_000\<close> treats as a static category, a block, a dynamic
  category and a separator, in the order of its tests: an item with \<open>contents\<close>; otherwise
  one with a \<open>type\<close>; otherwise one whose kind is the string \<open>CATEGORY\<close>, in capitals, and that
  has a \<open>custom\<close> key; otherwise one whose kind is the string \<open>SEP\<close>, in capitals. These are
  the tests of the code, not the variants of the data model: an item whose kind is written
  \<open>sep\<close> or \<open>category\<close> in lower case fails the last two tests and is passed over.
\<close>

definition isStaticCategory_p0 :: "item \<Rightarrow> bool" where
  "isStaticCategory_p0 i = (contents i \<noteq> None)"

definition isBlock_p0 :: "item \<Rightarrow> bool" where
  "isBlock_p0 i = (contents i = None \<and> btype i \<noteq> None)"

definition isDynamicCategory_p0 :: "item \<Rightarrow> bool" where
  "isDynamicCategory_p0 i =
     (contents i = None \<and> btype i = None \<and> kind i = Some ''CATEGORY'' \<and> custom i \<noteq> None)"

definition isSeparator_p0 :: "item \<Rightarrow> bool" where
  "isSeparator_p0 i = (contents i = None \<and> btype i = None \<and> kind i = Some ''SEP'')"

text \<open>
  Whether the filter of \<open>manager.ts\<close> lets a block through: the allow-list is undefined, or
  the block has a type whose lower-case form is an entry of the list (\<open>block_allowed\<close>).
  In the words of the specification: two strings are equal under case-insensitive
  comparison when their lower-case forms are equal (\<open>ci_member\<close>), a block is visible iff
  the allow-list is undefined or its type is a member of the list under that comparison
  (\<open>ci_allowed\<close>), and the entries of an allow-list are lower-case (\<open>lower_case_list\<close>).
\<close>

definition block_allowed :: "string list option \<Rightarrow> item \<Rightarrow> bool" where
  "block_allowed ab b =
     (case ab of
        None \<Rightarrow> True
      | Some l \<Rightarrow> (case btype b of None \<Rightarrow> False | Some ty \<Rightarrow> toLowerCase ty \<in> set l))"

definition ci_member :: "string \<Rightarrow> string list \<Rightarrow> bool" where
  "ci_member s l = (toLowerCase s \<in> toLowerCase ` set l)"

definition ci_allowed :: "string list option \<Rightarrow> item \<Rightarrow> bool" where
  "ci_allowed ab b =
     (case ab of
        None \<Rightarrow> True
      | Some l \<Rightarrow> (case btype b of None \<Rightarrow> False | Some ty \<Rightarrow> ci_member ty l))"

definition lower_case_list :: "string list option \<Rightarrow> bool" where
  "lower_case_list ab =
     (case ab of None \<Rightarrow> True | Some l \<Rightarrow> list_all (\<lambda>e. toLowerCase e = e) l)"

text \<open>
  The leaves a filter has counted (\<open>counted_leaf\<close>): a block it has enabled, a dynamic
  category it has enabled. The items that count as one unit in their list
  (\<open>counted_unit_p0\<close>): a counted leaf, or a static category that is not hidden. An item of
  any other shape is passed over by both filters and is never counted.

  The visible leaves of the specification (\<open>displayed_leaf\<close>) are more: every item without
  \<open>contents\<close>, other than a separator, that no mark hides or disables. An item of a shape
  the filter does not know, such as a label, is such a leaf.
\<close>

definition counted_leaf :: "item \<Rightarrow> bool" where
  "counted_leaf i =
     ((isBlock i \<and> disabled i = Some (JBool False))
      \<or> (isDynamicCategory i \<and> hidden i = Some (JStr ''false'')))"

definition counted_leaf_p0 :: "item \<Rightarrow> bool" where
  "counted_leaf_p0 i =
     ((isBlock_p0 i \<and> disabled i = Some (JBool False))
      \<or> (isDynamicCategory_p0 i \<and> disabled i = Some (JStr ''false'')))"

definition counted_unit_p0 :: "item \<Rightarrow> bool" where
  "counted_unit_p0 i =
     (counted_leaf_p0 i \<or> (isStaticCategory_p0 i \<and> hidden i = Some (JStr ''false'')))"

definition displayed_leaf :: "item \<Rightarrow> bool" where
  "displayed_leaf i =
     (contents i = None \<and> \<not> isSeparator i
      \<and> disabled i \<noteq> Some (JBool True) \<and> disabled i \<noteq> Some (JStr ''true'')
      \<and> hidden i \<noteq> Some (JBool True) \<and> hidden i \<noteq> Some (JStr ''true''))"

definition sep_hidden :: "item \<Rightarrow> bool" where
  "sep_hidden i = (hidden i = Some (JBool True))"

text \<open>
  The separator rule in the words of the specification, for one list of items, with the
  counted units as the visible content: \<open>seen\<close> says whether a unit has been counted since
  the previous visible separator (or since the start of the list); a separator is hidden
  iff none has.
\<close>

fun seps_ok_p0 :: "bool \<Rightarrow> item list \<Rightarrow> bool" where
  "seps_ok_p0 seen [] = True"
| "seps_ok_p0 seen (x # xs) =
     (if isSeparator_p0 x then
        (sep_hidden x = (\<not> seen)) \<and> seps_ok_p0 (if sep_hidden x then seen else False) xs
      else seps_ok_p0 (seen \<or> counted_unit_p0 x) xs)"

text \<open>
  What a run of \<open>unnamed/part_000\<close> does to the separators of a list whatever their flags
  were, as a relation between the list before (\<open>x\<close>) and after (\<open>y\<close>) the run: \<open>seen\<close> says
  whether a unit has been counted since the previous separator, hidden or not (or since
  the start of the list); a separator is hidden after the run iff it was hidden before or
  none has. \<open>cat_seps_rule_p0\<close> is the rule for the contents of one item.
\<close>

fun seps_rule_p0 :: "bool \<Rightarrow> item list \<Rightarrow> item list \<Rightarrow> bool" where
  "seps_rule_p0 seen [] [] = True"
| "seps_rule_p0 seen (x # xs) (y # ys) =
     (if isSeparator_p0 y then
        (sep_hidden y = (sep_hidden x \<or> \<not> seen)) \<and> seps_rule_p0 False xs ys
      else seps_rule_p0 (seen \<or> counted_unit_p0 y) xs ys)"
| "seps_rule_p0 seen [] (y # ys) = False"
| "seps_rule_p0 seen (x # xs) [] = False"

definition cat_seps_rule_p0 :: "item \<Rightarrow> item \<Rightarrow> bool" where
  "cat_seps_rule_p0 x y =
     (case contents y of
        None \<Rightarrow> True
      | Some yc \<Rightarrow> (case contents x of None \<Rightarrow> False | Some xc \<Rightarrow> seps_rule_p0 False xc yc))"

text \<open>Filter runs one after the other on the same tree, one allow-list per run.\<close>

fun runs_p0 :: "string list option list \<Rightarrow> item list \<Rightarrow> item list" where
  "runs_p0 [] cs = cs"
| "runs_p0 (ab # rest) cs = runs_p0 rest (snd (filterContents_p0 ab cs))"

text \<open>
  The marks on one item. \<open>block_marked\<close>: a block is disabled iff it is not let through,
  with the reason \<open>This block is not allowed\<close> when disabled and no reason otherwise;
  \<open>block_marked_ci\<close> says the same with the test of the specification. \<open>marked_none\<close>: the
  marks under an empty allow-list. \<open>category_marked\<close>: a static category is hidden iff none
  of its descendants is a counted leaf. \<open>passed_over\<close>: the items for which a filter has no
  case. \<open>typed_blocks\<close>: every block of the tree has a \<open>type\<close>, so that the filter of
  \<open>manager.ts\<close> cannot throw.
\<close>

definition block_marked :: "string list option \<Rightarrow> item \<Rightarrow> bool" where
  "block_marked ab b =
     (isBlock b \<longrightarrow>
        disabled b = Some (JBool (\<not> block_allowed ab b))
        \<and> disabledReasons b =
            Some (if block_allowed ab b then [] else [''This block is not allowed'']))"

definition block_marked_ci :: "string list option \<Rightarrow> item \<Rightarrow> bool" where
  "block_marked_ci ab b =
     (isBlock b \<longrightarrow>
        disabled b = Some (JBool (\<not> ci_allowed ab b))
        \<and> disabledReasons b =
            Some (if ci_allowed ab b then [] else [''This block is not allowed'']))"

definition block_marked_p0 :: "string list option \<Rightarrow> item \<Rightarrow> bool" where
  "block_marked_p0 ab b =
     (isBlock_p0 b \<longrightarrow>
        disabled b = Some (JBool (\<not> allowed ab (the (btype b))))
        \<and> disabledReasons b =
            Some (if allowed ab (the (btype b)) then [] else [''This block is not allowed'']))"

definition marked_none :: "item \<Rightarrow> bool" where
  "marked_none i =
     ((isBlock i \<longrightarrow>
         disabled i = Some (JBool True)
         \<and> disabledReasons i = Some [''This block is not allowed''])
      \<and> (isDynamicCategory i \<longrightarrow> hidden i = Some (JStr ''true''))
      \<and> (isStaticCategory i \<longrightarrow> hidden i = Some (JStr ''true'')))"

definition marked_none_p0 :: "item \<Rightarrow> bool" where
  "marked_none_p0 i =
     ((isBlock_p0 i \<longrightarrow>
         disabled i = Some (JBool True)
         \<and> disabledReasons i = Some [''This block is not allowed''])
      \<and> (isDynamicCategory_p0 i \<longrightarrow> disabled i = Some (JStr ''true''))
      \<and> (isStaticCategory_p0 i \<longrightarrow> hidden i = Some (JStr ''true''))
      \<and> (isSeparator_p0 i \<longrightarrow> hidden i = Some (JBool True)))"

definition category_marked :: "item \<Rightarrow> bool" where
  "category_marked c =
     (isStaticCategory c \<longrightarrow>
        hidden c =
          Some (JStr (if \<exists>l\<in>set (toolbox_items (the (contents c))). counted_leaf l
                      then ''false'' else ''true'')))"

definition category_marked_p0 :: "item \<Rightarrow> bool" where
  "category_marked_p0 c =
     (isStaticCategory_p0 c \<longrightarrow>
        hidden c =
          Some (JStr (if \<exists>l\<in>set (all_items (the (contents c))). counted_leaf_p0 l
                      then ''false'' else ''true'')))"

definition passed_over :: "item \<Rightarrow> bool" where
  "passed_over i = (\<not> isStaticCategory i \<and> \<not> isDynamicCategory i \<and> \<not> isBlock i)"

definition passed_over_p0 :: "item \<Rightarrow> bool" where
  "passed_over_p0 i =
     (\<not> isStaticCategory_p0 i \<and> \<not> isBlock_p0 i \<and> \<not> isDynamicCategory_p0 i
      \<and> \<not> isSeparator_p0 i)"

definition typed_blocks :: "item list \<Rightarrow> bool" where
  "typed_blocks cs = (\<forall>b\<in>set (toolbox_items cs). isBlock b \<longrightarrow> btype b \<noteq> None)"

text \<open>
  Separators. \<open>fresh_seps_p0\<close>: no separator of the tree is hidden yet.
  \<open>nested_seps_ok_p0\<close>: the separator rule holds in the contents of every category of the
  tree. \<open>no_redundant_seps_p0\<close>: a list has no visible separator at its head and no visible
  separator right after a separator (separators being the items with the kind \<open>SEP\<close> in
  capitals). \<open>sep_kept x y\<close>: if \<open>x\<close> is a separator then so is \<open>y\<close>,
  and \<open>hidden\<close> of \<open>y\<close> is that of \<open>x\<close> or \<open>true\<close>.
\<close>

definition fresh_seps_p0 :: "item list \<Rightarrow> bool" where
  "fresh_seps_p0 cs = (\<forall>s\<in>set (all_items cs). isSeparator_p0 s \<longrightarrow> \<not> sep_hidden s)"

definition nested_seps_ok_p0 :: "item list \<Rightarrow> bool" where
  "nested_seps_ok_p0 cs =
     (\<forall>c\<in>set (all_items cs). \<forall>ccs. contents c = Some ccs \<longrightarrow> seps_ok_p0 False ccs)"

definition no_redundant_seps_p0 :: "item list \<Rightarrow> bool" where
  "no_redundant_seps_p0 ys =
     ((\<forall>s rest. ys = s # rest \<and> isSeparator_p0 s \<longrightarrow> sep_hidden s)
      \<and> (\<forall>pre s1 s2 post.
            ys = pre @ s1 # s2 # post \<and> isSeparator_p0 s1 \<and> isSeparator_p0 s2 \<longrightarrow>
            sep_hidden s2))"

definition sep_kept :: "item \<Rightarrow> item \<Rightarrow> bool" where
  "sep_kept x y =
     (isSeparator_p0 x \<longrightarrow>
        isSeparator_p0 y \<and> (hidden y = hidden x \<or> hidden y = Some (JBool True)))"

section \<open>Example data\<close>

definition mkBlock :: "string \<Rightarrow> item" where
  "mkBlock ty = Item (Some ''BLOCK'') (Some ty) None None None None None"

definition mkSep :: item where
  "mkSep = Item (Some ''SEP'') None None None None None None"

definition mkCategory :: "item list \<Rightarrow> item" where
  "mkCategory cs = Item (Some ''CATEGORY'') None None (Some cs) None None None"

definition mkDynamic :: "string \<Rightarrow> item" where
  "mkDynamic c = Item (Some ''CATEGORY'') None (Some c) None None None None"

definition mkLabel :: item where
  "mkLabel = Item (Some ''LABEL'') None None None None None None"

definition lowerSep :: item where
  "lowerSep = Item (Some ''sep'') None None None None None None"

definition lowerDynamic :: item where
  "lowerDynamic = Item (Some ''category'') None (Some ''VARIABLE'') None None None None"

definition hiddenSep :: item where
  "hiddenSep = Item (Some ''SEP'') None None None (Some (JBool True)) None None"

definition xmlBlock :: item where
  "xmlBlock = Item (Some ''BLOCK'') None None None None None None"

definition toolbox6 :: "item list" where
  "toolbox6 = [mkCategory [mkSep, mkBlock ''c'', mkSep, mkSep, mkLabel], lowerSep]"

definition no_obj :: obj where
  "no_obj = Obj None None None None None None None"

definition sepObj :: obj where
  "sepObj = Obj (Some ''SEP'') None None None None None None"

definition blockObj :: "string \<Rightarrow> obj" where
  "blockObj ty = Obj (Some ''BLOCK'') (Some ty) None None None None None"

definition categoryObj :: "nat list \<Rightarrow> obj" where
  "categoryObj as = Obj (Some ''CATEGORY'') None None (Some as) None None None"

definition shared_store :: store where
  "shared_store = (\<lambda>a. no_obj)(0 := sepObj, 1 := blockObj ''a'', 2 := blockObj ''b'')"

definition shared_roots :: "nat list" where
  "shared_roots = [0, 1, 0, 2]"

definition tree_store :: store where
  "tree_store =
     (\<lambda>a. no_obj)(0 := categoryObj [1, 2, 3], 1 := sepObj, 2 := blockObj ''c'', 3 := sepObj,
                     4 := sepObj, 5 := blockObj ''a'')"

definition tree_roots :: "nat list" where
  "tree_roots = [0, 4, 5]"

definition python3 :: spec where
  "python3 = \<lparr>name = ''python3'', display_name = ''Python 3'', language = ''python''\<rparr>"

definition lua :: spec where
  "lua = \<lparr>name = ''lua'', display_name = ''Lua'', language = ''lua''\<rparr>"

definition manager0 :: "nat manager" where
  "manager0 =
     \<lparr>description = None, toolbox = ''default'', allowedBlocks = None,
      generator = Some 7, selectedKernel = None,
      toolboxes = [(''default'', [mkBlock ''text'']), (''maths'', [mkBlock ''math_number''])],
      generators = [''python'' \<mapsto> 7],
      kernelspecs = [(''python3'', python3), (''lua'', lua)],
      changeKernelCalls = [], emitted = []\<rparr>"

definition panel0 :: "nat panel" where
  "panel0 = \<lparr>manager = manager0, model = JNull, workspace = None, errorMessages = [],
              warnings = []\<rparr>"

definition legacy_doc :: jsval where
  "legacy_doc = JObj [(''blocks'', JObj [(''languageVersion'', JNum 0)])]"

definition v2_doc :: jsval where
  "v2_doc = JObj [(''format'', JNum 2), (''workspace'', JObj [(''blocks'', JObj [])]),
                  (''metadata'', JObj [(''toolbox'', JStr ''maths''), (''kernel'', JStr ''python3'')])]"

definition v2_unknown_doc :: jsval where
  "v2_unknown_doc = JObj [(''format'', JNum 2), (''workspace'', JObj []),
                  (''metadata'', JObj [(''toolbox'', JStr ''gone''), (''kernel'', JStr ''lua'')])]"

definition v3_doc :: jsval where
  "v3_doc = JObj [(''format'', JNum 3), (''workspace'', JObj [])]"

definition null_blocks_doc :: jsval where
  "null_blocks_doc = JObj [(''blocks'', JNull)]"

definition saver :: "nat panel" where
  "saver = panel0\<lparr>manager := manager0\<lparr>toolbox := ''maths'', selectedKernel := Some python3\<rparr>,
                  workspace := Some (JObj [(''blocks'', JObj [])])\<rparr>"

definition unnamed_manager :: "nat manager" where
  "unnamed_manager =
     manager0\<lparr>toolboxes := [(''default'', [mkBlock ''text'']), ([], [mkBlock ''math_number''])]\<rparr>"

definition unnamed_saver :: "nat panel" where
  "unnamed_saver =
     panel0\<lparr>manager := unnamed_manager\<lparr>toolbox := [], selectedKernel := Some python3\<rparr>\<rparr>"

definition allow0 :: "string list option" where
  "allow0 = Some [''text'', ''math_number'']"

definition toolbox0 :: "item list" where
  "toolbox0 =
     [mkCategory [mkBlock ''Text'', mkBlock ''logic_compare''], mkSep, mkDynamic ''VARIABLE'',
      mkSep, mkBlock ''math_number'']"

definition toolbox0_mgr :: "item list" where
  "toolbox0_mgr =
     [Item (Some ''CATEGORY'') None None
        (Some [Item (Some ''BLOCK'') (Some ''Text'') None None None (Some (JBool False)) (Some []),
               Item (Some ''BLOCK'') (Some ''logic_compare'') None None None (Some (JBool True))
                 (Some [''This block is not allowed''])])
        (Some (JStr ''false'')) None None,
      mkSep,
      Item (Some ''CATEGORY'') None (Some ''VARIABLE'') None (Some (JStr ''true'')) None None,
      mkSep,
      Item (Some ''BLOCK'') (Some ''math_number'') None None None (Some (JBool False)) (Some [])]"

definition toolbox0_p0 :: "item list" where
  "toolbox0_p0 =
     [Item (Some ''CATEGORY'') None None
        (Some [Item (Some ''BLOCK'') (Some ''Text'') None None None (Some (JBool True))
                 (Some [''This block is not allowed'']),
               Item (Some ''BLOCK'') (Some ''logic_compare'') None None None (Some (JBool True))
                 (Some [''This block is not allowed''])])
        (Some (JStr ''true'')) None None,
      Item (Some ''SEP'') None None None (Some (JBool True)) None None,
      Item (Some ''CATEGORY'') None (Some ''VARIABLE'') None None (Some (JStr ''true'')) None,
      Item (Some ''SEP'') None None None (Some (JBool True)) None None,
      Item (Some ''BLOCK'') (Some ''math_number'') None None None (Some (JBool False)) (Some [])]"

definition toolbox5 :: "item list" where
  "toolbox5 = [mkBlock ''a'', mkSep, mkBlock ''b'', mkSep, mkBlock ''c'']"

definition toolbox0_none_p0 :: "item list" where
  "toolbox0_none_p0 =
     [Item (Some ''CATEGORY'') None None
        (Some [Item (Some ''BLOCK'') (Some ''Text'') None None None (Some (JBool True))
                 (Some [''This block is not allowed'']),
               Item (Some ''BLOCK'') (Some ''logic_compare'') None None None (Some (JBool True))
                 (Some [''This block is not allowed''])])
        (Some (JStr ''true'')) None None,
      Item (Some ''SEP'') None None None (Some (JBool True)) None None,
      Item (Some ''CATEGORY'') None (Some ''VARIABLE'') None None (Some (JStr ''true'')) None,
      Item (Some ''SEP'') None None None (Some (JBool True)) None None,
      Item (Some ''BLOCK'') (Some ''math_number'') None None None (Some (JBool True))
        (Some [''This block is not allowed''])]"

definition toolbox0_none_mgr :: "item list" where
  "toolbox0_none_mgr =
     [Item (Some ''CATEGORY'') None None
        (Some [Item (Some ''BLOCK'') (Some ''Text'') None None None (Some (JBool True))
                 (Some [''This block is not allowed'']),
               Item (Some ''BLOCK'') (Some ''logic_compare'') None None None (Some (JBool True))
                 (Some [''This block is not allowed''])])
        (Some (JStr ''true'')) None None,
      mkSep,
      Item (Some ''CATEGORY'') None (Some ''VARIABLE'') None (Some (JStr ''true'')) None None,
      mkSep,
      Item (Some ''BLOCK'') (Some ''math_number'') None None None (Some (JBool True))
        (Some [''This block is not allowed''])]"

definition seps0 :: "item list" where
  "seps0 = [mkBlock ''a'', mkSep]"

definition untyped0 :: "item list" where
  "untyped0 =
     [mkCategory [mkBlock ''Text'', Item (Some ''BLOCK'') None None None None None None,
                  mkBlock ''math_number''],
      mkBlock ''text'']"

definition untyped0_thrown :: "item list" where
  "untyped0_thrown =
     [Item (Some ''CATEGORY'') None None
        (Some [Item (Some ''BLOCK'') (Some ''Text'') None None None (Some (JBool False)) (Some []),
               Item (Some ''BLOCK'') None None None None None None,
               mkBlock ''math_number''])
        None None None,
      mkBlock ''text'']"

section \<open>Properties of the two filters\<close>

text \<open>With an undefined allow-list the filter of \<open>manager.ts\<close> never throws.\<close>

lemma loop_Inr:
  assumes "filterLoop ab v (x # xs) = (Inr n, ys)"
  obtains v1 x1 xs' where "filterItem ab v x = (Inr v1, x1)"
    and "filterLoop ab v1 xs = (Inr n, xs')" and "ys = x1 # xs'"
  using assms by (auto split: sum.splits prod.splits)

lemma loop_cons_Inl:
  "filterItem ab v x = (Inl e, x1) \<Longrightarrow> filterLoop ab v (x # xs) = (Inl e, x1 # xs)"
  by simp

lemma loop_cons_Inr:
  "filterItem ab v x = (Inr v1, x1) \<Longrightarrow>
     filterLoop ab v (x # xs) = (fst (filterLoop ab v1 xs), x1 # snd (filterLoop ab v1 xs))"
  by (simp split: prod.splits)

lemmas kinds = isBlock_def isDynamicCategory_def isStaticCategory_def isCategoryKind_def

lemma filter_None_total:
  "\<exists>n cs'. filterContents None cs = (Inr n, cs')"
  "\<exists>n cs'. filterLoop None v cs = (Inr n, cs')"
  "\<exists>v' x'. filterItem None v x = (Inr v', x')"
proof (induction "None :: string list option" cs and "None :: string list option" v cs
         and "None :: string list option" v x
       rule: filterContents_filterLoop_filterItem.induct)
  case (1 cs)
  then show ?case by simp
next
  case (2 visible)
  then show ?case by simp
next
  case (3 visible x xs)
  from 3(1) obtain v1 x1 where e: "filterItem None visible x = (Inr v1, x1)" by auto
  from 3(2)[OF e[symmetric] refl] obtain n xs' where "filterLoop None v1 xs = (Inr n, xs')"
    by auto
  then show ?case by (simp add: loop_cons_Inr[OF e] del: filterLoop.simps)
next
  case (4 visible k t cu co h d dr)
  show ?case
  proof (cases "isStaticCategory (Item k t cu co h d dr)")
    case True
    then obtain kd cs where k: "k = Some kd" and u: "toUpperCase kd = ''CATEGORY''"
      and co: "co = Some cs"
      by (auto simp: kinds split: option.splits)
    from 4(1)[OF k u co] obtain n cs1 where "filterContents None cs = (Inr n, cs1)" by auto
    then show ?thesis using k u co by (simp del: filterContents.simps)
  next
    case False
    then show ?thesis
      by (auto simp: kinds allowed_def split: option.splits)
  qed
qed

lemma loop_p0_cons:
  assumes "filterItem_p0 ab v ls x = (v1, ls1, x1)"
  shows "filterLoop_p0 ab v ls (x # xs)
      = (fst (filterLoop_p0 ab v1 ls1 xs), x1 # snd (filterLoop_p0 ab v1 ls1 xs))"
  using assms by (simp split: prod.splits)

lemma blocks_p0:
  "\<forall>b\<in>set (all_items (snd (filterContents_p0 ab cs))). block_marked_p0 ab b"
  "\<forall>b\<in>set (all_items (snd (filterLoop_p0 ab v ls cs))). block_marked_p0 ab b"
  "\<forall>b\<in>set (subitems (snd (snd (filterItem_p0 ab v ls x)))). block_marked_p0 ab b"
proof (induction ab cs and ab v ls cs and ab v ls x
       rule: filterContents_p0_filterLoop_p0_filterItem_p0.induct)
  case (1 ab cs)
  then show ?case by simp
next
  case (2 ab visible lastSeparator)
  then show ?case by simp
next
  case (3 ab visible lastSeparator x xs)
  obtain v1 ls1 x1 where e: "filterItem_p0 ab visible lastSeparator x = (v1, ls1, x1)"
    by (cases "filterItem_p0 ab visible lastSeparator x") auto
  show ?case
    using 3(1) 3(2)[OF e[symmetric] refl] by (auto simp add: loop_p0_cons[OF e] e simp del: filterLoop_p0.simps)
next
  case (4 ab visible lastSeparator k t cu co h d dr)
  show ?case
  proof (cases co)
    case None
    then show ?thesis
      by (auto simp: block_marked_p0_def isBlock_p0_def split: option.splits)
  next
    case (Some cs)
    obtain n cs1 where e: "filterContents_p0 ab cs = (n, cs1)"
      by (cases "filterContents_p0 ab cs") auto
    show ?thesis
      using 4(1)[OF Some] Some e
      by (auto simp: block_marked_p0_def isBlock_p0_def simp del: filterContents_p0.simps)
  qed
qed

lemma idem_p0:
  "filterContents_p0 ab (snd (filterContents_p0 ab cs)) = filterContents_p0 ab cs"
  "filterLoop_p0 ab v ls (snd (filterLoop_p0 ab v ls cs)) = filterLoop_p0 ab v ls cs"
  "filterItem_p0 ab v ls x = (v', ls', x') \<Longrightarrow> filterItem_p0 ab v ls x' = (v', ls', x')"
proof (induction ab cs and ab v ls cs and ab v ls x arbitrary: and and v' ls' x'
       rule: filterContents_p0_filterLoop_p0_filterItem_p0.induct)
  case (1 ab cs)
  then show ?case by simp
next
  case (2 ab visible lastSeparator)
  then show ?case by simp
next
  case (3 ab visible lastSeparator x xs)
  obtain a b x1 where e1: "filterItem_p0 ab visible lastSeparator x = (a, b, x1)"
    by (cases "filterItem_p0 ab visible lastSeparator x") auto
  obtain n xs1 where e2: "filterLoop_p0 ab a b xs = (n, xs1)"
    by (cases "filterLoop_p0 ab a b xs") auto
  have i1: "filterItem_p0 ab visible lastSeparator x1 = (a, b, x1)"
    using 3(1)[OF e1] .
  have i2: "filterLoop_p0 ab a b xs1 = (n, xs1)"
    using 3(2)[OF e1[symmetric] refl] e2 by simp
  show ?case using e1 e2 i1 i2 by simp
next
  case (4 ab visible lastSeparator k t cu co h d dr)
  show ?case
  proof (cases co)
    case None
    then show ?thesis using 4(2) by (auto split: option.splits if_splits)
  next
    case (Some cs)
    obtain n cs1 where e: "filterContents_p0 ab cs = (n, cs1)"
      by (cases "filterContents_p0 ab cs") auto
    have i: "filterContents_p0 ab cs1 = (n, cs1)" using 4(1)[OF Some] e by simp
    show ?thesis using 4(2) Some e i by (auto simp del: filterContents_p0.simps split: if_splits)
  qed
qed

lemmas kinds_p0 =
  isBlock_p0_def isDynamicCategory_p0_def isStaticCategory_p0_def isSeparator_p0_def

lemma empty_p0:
  "fst (filterContents_p0 (Some []) cs) = 0
   \<and> (\<forall>i\<in>set (all_items (snd (filterContents_p0 (Some []) cs))). marked_none_p0 i)"
  "v = 0 \<and> ls = 0 \<longrightarrow>
     fst (filterLoop_p0 (Some []) v ls cs) = 0
     \<and> (\<forall>i\<in>set (all_items (snd (filterLoop_p0 (Some []) v ls cs))). marked_none_p0 i)"
  "v = 0 \<and> ls = 0 \<longrightarrow>
     fst (filterItem_p0 (Some []) v ls x) = 0 \<and> fst (snd (filterItem_p0 (Some []) v ls x)) = 0
     \<and> (\<forall>i\<in>set (subitems (snd (snd (filterItem_p0 (Some []) v ls x)))). marked_none_p0 i)"
proof (induction "Some [] :: string list option" cs and "Some [] :: string list option" v ls cs
         and "Some [] :: string list option" v ls x
       rule: filterContents_p0_filterLoop_p0_filterItem_p0.induct)
  case (1 cs)
  then show ?case by simp
next
  case (2 visible lastSeparator)
  then show ?case by simp
next
  case (3 visible lastSeparator x xs)
  show ?case
  proof
    assume z: "visible = 0 \<and> lastSeparator = 0"
    obtain v1 ls1 x1 where e: "filterItem_p0 (Some []) visible lastSeparator x = (v1, ls1, x1)"
      by (cases "filterItem_p0 (Some []) visible lastSeparator x") auto
    from 3(1) z e have a: "v1 = 0" "ls1 = 0" "\<forall>i\<in>set (subitems x1). marked_none_p0 i"
      by simp_all
    from 3(2)[OF e[symmetric] refl] a
    have b: "fst (filterLoop_p0 (Some []) v1 ls1 xs) = 0
        \<and> (\<forall>i\<in>set (all_items (snd (filterLoop_p0 (Some []) v1 ls1 xs))). marked_none_p0 i)"
      by simp
    show "fst (filterLoop_p0 (Some []) visible lastSeparator (x # xs)) = 0
        \<and> (\<forall>i\<in>set (all_items (snd (filterLoop_p0 (Some []) visible lastSeparator (x # xs)))).
              marked_none_p0 i)"
      using a(3) b by (auto simp add: loop_p0_cons[OF e] simp del: filterLoop_p0.simps)
  qed
next
  case (4 visible lastSeparator k t cu co h d dr)
  show ?case
  proof (cases co)
    case None
    then show ?thesis
      by (auto simp: marked_none_p0_def kinds_p0 allowed_def split: option.splits)
  next
    case (Some cs)
    obtain n cs1 where e: "filterContents_p0 (Some []) cs = (n, cs1)"
      by (cases "filterContents_p0 (Some []) cs") auto
    show ?thesis
      using 4(1)[OF Some] Some e
      by (auto simp: marked_none_p0_def kinds_p0 simp del: filterContents_p0.simps)
  qed
qed

lemma sep_kept_refl: "sep_kept x x"
  by (simp add: sep_kept_def)

lemma sep_kept_trans: "sep_kept x y \<Longrightarrow> sep_kept y z \<Longrightarrow> sep_kept x z"
  by (auto simp: sep_kept_def)

lemma seps_kept_p0:
  "list_all2 sep_kept (all_items cs) (all_items (snd (filterContents_p0 ab cs)))"
  "list_all2 sep_kept (all_items cs) (all_items (snd (filterLoop_p0 ab v ls cs)))"
  "list_all2 sep_kept (subitems x) (subitems (snd (snd (filterItem_p0 ab v ls x))))"
proof (induction ab cs and ab v ls cs and ab v ls x
       rule: filterContents_p0_filterLoop_p0_filterItem_p0.induct)
  case (1 ab cs)
  then show ?case by simp
next
  case (2 ab visible lastSeparator)
  then show ?case by simp
next
  case (3 ab visible lastSeparator x xs)
  obtain v1 ls1 x1 where e: "filterItem_p0 ab visible lastSeparator x = (v1, ls1, x1)"
    by (cases "filterItem_p0 ab visible lastSeparator x") auto
  show ?case
    using 3(1) 3(2)[OF e[symmetric] refl]
    by (auto simp add: loop_p0_cons[OF e] e simp del: filterLoop_p0.simps intro: list_all2_appendI)
next
  case (4 ab visible lastSeparator k t cu co h d dr)
  show ?case
  proof (cases co)
    case None
    then show ?thesis
      by (auto simp: sep_kept_def kinds_p0 split: option.splits)
  next
    case (Some cs)
    obtain n cs1 where e: "filterContents_p0 ab cs = (n, cs1)"
      by (cases "filterContents_p0 ab cs") auto
    show ?thesis
      using 4(1)[OF Some] Some e
      by (auto simp: sep_kept_def kinds_p0 simp del: filterContents_p0.simps)
  qed
qed

lemma seps_kept_runs_p0:
  "list_all2 sep_kept (all_items cs) (all_items (runs_p0 allows cs))"
proof (induction allows arbitrary: cs)
  case Nil
  then show ?case by (simp add: list_all2_refl sep_kept_refl)
next
  case (Cons ab rest)
  have a: "list_all2 sep_kept (all_items cs) (all_items (snd (filterContents_p0 ab cs)))"
    by (rule seps_kept_p0(1))
  have b: "list_all2 sep_kept (all_items (snd (filterContents_p0 ab cs)))
             (all_items (runs_p0 rest (snd (filterContents_p0 ab cs))))"
    by (rule Cons.IH)
  show ?case
    using list_all2_trans[of sep_kept sep_kept sep_kept, OF _ a b] sep_kept_trans
    by (simp del: filterContents_p0.simps)
qed

lemma count_p0:
  "(0 < fst (filterContents_p0 ab cs)
      \<longleftrightarrow> (\<exists>l\<in>set (all_items (snd (filterContents_p0 ab cs))). counted_leaf_p0 l))
   \<and> (\<forall>c\<in>set (all_items (snd (filterContents_p0 ab cs))). category_marked_p0 c)"
  "v \<le> fst (filterLoop_p0 ab v ls cs)
   \<and> (v < fst (filterLoop_p0 ab v ls cs)
        \<longleftrightarrow> (\<exists>l\<in>set (all_items (snd (filterLoop_p0 ab v ls cs))). counted_leaf_p0 l))
   \<and> (\<forall>c\<in>set (all_items (snd (filterLoop_p0 ab v ls cs))). category_marked_p0 c)"
  "v \<le> fst (filterItem_p0 ab v ls x)
   \<and> (v < fst (filterItem_p0 ab v ls x)
        \<longleftrightarrow> (\<exists>l\<in>set (subitems (snd (snd (filterItem_p0 ab v ls x)))). counted_leaf_p0 l))
   \<and> (\<forall>c\<in>set (subitems (snd (snd (filterItem_p0 ab v ls x)))). category_marked_p0 c)"
proof (induction ab cs and ab v ls cs and ab v ls x
       rule: filterContents_p0_filterLoop_p0_filterItem_p0.induct)
  case (1 ab cs)
  then show ?case by simp
next
  case (2 ab visible lastSeparator)
  then show ?case by simp
next
  case (3 ab visible lastSeparator x xs)
  obtain v1 ls1 x1 where e: "filterItem_p0 ab visible lastSeparator x = (v1, ls1, x1)"
    by (cases "filterItem_p0 ab visible lastSeparator x") auto
  from 3(1) e have a: "visible \<le> v1"
    "visible < v1 \<longleftrightarrow> (\<exists>l\<in>set (subitems x1). counted_leaf_p0 l)"
    "\<forall>c\<in>set (subitems x1). category_marked_p0 c"
    by simp_all
  let ?r = "filterLoop_p0 ab v1 ls1 xs"
  from 3(2)[OF e[symmetric] refl] have b: "v1 \<le> fst ?r"
    "v1 < fst ?r \<longleftrightarrow> (\<exists>l\<in>set (all_items (snd ?r)). counted_leaf_p0 l)"
    "\<forall>c\<in>set (all_items (snd ?r)). category_marked_p0 c"
    by simp_all
  have c: "visible < fst ?r \<longleftrightarrow> visible < v1 \<or> v1 < fst ?r"
    using a(1) b(1) by arith
  show ?case
    unfolding loop_p0_cons[OF e] using a b c by (auto simp del: filterLoop_p0.simps)
next
  case (4 ab visible lastSeparator k t cu co h d dr)
  show ?case
  proof (cases co)
    case None
    then show ?thesis
      by (auto simp: category_marked_p0_def counted_leaf_p0_def kinds_p0 split: option.splits)
  next
    case (Some cs)
    obtain n cs1 where e: "filterContents_p0 ab cs = (n, cs1)"
      by (cases "filterContents_p0 ab cs") auto
    from 4(1)[OF Some] e have i: "0 < n \<longleftrightarrow> (\<exists>l\<in>set (all_items cs1). counted_leaf_p0 l)"
      "\<forall>c\<in>set (all_items cs1). category_marked_p0 c"
      by simp_all
    show ?thesis
    proof (cases "0 < n")
      case True
      then show ?thesis
        using i Some e
        by (auto simp: category_marked_p0_def counted_leaf_p0_def kinds_p0
            simp del: filterContents_p0.simps)
    next
      case False
      then show ?thesis
        using i Some e
        by (auto simp: category_marked_p0_def counted_leaf_p0_def kinds_p0
            simp del: filterContents_p0.simps)
    qed
  qed
qed

lemma fresh_seps_p0_Cons:
  "fresh_seps_p0 (x # xs) \<longleftrightarrow> fresh_seps_p0 [x] \<and> fresh_seps_p0 xs"
  by (auto simp: fresh_seps_p0_def)

lemma nested_seps_ok_p0_Cons:
  "nested_seps_ok_p0 (x # xs) \<longleftrightarrow> nested_seps_ok_p0 [x] \<and> nested_seps_ok_p0 xs"
  by (auto simp: nested_seps_ok_p0_def)

lemma seps_p0:
  "fresh_seps_p0 cs \<longrightarrow>
     seps_ok_p0 False (snd (filterContents_p0 ab cs))
     \<and> nested_seps_ok_p0 (snd (filterContents_p0 ab cs))"
  "fresh_seps_p0 cs \<and> ls \<le> v \<longrightarrow>
     seps_ok_p0 (ls \<noteq> v) (snd (filterLoop_p0 ab v ls cs))
     \<and> nested_seps_ok_p0 (snd (filterLoop_p0 ab v ls cs))"
  "fresh_seps_p0 [x] \<and> ls \<le> v \<longrightarrow>
     fst (snd (filterItem_p0 ab v ls x)) \<le> fst (filterItem_p0 ab v ls x)
     \<and> (\<forall>rest. seps_ok_p0 (fst (snd (filterItem_p0 ab v ls x)) \<noteq> fst (filterItem_p0 ab v ls x)) rest
           \<longrightarrow> seps_ok_p0 (ls \<noteq> v) (snd (snd (filterItem_p0 ab v ls x)) # rest))
     \<and> nested_seps_ok_p0 [snd (snd (filterItem_p0 ab v ls x))]"
proof (induction ab cs and ab v ls cs and ab v ls x
       rule: filterContents_p0_filterLoop_p0_filterItem_p0.induct)
  case (1 ab cs)
  then show ?case by simp
next
  case (2 ab visible lastSeparator)
  then show ?case by (simp add: nested_seps_ok_p0_def)
next
  case (3 ab visible lastSeparator x xs)
  show ?case
  proof
    assume h: "fresh_seps_p0 (x # xs) \<and> lastSeparator \<le> visible"
    then have fx: "fresh_seps_p0 [x]" and fxs: "fresh_seps_p0 xs"
      using fresh_seps_p0_Cons[of x xs] by simp_all
    obtain v1 ls1 x1 where e: "filterItem_p0 ab visible lastSeparator x = (v1, ls1, x1)"
      by (cases "filterItem_p0 ab visible lastSeparator x") auto
    from 3(1) fx h e have a: "ls1 \<le> v1"
      "\<forall>rest. seps_ok_p0 (ls1 \<noteq> v1) rest \<longrightarrow> seps_ok_p0 (lastSeparator \<noteq> visible) (x1 # rest)"
      "nested_seps_ok_p0 [x1]"
      by (simp_all del: seps_ok_p0.simps)
    let ?r = "filterLoop_p0 ab v1 ls1 xs"
    from 3(2)[OF e[symmetric] refl] fxs a(1)
    have b: "seps_ok_p0 (ls1 \<noteq> v1) (snd ?r)" "nested_seps_ok_p0 (snd ?r)"
      by (simp_all del: seps_ok_p0.simps)
    have c: "seps_ok_p0 (lastSeparator \<noteq> visible) (x1 # snd ?r)"
      using a(2) b(1) by blast
    have d: "nested_seps_ok_p0 (x1 # snd ?r)"
      using a(3) b(2) nested_seps_ok_p0_Cons[of x1 "snd ?r"] by simp
    show "seps_ok_p0 (lastSeparator \<noteq> visible)
            (snd (filterLoop_p0 ab visible lastSeparator (x # xs)))
          \<and> nested_seps_ok_p0 (snd (filterLoop_p0 ab visible lastSeparator (x # xs)))"
      unfolding loop_p0_cons[OF e] using c d by (simp del: seps_ok_p0.simps)
  qed
next
  case (4 ab visible lastSeparator k t cu co h d dr)
  show ?case
  proof (cases co)
    case None
    note co = None
    show ?thesis
    proof (cases t)
      case (Some ty)
      then show ?thesis
        using co
        by (cases "allowed ab ty")
          (simp_all add: nested_seps_ok_p0_def counted_unit_p0_def counted_leaf_p0_def kinds_p0)
    next
      case None
      note t = None
      show ?thesis
      proof (cases "k = Some ''CATEGORY'' \<and> cu \<noteq> None")
        case True
        then show ?thesis
          using co t
          by (cases "allowed ab (the cu)")
            (auto simp add: nested_seps_ok_p0_def counted_unit_p0_def counted_leaf_p0_def kinds_p0)
      next
        case False
        note dyn = False
        show ?thesis
        proof (cases "k = Some ''SEP''")
          case True
          then show ?thesis
            using co t
            by (cases "lastSeparator = visible")
              (auto simp add: fresh_seps_p0_def nested_seps_ok_p0_def sep_hidden_def kinds_p0)
        next
          case False
          then show ?thesis
            using co t dyn
            by (auto simp add: nested_seps_ok_p0_def counted_unit_p0_def counted_leaf_p0_def
                kinds_p0)
        qed
      qed
    qed
  next
    case (Some cs)
    obtain n cs1 where e: "filterContents_p0 ab cs = (n, cs1)"
      by (cases "filterContents_p0 ab cs") auto
    show ?thesis
    proof
      assume h: "fresh_seps_p0 [Item k t cu co h d dr] \<and> lastSeparator \<le> visible"
      then have "fresh_seps_p0 cs"
        using Some by (simp add: fresh_seps_p0_def)
      with 4(1)[OF Some] e have i: "seps_ok_p0 False cs1" "nested_seps_ok_p0 cs1"
        by simp_all
      show "fst (snd (filterItem_p0 ab visible lastSeparator (Item k t cu co h d dr)))
              \<le> fst (filterItem_p0 ab visible lastSeparator (Item k t cu co h d dr))
          \<and> (\<forall>rest. seps_ok_p0
                  (fst (snd (filterItem_p0 ab visible lastSeparator (Item k t cu co h d dr)))
                     \<noteq> fst (filterItem_p0 ab visible lastSeparator (Item k t cu co h d dr))) rest
                \<longrightarrow> seps_ok_p0 (lastSeparator \<noteq> visible)
                      (snd (snd (filterItem_p0 ab visible lastSeparator (Item k t cu co h d dr)))
                       # rest))
          \<and> nested_seps_ok_p0
              [snd (snd (filterItem_p0 ab visible lastSeparator (Item k t cu co h d dr)))]"
        using i h Some e
        by (auto simp: nested_seps_ok_p0_def counted_unit_p0_def counted_leaf_p0_def kinds_p0
            simp del: filterContents_p0.simps)
    qed
  qed
qed

lemma upper_kinds_distinct:
  "toUpperCase kd = ''BLOCK'' \<Longrightarrow> toUpperCase kd \<noteq> ''CATEGORY''"
  "toUpperCase kd = ''SEP'' \<Longrightarrow> toUpperCase kd \<noteq> ''CATEGORY''"
  "toUpperCase kd = ''SEP'' \<Longrightarrow> toUpperCase kd \<noteq> ''BLOCK''"
  by simp_all

lemma blocks_mgr:
  "filterContents ab cs = (Inr n, cs') \<Longrightarrow> \<forall>b\<in>set (toolbox_items cs'). block_marked ab b"
  "filterLoop ab v cs = (Inr n, cs') \<Longrightarrow> \<forall>b\<in>set (toolbox_items cs'). block_marked ab b"
  "filterItem ab v x = (Inr v', x') \<Longrightarrow> \<forall>b\<in>set (toolbox_subitems x'). block_marked ab b"
proof (induction ab cs and ab v cs and ab v x arbitrary: n cs' and n cs' and v' x'
       rule: filterContents_filterLoop_filterItem.induct)
  case (1 ab cs)
  then show ?case by simp
next
  case (2 ab visible)
  then show ?case by simp
next
  case (3 ab visible x xs)
  from 3(3) obtain v1 x1 xs' where e: "filterItem ab visible x = (Inr v1, x1)"
    and l: "filterLoop ab v1 xs = (Inr n, xs')" and c: "cs' = x1 # xs'"
    by (rule loop_Inr)
  show ?case using 3(1)[OF e] 3(2)[OF e[symmetric] refl l] c by auto
next
  case (4 ab visible k t cu co h d dr)
  show ?case
  proof (cases "isStaticCategory (Item k t cu co h d dr)")
    case True
    then obtain kd cs where k: "k = Some kd" and u: "toUpperCase kd = ''CATEGORY''"
      and co: "co = Some cs"
      by (auto simp: kinds split: option.splits)
    from 4(2) k u co obtain m cs1 where e: "filterContents ab cs = (Inr m, cs1)"
      by (auto simp del: filterContents.simps split: sum.splits prod.splits if_splits)
    from 4(1)[OF k u co e] have i: "\<forall>b\<in>set (toolbox_items cs1). block_marked ab b" .
    show ?thesis
      using 4(2) k u co e i
      by (auto simp: block_marked_def kinds simp del: filterContents.simps split: if_splits)
  next
    case False
    then show ?thesis
      using 4(2)
      by (auto simp: block_marked_def block_allowed_def allowed_def kinds
          split: option.splits if_splits)
  qed
qed

lemma empty_mgr:
  "filterContents (Some []) cs = (Inr n, cs') \<Longrightarrow>
     n = 0 \<and> (\<forall>i\<in>set (toolbox_items cs'). marked_none i)"
  "filterLoop (Some []) v cs = (Inr n, cs') \<Longrightarrow>
     n = v \<and> (\<forall>i\<in>set (toolbox_items cs'). marked_none i)"
  "filterItem (Some []) v x = (Inr v', x') \<Longrightarrow>
     v' = v \<and> (\<forall>i\<in>set (toolbox_subitems x'). marked_none i)"
proof (induction "Some [] :: string list option" cs and "Some [] :: string list option" v cs
         and "Some [] :: string list option" v x arbitrary: n cs' and n cs' and v' x'
       rule: filterContents_filterLoop_filterItem.induct)
  case (1 cs)
  then show ?case by simp
next
  case (2 visible)
  then show ?case by simp
next
  case (3 visible x xs)
  from 3(3) obtain v1 x1 xs' where e: "filterItem (Some []) visible x = (Inr v1, x1)"
    and l: "filterLoop (Some []) v1 xs = (Inr n, xs')" and c: "cs' = x1 # xs'"
    by (rule loop_Inr)
  show ?case using 3(1)[OF e] 3(2)[OF e[symmetric] refl l] c by auto
next
  case (4 visible k t cu co h d dr)
  show ?case
  proof (cases "isStaticCategory (Item k t cu co h d dr)")
    case True
    then obtain kd cs where k: "k = Some kd" and u: "toUpperCase kd = ''CATEGORY''"
      and co: "co = Some cs"
      by (auto simp: kinds split: option.splits)
    from 4(2) k u co obtain m cs1 where e: "filterContents (Some []) cs = (Inr m, cs1)"
      by (auto simp del: filterContents.simps split: sum.splits prod.splits if_splits)
    from 4(1)[OF k u co e] have i: "m = 0" "\<forall>b\<in>set (toolbox_items cs1). marked_none b"
      by simp_all
    show ?thesis
      using 4(2) k u co e i
      by (auto simp: marked_none_def kinds simp del: filterContents.simps split: if_splits)
  next
    case False
    then show ?thesis
      using 4(2)
      by (auto simp: marked_none_def allowed_def kinds split: option.splits if_splits)
  qed
qed

lemma count_mgr:
  "filterContents ab cs = (Inr n, cs') \<Longrightarrow>
     (0 < n \<longleftrightarrow> (\<exists>l\<in>set (toolbox_items cs'). counted_leaf l))
     \<and> (\<forall>c\<in>set (toolbox_items cs'). category_marked c)"
  "filterLoop ab v cs = (Inr n, cs') \<Longrightarrow>
     v \<le> n \<and> (v < n \<longleftrightarrow> (\<exists>l\<in>set (toolbox_items cs'). counted_leaf l))
     \<and> (\<forall>c\<in>set (toolbox_items cs'). category_marked c)"
  "filterItem ab v x = (Inr v', x') \<Longrightarrow>
     v \<le> v' \<and> (v < v' \<longleftrightarrow> (\<exists>l\<in>set (toolbox_subitems x'). counted_leaf l))
     \<and> (\<forall>c\<in>set (toolbox_subitems x'). category_marked c)"
proof (induction ab cs and ab v cs and ab v x arbitrary: n cs' and n cs' and v' x'
       rule: filterContents_filterLoop_filterItem.induct)
  case (1 ab cs)
  then show ?case by simp
next
  case (2 ab visible)
  then show ?case by simp
next
  case (3 ab visible x xs)
  from 3(3) obtain v1 x1 xs' where e: "filterItem ab visible x = (Inr v1, x1)"
    and l: "filterLoop ab v1 xs = (Inr n, xs')" and c: "cs' = x1 # xs'"
    by (rule loop_Inr)
  note a = 3(1)[OF e] and b = 3(2)[OF e[symmetric] refl l]
  have o: "visible < n \<longleftrightarrow> visible < v1 \<or> v1 < n" using a b by arith
  show ?case using a b c o by auto
next
  case (4 ab visible k t cu co h d dr)
  show ?case
  proof (cases "isStaticCategory (Item k t cu co h d dr)")
    case True
    then obtain kd cs where k: "k = Some kd" and u: "toUpperCase kd = ''CATEGORY''"
      and co: "co = Some cs"
      by (auto simp: kinds split: option.splits)
    from 4(2) k u co obtain m cs1 where e: "filterContents ab cs = (Inr m, cs1)"
      by (auto simp del: filterContents.simps split: sum.splits prod.splits if_splits)
    from 4(1)[OF k u co e] have i: "0 < m \<longleftrightarrow> (\<exists>l\<in>set (toolbox_items cs1). counted_leaf l)"
      "\<forall>c\<in>set (toolbox_items cs1). category_marked c"
      by simp_all
    have x': "x' = Item (Some kd) t cu (Some cs1)
                  (Some (JStr (if 0 < m then ''false'' else ''true''))) d dr"
      and v': "v' = (if 0 < m then visible + 1 else visible)"
      using 4(2) k u co e by (auto simp del: filterContents.simps)
    have s: "toolbox_subitems x' = x' # toolbox_items cs1"
      by (simp add: x' isCategoryKind_def u)
    have nl: "\<not> counted_leaf x'"
      by (simp add: x' counted_leaf_def kinds u)
    have cm: "category_marked x'"
      using i(1) by (simp add: x' category_marked_def kinds u)
    show ?thesis using s nl cm i v' by auto
  next
    case False
    note ns = False
    show ?thesis
    proof (cases k)
      case None
      then show ?thesis
        using 4(2) by (auto simp: category_marked_def counted_leaf_def kinds)
    next
      case (Some kd)
      note k = Some
      show ?thesis
      proof (cases "toUpperCase kd = ''CATEGORY''")
        case True
        then have co: "co = None" using ns k by (simp add: kinds)
        show ?thesis
        proof (cases cu)
          case None
          then show ?thesis
            using 4(2) k True co by (auto simp: category_marked_def counted_leaf_def kinds)
        next
          case (Some c)
          then show ?thesis
            using 4(2) k True co
            by (cases "allowed ab (toLowerCase c)")
              (auto simp: category_marked_def counted_leaf_def kinds)
        qed
      next
        case False
        note nc = False
        show ?thesis
        proof (cases "toUpperCase kd = ''BLOCK''")
          case True
          show ?thesis
          proof (cases "ab = None")
            case True
            then show ?thesis
              using 4(2) k nc \<open>toUpperCase kd = ''BLOCK''\<close>
              by (auto simp: category_marked_def counted_leaf_def kinds)
          next
            case False
            then obtain ty where t: "t = Some ty"
              using 4(2) k nc True by (cases t) auto
            show ?thesis
              using 4(2) k nc True False t
              by (cases "allowed ab (toLowerCase ty)")
                (auto simp: category_marked_def counted_leaf_def kinds)
          qed
        next
          case False
          then show ?thesis
            using 4(2) k nc by (auto simp: category_marked_def counted_leaf_def kinds)
        qed
      qed
    qed
  qed
qed

lemma idem_mgr:
  "filterContents ab cs = (r, cs') \<Longrightarrow> filterContents ab cs' = (r, cs')"
  "filterLoop ab v cs = (r, cs') \<Longrightarrow> filterLoop ab v cs' = (r, cs')"
  "filterItem ab v x = (rx, x') \<Longrightarrow> filterItem ab v x' = (rx, x')"
proof (induction ab cs and ab v cs and ab v x arbitrary: r cs' and r cs' and rx x'
       rule: filterContents_filterLoop_filterItem.induct)
  case (1 ab cs)
  from 1(2) have "filterLoop ab 0 cs = (r, cs')" by simp
  from 1(1)[OF this] show ?case by simp
next
  case (2 ab visible)
  then show ?case by auto
next
  case (3 ab visible x xs)
  obtain rx x1 where e: "filterItem ab visible x = (rx, x1)"
    by (cases "filterItem ab visible x") auto
  note i1 = 3(1)[OF e]
  show ?case
  proof (cases rx)
    case (Inl err)
    from e Inl have e': "filterItem ab visible x = (Inl err, x1)" by simp
    from i1 Inl have i1': "filterItem ab visible x1 = (Inl err, x1)" by simp
    have "r = Inl err" "cs' = x1 # xs"
      using 3(3) by (simp_all add: loop_cons_Inl[OF e'] del: filterLoop.simps)
    then show ?thesis
      by (simp add: loop_cons_Inl[OF i1'] del: filterLoop.simps)
  next
    case (Inr v1)
    obtain r2 xs' where l: "filterLoop ab v1 xs = (r2, xs')"
      by (cases "filterLoop ab v1 xs") auto
    from e Inr have e': "filterItem ab visible x = (Inr v1, x1)" by simp
    from i1 Inr have i1': "filterItem ab visible x1 = (Inr v1, x1)" by simp
    note i2 = 3(2)[OF e'[symmetric] refl l]
    have "r = r2" "cs' = x1 # xs'"
      using 3(3) l by (simp_all add: loop_cons_Inr[OF e'] del: filterLoop.simps)
    then show ?thesis
      using i2 by (simp add: loop_cons_Inr[OF i1'] del: filterLoop.simps)
  qed
next
  case (4 ab visible k t cu co h d dr)
  show ?case
  proof (cases "isStaticCategory (Item k t cu co h d dr)")
    case True
    then obtain kd cs where k: "k = Some kd" and u: "toUpperCase kd = ''CATEGORY''"
      and co: "co = Some cs"
      by (auto simp: kinds split: option.splits)
    obtain rc cs1 where e: "filterContents ab cs = (rc, cs1)"
      by (cases "filterContents ab cs") auto
    note i = 4(1)[OF k u co e]
    show ?thesis
      using 4(2) k u co e i
      by (cases rc) (auto simp del: filterContents.simps split: if_splits)
  next
    case False
    then show ?thesis
      using 4(2)
      by (auto simp: kinds split: option.splits if_splits)
  qed
qed

lemma typed_blocks_Cons:
  "typed_blocks (x # xs) \<longleftrightarrow> typed_blocks [x] \<and> typed_blocks xs"
  by (auto simp: typed_blocks_def)

lemma total_mgr:
  "typed_blocks cs \<Longrightarrow> \<exists>n cs'. filterContents ab cs = (Inr n, cs')"
  "typed_blocks cs \<Longrightarrow> \<exists>n cs'. filterLoop ab v cs = (Inr n, cs')"
  "typed_blocks [x] \<Longrightarrow> \<exists>v' x'. filterItem ab v x = (Inr v', x')"
proof (induction ab cs and ab v cs and ab v x
       rule: filterContents_filterLoop_filterItem.induct)
  case (1 ab cs)
  then show ?case by simp
next
  case (2 ab visible)
  then show ?case by simp
next
  case (3 ab visible x xs)
  from 3(3) have tx: "typed_blocks [x]" and txs: "typed_blocks xs"
    using typed_blocks_Cons[of x xs] by simp_all
  from 3(1)[OF tx] obtain v1 x1 where e: "filterItem ab visible x = (Inr v1, x1)" by auto
  from 3(2)[OF e[symmetric] refl txs] obtain n xs' where "filterLoop ab v1 xs = (Inr n, xs')"
    by auto
  then show ?case by (simp add: loop_cons_Inr[OF e] del: filterLoop.simps)
next
  case (4 ab visible k t cu co h d dr)
  show ?case
  proof (cases "isStaticCategory (Item k t cu co h d dr)")
    case True
    then obtain kd cs where k: "k = Some kd" and u: "toUpperCase kd = ''CATEGORY''"
      and co: "co = Some cs"
      by (auto simp: kinds split: option.splits)
    have "typed_blocks cs"
      using 4(2) k u co by (simp add: typed_blocks_def kinds)
    from 4(1)[OF k u co this] obtain m cs1 where "filterContents ab cs = (Inr m, cs1)" by auto
    then show ?thesis using k u co by (simp del: filterContents.simps)
  next
    case False
    note ns = False
    show ?thesis
    proof (cases k)
      case None
      then show ?thesis by simp
    next
      case (Some kd)
      note k = Some
      show ?thesis
      proof (cases "toUpperCase kd = ''CATEGORY''")
        case True
        then have "co = None" using ns k by (simp add: kinds)
        then show ?thesis using k True by (simp split: option.splits)
      next
        case False
        note nc = False
        show ?thesis
        proof (cases "toUpperCase kd = ''BLOCK''")
          case True
          then have "t \<noteq> None"
            using 4(2) k by (auto simp: typed_blocks_def kinds)
          then show ?thesis using k nc True by (auto split: option.splits)
        next
          case False
          then show ?thesis using k nc by simp
        qed
      qed
    qed
  qed
qed

lemma lower_case_list_member:
  assumes "\<forall>e\<in>set l. toLowerCase e = e"
  shows "allowed (Some l) (toLowerCase ty) \<longleftrightarrow> ci_member ty l"
proof
  assume "allowed (Some l) (toLowerCase ty)"
  then show "ci_member ty l"
    using assms by (force simp: allowed_def ci_member_def image_iff)
next
  assume "ci_member ty l"
  then obtain e where "e \<in> set l" "toLowerCase ty = toLowerCase e"
    by (auto simp: ci_member_def)
  then show "allowed (Some l) (toLowerCase ty)"
    using assms by (simp add: allowed_def)
qed

lemma block_allowed_ci:
  assumes "lower_case_list ab"
  shows "block_allowed ab b = ci_allowed ab b"
proof (cases ab)
  case None
  then show ?thesis by (simp add: block_allowed_def ci_allowed_def)
next
  case (Some l)
  with assms have lc: "\<forall>e\<in>set l. toLowerCase e = e"
    by (simp add: lower_case_list_def list_all_iff)
  show ?thesis
  proof (cases "btype b")
    case None
    then show ?thesis using Some by (simp add: block_allowed_def ci_allowed_def)
  next
    case (Some ty)
    have "allowed (Some l) (toLowerCase ty) \<longleftrightarrow> ci_member ty l"
      using lower_case_list_member[OF lc] .
    then show ?thesis
      using Some \<open>ab = Some l\<close> by (simp add: block_allowed_def ci_allowed_def allowed_def)
  qed
qed

lemma blocks_mgr_ci:
  assumes "lower_case_list ab" and "filterContents ab cs = (Inr n, cs')"
  shows "\<forall>b\<in>set (toolbox_items cs'). block_marked_ci ab b"
  using blocks_mgr(1)[OF assms(2)] block_allowed_ci[OF assms(1)]
  by (simp add: block_marked_def block_marked_ci_def)

lemma passed_over_mgr:
  "passed_over x \<Longrightarrow> filterItem ab v x = (Inr v, x)"
  by (cases x) (auto simp: passed_over_def kinds split: option.splits)

lemma passed_over_filter_p0:
  "passed_over_p0 x \<Longrightarrow> filterItem_p0 ab v ls x = (v, ls, x)"
  by (cases x) (auto simp: passed_over_p0_def kinds_p0 split: option.splits)

lemma separator_passed_over: "isSeparator x \<Longrightarrow> passed_over x"
  by (auto simp: passed_over_def isSeparator_def kinds split: option.splits)

lemma seps_rule_run_p0:
  "seps_rule_p0 False cs (snd (filterContents_p0 ab cs))
   \<and> list_all2 cat_seps_rule_p0 (all_items cs) (all_items (snd (filterContents_p0 ab cs)))"
  "ls \<le> v \<longrightarrow>
     seps_rule_p0 (ls \<noteq> v) cs (snd (filterLoop_p0 ab v ls cs))
     \<and> list_all2 cat_seps_rule_p0 (all_items cs) (all_items (snd (filterLoop_p0 ab v ls cs)))"
  "ls \<le> v \<longrightarrow>
     fst (snd (filterItem_p0 ab v ls x)) \<le> fst (filterItem_p0 ab v ls x)
     \<and> (\<forall>xs ys. seps_rule_p0 (fst (snd (filterItem_p0 ab v ls x)) \<noteq> fst (filterItem_p0 ab v ls x))
                    xs ys
           \<longrightarrow> seps_rule_p0 (ls \<noteq> v) (x # xs) (snd (snd (filterItem_p0 ab v ls x)) # ys))
     \<and> list_all2 cat_seps_rule_p0 (subitems x) (subitems (snd (snd (filterItem_p0 ab v ls x))))"
proof (induction ab cs and ab v ls cs and ab v ls x
       rule: filterContents_p0_filterLoop_p0_filterItem_p0.induct)
  case (1 ab cs)
  then show ?case by simp
next
  case (2 ab visible lastSeparator)
  then show ?case by simp
next
  case (3 ab visible lastSeparator x xs)
  show ?case
  proof
    assume h: "lastSeparator \<le> visible"
    obtain v1 ls1 x1 where e: "filterItem_p0 ab visible lastSeparator x = (v1, ls1, x1)"
      by (cases "filterItem_p0 ab visible lastSeparator x") auto
    from 3(1) h e have a: "ls1 \<le> v1"
      "\<forall>xs ys. seps_rule_p0 (ls1 \<noteq> v1) xs ys
         \<longrightarrow> seps_rule_p0 (lastSeparator \<noteq> visible) (x # xs) (x1 # ys)"
      "list_all2 cat_seps_rule_p0 (subitems x) (subitems x1)"
      by (simp_all del: seps_rule_p0.simps)
    let ?r = "filterLoop_p0 ab v1 ls1 xs"
    from 3(2)[OF e[symmetric] refl] a(1)
    have b: "seps_rule_p0 (ls1 \<noteq> v1) xs (snd ?r)"
      "list_all2 cat_seps_rule_p0 (all_items xs) (all_items (snd ?r))"
      by (simp_all del: seps_rule_p0.simps)
    have c: "seps_rule_p0 (lastSeparator \<noteq> visible) (x # xs) (x1 # snd ?r)"
      using a(2) b(1) by blast
    have d: "list_all2 cat_seps_rule_p0 (all_items (x # xs)) (all_items (x1 # snd ?r))"
      using a(3) b(2) by (simp add: list_all2_appendI)
    show "seps_rule_p0 (lastSeparator \<noteq> visible) (x # xs)
            (snd (filterLoop_p0 ab visible lastSeparator (x # xs)))
          \<and> list_all2 cat_seps_rule_p0 (all_items (x # xs))
              (all_items (snd (filterLoop_p0 ab visible lastSeparator (x # xs))))"
      unfolding loop_p0_cons[OF e] using c d by (simp del: seps_rule_p0.simps all_items.simps)
  qed
next
  case (4 ab visible lastSeparator k t cu co h d dr)
  show ?case
  proof (cases co)
    case None
    note co = None
    show ?thesis
    proof (cases t)
      case (Some ty)
      then show ?thesis
        using co
        by (cases "allowed ab ty")
          (simp_all add: cat_seps_rule_p0_def counted_unit_p0_def counted_leaf_p0_def kinds_p0)
    next
      case None
      note t = None
      show ?thesis
      proof (cases "k = Some ''CATEGORY'' \<and> cu \<noteq> None")
        case True
        then show ?thesis
          using co t
          by (cases "allowed ab (the cu)")
            (auto simp add: cat_seps_rule_p0_def counted_unit_p0_def counted_leaf_p0_def kinds_p0)
      next
        case False
        note dyn = False
        show ?thesis
        proof (cases "k = Some ''SEP''")
          case True
          then show ?thesis
            using co t
            by (cases "lastSeparator = visible")
              (auto simp add: cat_seps_rule_p0_def sep_hidden_def kinds_p0)
        next
          case False
          then show ?thesis
            using co t dyn
            by (auto simp add: cat_seps_rule_p0_def counted_unit_p0_def counted_leaf_p0_def
                kinds_p0)
        qed
      qed
    qed
  next
    case (Some cs)
    obtain n cs1 where e: "filterContents_p0 ab cs = (n, cs1)"
      by (cases "filterContents_p0 ab cs") auto
    from 4(1)[OF Some] e have i: "seps_rule_p0 False cs cs1"
      "list_all2 cat_seps_rule_p0 (all_items cs) (all_items cs1)"
      by simp_all
    have c: "\<And>h'. cat_seps_rule_p0 (Item k t cu co h d dr) (Item k t cu (Some cs1) h' d dr)"
      using i(1) Some by (simp add: cat_seps_rule_p0_def)
    have u: "\<And>h'. counted_unit_p0 (Item k t cu (Some cs1) (Some (JStr h')) d dr)
               = (h' = ''false'')"
      by (simp add: counted_unit_p0_def counted_leaf_p0_def kinds_p0)
    have s: "\<And>h'. \<not> isSeparator_p0 (Item k t cu (Some cs1) h' d dr)"
      by (simp add: kinds_p0)
    show ?thesis
    proof (cases "0 < n")
      case True
      have r: "filterItem_p0 ab visible lastSeparator (Item k t cu co h d dr)
                 = (Suc visible, lastSeparator, Item k t cu (Some cs1) (Some (JStr ''false'')) d dr)"
        using Some e True by (simp del: filterContents_p0.simps)
      show ?thesis
        unfolding r using c i(2) Some s u
        by (auto simp del: filterContents_p0.simps)
    next
      case False
      have r: "filterItem_p0 ab visible lastSeparator (Item k t cu co h d dr)
                 = (visible, lastSeparator, Item k t cu (Some cs1) (Some (JStr ''true'')) d dr)"
        using Some e False by (simp del: filterContents_p0.simps)
      show ?thesis
        unfolding r using c i(2) Some s u
        by (auto simp del: filterContents_p0.simps)
    qed
  qed
qed

lemma seps_rule_p0_leading:
  "seps_rule_p0 False xs (s # rest) \<Longrightarrow> isSeparator_p0 s \<Longrightarrow> sep_hidden s"
  by (cases xs) auto

lemma seps_rule_p0_suffix:
  "seps_rule_p0 seen xs (pre @ zs) \<Longrightarrow> \<exists>seen' xs'. seps_rule_p0 seen' xs' zs"
proof (induction pre arbitrary: seen xs)
  case Nil
  then show ?case by auto
next
  case (Cons p pre)
  then show ?case by (cases xs) (auto split: if_splits)
qed

lemma seps_rule_p0_neighbours:
  assumes "seps_rule_p0 seen xs (pre @ s1 # s2 # post)" "isSeparator_p0 s1" "isSeparator_p0 s2"
  shows "sep_hidden s2"
proof -
  from seps_rule_p0_suffix[OF assms(1)] obtain seen' xs'
    where r: "seps_rule_p0 seen' xs' (s1 # s2 # post)"
    by blast
  then obtain a b rest where "xs' = a # b # rest"
    using assms(2) by (cases xs'; cases "tl xs'") auto
  then show ?thesis using r assms(2,3) by auto
qed

lemma seps_rule_no_redundant:
  "seps_rule_p0 False xs ys \<Longrightarrow> no_redundant_seps_p0 ys"
  unfolding no_redundant_seps_p0_def
  using seps_rule_p0_leading seps_rule_p0_neighbours by blast

lemma list_all2_set2:
  "list_all2 P xs ys \<Longrightarrow> y \<in> set ys \<Longrightarrow> \<exists>x\<in>set xs. P x y"
  by (induction rule: list_all2_induct) auto

lemma nested_no_redundant_p0:
  assumes "list_all2 cat_seps_rule_p0 xs ys" "c \<in> set ys" "contents c = Some ccs"
  shows "no_redundant_seps_p0 ccs"
proof -
  from list_all2_set2[OF assms(1,2)] obtain x where "cat_seps_rule_p0 x c" by blast
  then obtain xc where "seps_rule_p0 False xc ccs"
    using assms(3) by (auto simp: cat_seps_rule_p0_def split: option.splits)
  then show ?thesis by (rule seps_rule_no_redundant)
qed

lemma objects_frame:
  "(\<forall>b\<in>set (objects_st fuel s as). s' b = s b) \<longrightarrow>
     objects_st fuel s' as = objects_st fuel s as \<and> read_st fuel s' as = read_st fuel s as"
  "(\<forall>b\<in>set (objects_item fuel s a). s' b = s b) \<longrightarrow>
     objects_item fuel s' a = objects_item fuel s a \<and> read_item fuel s' a = read_item fuel s a"
proof (induction fuel s as and fuel s a rule: objects_st_objects_item.induct)
  case (1 fuel s)
  then show ?case by simp
next
  case (2 fuel s a as)
  show ?case
  proof
    assume h: "\<forall>b\<in>set (objects_st fuel s (a # as)). s' b = s b"
    then have "\<forall>b\<in>set (objects_item fuel s a). s' b = s b"
      "\<forall>b\<in>set (objects_st fuel s as). s' b = s b"
      by (simp_all del: objects_item.simps)
    with 2 have "objects_item fuel s' a = objects_item fuel s a"
      "read_item fuel s' a = read_item fuel s a"
      "objects_st fuel s' as = objects_st fuel s as"
      "read_st fuel s' as = read_st fuel s as"
      by blast+
    then show "objects_st fuel s' (a # as) = objects_st fuel s (a # as)
          \<and> read_st fuel s' (a # as) = read_st fuel s (a # as)"
      by (simp del: objects_item.simps read_item.simps cong: option.case_cong)
  qed
next
  case (3 fuel s a)
  show ?case
  proof
    assume h: "\<forall>b\<in>set (objects_item fuel s a). s' b = s b"
    then have e: "s' a = s a" by simp
    show "objects_item fuel s' a = objects_item fuel s a
          \<and> read_item fuel s' a = read_item fuel s a"
    proof (cases "ocontents (s a)")
      case None
      then show ?thesis using e by (cases "s a") simp
    next
      case (Some cs)
      show ?thesis
      proof (cases fuel)
        case 0
        then show ?thesis using e Some by (cases "s a") simp
      next
        case (Suc f)
        from h Some Suc have "\<forall>b\<in>set (objects_st f s cs). s' b = s b" by simp
        with 3[OF Some Suc] have "objects_st f s' cs = objects_st f s cs"
          "read_st f s' cs = read_st f s cs" by simp_all
        then show ?thesis using e Some Suc by (cases "s a") simp
      qed
    qed
  qed
qed

lemma filter_st_refines:
  "\<forall>cs. read_st fuel s as = Some cs \<longrightarrow> distinct (objects_st fuel s as) \<longrightarrow>
     (\<exists>s'. filterContents_st fuel ab s as = Some (fst (filterContents_p0 ab cs), s')
        \<and> read_st fuel s' as = Some (snd (filterContents_p0 ab cs))
        \<and> objects_st fuel s' as = objects_st fuel s as
        \<and> (\<forall>b. b \<notin> set (objects_st fuel s as) \<longrightarrow> s' b = s b))"
  "\<forall>cs. read_st fuel s as = Some cs \<longrightarrow> distinct (objects_st fuel s as) \<longrightarrow>
     (\<exists>s'. filterLoop_st fuel ab v ls s as = Some (fst (filterLoop_p0 ab v ls cs), s')
        \<and> read_st fuel s' as = Some (snd (filterLoop_p0 ab v ls cs))
        \<and> objects_st fuel s' as = objects_st fuel s as
        \<and> (\<forall>b. b \<notin> set (objects_st fuel s as) \<longrightarrow> s' b = s b))"
  "\<forall>x. read_item fuel s a = Some x \<longrightarrow> distinct (objects_item fuel s a) \<longrightarrow>
     (\<exists>s'. filterItem_st fuel ab v ls s a
              = Some (fst (filterItem_p0 ab v ls x), fst (snd (filterItem_p0 ab v ls x)), s')
        \<and> read_item fuel s' a = Some (snd (snd (filterItem_p0 ab v ls x)))
        \<and> objects_item fuel s' a = objects_item fuel s a
        \<and> (\<forall>b. b \<notin> set (objects_item fuel s a) \<longrightarrow> s' b = s b))"
proof (induction fuel ab s as and fuel ab v ls s as and fuel ab v ls s a
       rule: filterContents_st_filterLoop_st_filterItem_st.induct)
  case (1 fuel ab s as)
  then show ?case by simp
next
  case (2 fuel ab visible lastSeparator s)
  then show ?case by simp
next
  case (3 fuel ab visible lastSeparator s a as)
  show ?case
  proof (intro allI impI)
    fix cs
    assume rd: "read_st fuel s (a # as) = Some cs"
      and di: "distinct (objects_st fuel s (a # as))"
    from rd obtain x xs where cs: "cs = x # xs"
      and rx: "read_item fuel s a = Some x" and rxs: "read_st fuel s as = Some xs"
      by (auto simp del: read_item.simps split: option.splits)
    from di have d1: "distinct (objects_item fuel s a)"
      and d2: "distinct (objects_st fuel s as)"
      and d3: "set (objects_item fuel s a) \<inter> set (objects_st fuel s as) = {}"
      by (simp_all del: objects_item.simps)
    obtain v1 ls1 x1 where e: "filterItem_p0 ab visible lastSeparator x = (v1, ls1, x1)"
      by (cases "filterItem_p0 ab visible lastSeparator x") auto
    from 3(1) rx d1 e obtain s1
      where f1: "filterItem_st fuel ab visible lastSeparator s a = Some (v1, ls1, s1)"
        and r1: "read_item fuel s1 a = Some x1"
        and o1: "objects_item fuel s1 a = objects_item fuel s a"
        and fr1: "\<forall>b. b \<notin> set (objects_item fuel s a) \<longrightarrow> s1 b = s b"
      by (auto simp del: filterItem_st.simps read_item.simps objects_item.simps
          filterItem_p0.simps)
    have "\<forall>b\<in>set (objects_st fuel s as). s1 b = s b"
      using fr1 d3 by blast
    with objects_frame(1)[of fuel s as s1]
    have o2: "objects_st fuel s1 as = objects_st fuel s as"
      and r2: "read_st fuel s1 as = Some xs"
      using rxs by simp_all
    from 3(2)[OF f1 refl refl] r2 d2 o2 obtain s2
      where f2: "filterLoop_st fuel ab v1 ls1 s1 as = Some (fst (filterLoop_p0 ab v1 ls1 xs), s2)"
        and r3: "read_st fuel s2 as = Some (snd (filterLoop_p0 ab v1 ls1 xs))"
        and o3: "objects_st fuel s2 as = objects_st fuel s1 as"
        and fr2: "\<forall>b. b \<notin> set (objects_st fuel s1 as) \<longrightarrow> s2 b = s1 b"
      by auto
    have "\<forall>b\<in>set (objects_item fuel s1 a). s2 b = s1 b"
      using fr2 d3 unfolding o1 o2 by (auto simp del: objects_item.simps)
    with objects_frame(2)[of fuel s1 a s2]
    have o4: "objects_item fuel s2 a = objects_item fuel s1 a"
      and r4: "read_item fuel s2 a = Some x1"
      using r1 by simp_all
    have g1: "filterLoop_st fuel ab visible lastSeparator s (a # as)
        = Some (fst (filterLoop_p0 ab visible lastSeparator cs), s2)"
      unfolding cs loop_p0_cons[OF e] using f1 f2 by (simp del: filterItem_st.simps)
    have g2: "read_st fuel s2 (a # as) = Some (snd (filterLoop_p0 ab visible lastSeparator cs))"
      unfolding cs loop_p0_cons[OF e] using r3 r4 by (simp del: read_item.simps)
    have g3: "objects_st fuel s2 (a # as) = objects_st fuel s (a # as)"
      using o1 o2 o3 o4 by (simp del: objects_item.simps)
    have g4: "\<forall>b. b \<notin> set (objects_st fuel s (a # as)) \<longrightarrow> s2 b = s b"
      using fr1 fr2 o2 by (simp del: objects_item.simps)
    show "\<exists>s'. filterLoop_st fuel ab visible lastSeparator s (a # as)
              = Some (fst (filterLoop_p0 ab visible lastSeparator cs), s')
        \<and> read_st fuel s' (a # as) = Some (snd (filterLoop_p0 ab visible lastSeparator cs))
        \<and> objects_st fuel s' (a # as) = objects_st fuel s (a # as)
        \<and> (\<forall>b. b \<notin> set (objects_st fuel s (a # as)) \<longrightarrow> s' b = s b)"
      using g1 g2 g3 g4 by blast
  qed
next
  case (4 fuel ab visible lastSeparator s a)
  obtain k t cu co h d dr where sa: "s a = Obj k t cu co h d dr"
    by (cases "s a") auto
  show ?case
  proof (cases co)
    case None
    show ?thesis
    proof (cases t)
      case (Some ty)
      then show ?thesis
        using sa None by (cases "allowed ab ty") auto
    next
      case tn: None
      show ?thesis
      proof (cases "k = Some ''CATEGORY'' \<and> cu \<noteq> None")
        case True
        then show ?thesis
          using sa None tn by (cases "allowed ab (the cu)") auto
      next
        case dyn: False
        show ?thesis
        proof (cases "k = Some ''SEP''")
          case True
          then show ?thesis
            using sa None tn by (cases "lastSeparator = visible") auto
        next
          case False
          then show ?thesis
            using sa None tn dyn by auto
        qed
      qed
    qed
  next
    case (Some cs0)
    show ?thesis
    proof (intro allI impI)
      fix x
      assume rd: "read_item fuel s a = Some x"
        and di: "distinct (objects_item fuel s a)"
      from rd sa Some obtain f where fu: "fuel = Suc f"
        by (cases fuel) auto
      from rd sa Some fu obtain xs where rxs: "read_st f s cs0 = Some xs"
        and x: "x = Item k t cu (Some xs) h d dr"
        by (auto split: option.splits)
      from di sa Some fu have na: "a \<notin> set (objects_st f s cs0)"
        and d0: "distinct (objects_st f s cs0)"
        by simp_all
      let ?n = "fst (filterContents_p0 ab xs)"
      let ?cs1 = "snd (filterContents_p0 ab xs)"
      from 4[OF sa Some fu] rxs d0 obtain s1
        where f1: "filterContents_st f ab s cs0 = Some (?n, s1)"
          and r1: "read_st f s1 cs0 = Some ?cs1"
          and o1: "objects_st f s1 cs0 = objects_st f s cs0"
          and fr1: "\<forall>b. b \<notin> set (objects_st f s cs0) \<longrightarrow> s1 b = s b"
        by (auto simp del: filterContents_st.simps filterContents_p0.simps)
      have s1a: "s1 a = Obj k t cu (Some cs0) h d dr"
        using fr1 na sa Some by simp
      let ?hv = "if ?n > 0 then ''false'' else ''true''"
      let ?s2 = "s1(a := Obj k t cu (Some cs0) (Some (JStr ?hv)) d dr)"
      have "\<forall>b\<in>set (objects_st f s1 cs0). ?s2 b = s1 b"
        using na o1 by auto
      with objects_frame(1)[of f s1 cs0 ?s2]
      have o2: "objects_st f ?s2 cs0 = objects_st f s1 cs0"
        and r2: "read_st f ?s2 cs0 = Some ?cs1"
        using r1 by simp_all
      have p: "filterItem_p0 ab visible lastSeparator x
          = (if ?n > 0 then visible + 1 else visible, lastSeparator,
             Item k t cu (Some ?cs1) (Some (JStr ?hv)) d dr)"
        unfolding x by (simp del: filterContents_p0.simps split: prod.splits)
      have g1: "filterItem_st fuel ab visible lastSeparator s a
          = Some (if ?n > 0 then visible + 1 else visible, lastSeparator, ?s2)"
        using sa Some fu f1 s1a by (simp del: filterContents_st.simps)
      have g2: "read_item fuel ?s2 a = Some (Item k t cu (Some ?cs1) (Some (JStr ?hv)) d dr)"
        using fu r2 by simp
      have g3: "objects_item fuel ?s2 a = objects_item fuel s a"
        using fu sa Some o1 o2 by simp
      have g4: "\<forall>b. b \<notin> set (objects_item fuel s a) \<longrightarrow> ?s2 b = s b"
        using fu sa Some fr1 by simp
      show "\<exists>s'. filterItem_st fuel ab visible lastSeparator s a
              = Some (fst (filterItem_p0 ab visible lastSeparator x),
                      fst (snd (filterItem_p0 ab visible lastSeparator x)), s')
        \<and> read_item fuel s' a = Some (snd (snd (filterItem_p0 ab visible lastSeparator x)))
        \<and> objects_item fuel s' a = objects_item fuel s a
        \<and> (\<forall>b. b \<notin> set (objects_item fuel s a) \<longrightarrow> s' b = s b)"
        unfolding p using g1 g2 g3 g4
        by (intro exI[of _ ?s2]) (simp del: filterItem_st.simps read_item.simps
            objects_item.simps)
    qed
  qed
qed

lemma untyped_block_throws:
  "isBlock x \<Longrightarrow> btype x = None \<Longrightarrow> filterItem (Some l) v x = (Inl TypeError, x)"
  by (cases x) (auto simp: kinds split: option.splits)

lemma case_eval:
  "toUpperCase ''CATEGORY'' = ''CATEGORY''" "toUpperCase ''BLOCK'' = ''BLOCK''"
  "toUpperCase ''SEP'' = ''SEP''"
  "toLowerCase ''Text'' = ''text''" "toLowerCase ''logic_compare'' = ''logic_compare''"
  "toLowerCase ''math_number'' = ''math_number''" "toLowerCase ''VARIABLE'' = ''variable''"
  "toLowerCase ''text'' = ''text''"
  by (simp_all add: toUpperCase_def upper_char_def  toLowerCase_def lower_char_def is_ascii_def)

lemmas filter_eval =
  mkBlock_def mkSep_def mkCategory_def mkDynamic_def case_eval allowed_def

lemma filter_toolbox0_mgr: "filterContents allow0 toolbox0 = (Inr 2, toolbox0_mgr)"
  by (simp add: allow0_def toolbox0_def toolbox0_mgr_def filter_eval)

lemma filter_toolbox0_p0: "filterContents_p0 allow0 toolbox0 = (1, toolbox0_p0)"
  by (simp add: allow0_def toolbox0_def toolbox0_p0_def filter_eval)

lemma Ball_nth: "\<forall>x\<in>set xs. P x \<Longrightarrow> i < length xs \<Longrightarrow> P (xs ! i)"
  by simp

lemma filter_toolbox0_none_p0:
  "filterContents_p0 (Some []) toolbox0 = (0, toolbox0_none_p0)"
  by (simp add: toolbox0_def toolbox0_none_p0_def filter_eval)

lemma filter_toolbox0_none_mgr:
  "filterContents (Some []) toolbox0 = (Inr 0, toolbox0_none_mgr)"
  by (simp add: toolbox0_def toolbox0_none_mgr_def filter_eval)

subsection \<open>Blocks\<close>

text \<open>
  The claim C1 says that a block is visible iff the allow-list is undefined or the block's
  type is a member of it under case-insensitive comparison. \<open>unnamed/part_000\<close> looks the
  type up as it is written: under the allow-list \<open>[text]\<close>, whose only entry is in lower case,
  the block of type \<open>Text\<close> is disabled.
\<close>

theorem filter_case_counterexample:
  "lower_case_list (Some [''text''])
   \<and> ci_member ''Text'' [''text'']
   \<and> ci_allowed (Some [''text'']) (mkBlock ''Text'')
   \<and> filterContents_p0 (Some [''text'']) [mkBlock ''Text'']
       = (0, [Item (Some ''BLOCK'') (Some ''Text'') None None None (Some (JBool True))
                (Some [''This block is not allowed''])])"
  by (simp add: lower_case_list_def ci_allowed_def ci_member_def mkBlock_def toLowerCase_def
      lower_char_def is_ascii_def allowed_def)

text \<open>
  C1 (amended). \<open>manager.ts\<close>: a run returns when the allow-list is undefined or every item of
  kind \<open>block\<close> has a \<open>type\<close>; under a defined allow-list a block without a \<open>type\<close> makes it
  throw. In the tree left by a run that returns, every item whose kind is \<open>block\<close> in any
  letter case is disabled iff it is not let through (\<open>block_allowed\<close>: the allow-list is
  undefined, or the lower-cased type is an entry of the list as the list is written),
  \<open>disabledReasons\<close> is \<open>[This block is not allowed]\<close> when it is disabled and empty otherwise, and
  the callback counts the block iff it is let through. When every entry of the allow-list
  is in lower case, being let through is membership under case-insensitive comparison
  (\<open>ci_allowed\<close>), so the marks are those of the claim (\<open>block_marked_ci\<close>).
  \<open>unnamed/part_000\<close>: every item without \<open>contents\<close> that has a \<open>type\<close> gets the same marks
  and count with the test \<open>allowed\<close>, the type being compared as it is written.
\<close>

theorem filter_marks_blocks:
  "(\<forall>n cs'. filterContents ab cs = (Inr n, cs') \<longrightarrow>
       (\<forall>b\<in>set (toolbox_items cs'). block_marked ab b))
   \<and> (lower_case_list ab \<longrightarrow>
        (\<forall>n cs'. filterContents ab cs = (Inr n, cs') \<longrightarrow>
           (\<forall>b\<in>set (toolbox_items cs'). block_marked_ci ab b)))
   \<and> (typed_blocks cs \<or> ab = None \<longrightarrow> (\<exists>n cs'. filterContents ab cs = (Inr n, cs')))
   \<and> (toUpperCase kd = ''BLOCK'' \<longrightarrow>
        filterItem ab v (Item (Some kd) (Some ty) cu co h d dr)
          = (Inr (if allowed ab (toLowerCase ty) then v + 1 else v),
                 Item (Some kd) (Some ty) cu co h
                   (Some (JBool (\<not> allowed ab (toLowerCase ty))))
                   (Some (if allowed ab (toLowerCase ty) then []
                          else [''This block is not allowed'']))))
   \<and> (lower_case_list ab \<longrightarrow> block_allowed ab b = ci_allowed ab b)
   \<and> (\<forall>b\<in>set (all_items (snd (filterContents_p0 ab cs))). block_marked_p0 ab b)
   \<and> filterItem_p0 ab v ls (Item k (Some ty) cu None h d dr)
        = (if allowed ab ty then v + 1 else v, ls,
           Item k (Some ty) cu None h (Some (JBool (\<not> allowed ab ty)))
             (Some (if allowed ab ty then [] else [''This block is not allowed''])))"
proof (intro conjI)
  show "\<forall>n cs'. filterContents ab cs = (Inr n, cs') \<longrightarrow>
       (\<forall>b\<in>set (toolbox_items cs'). block_marked ab b)"
    using blocks_mgr(1) by blast
  show "lower_case_list ab \<longrightarrow>
        (\<forall>n cs'. filterContents ab cs = (Inr n, cs') \<longrightarrow>
           (\<forall>b\<in>set (toolbox_items cs'). block_marked_ci ab b))"
    using blocks_mgr_ci by blast
  show "typed_blocks cs \<or> ab = None \<longrightarrow> (\<exists>n cs'. filterContents ab cs = (Inr n, cs'))"
    using total_mgr(1) filter_None_total(1) by blast
  show "toUpperCase kd = ''BLOCK'' \<longrightarrow>
        filterItem ab v (Item (Some kd) (Some ty) cu co h d dr)
          = (Inr (if allowed ab (toLowerCase ty) then v + 1 else v),
                 Item (Some kd) (Some ty) cu co h
                   (Some (JBool (\<not> allowed ab (toLowerCase ty))))
                   (Some (if allowed ab (toLowerCase ty) then []
                          else [''This block is not allowed''])))"
    by (auto simp: allowed_def)
  show "lower_case_list ab \<longrightarrow> block_allowed ab b = ci_allowed ab b"
    using block_allowed_ci by blast
  show "\<forall>b\<in>set (all_items (snd (filterContents_p0 ab cs))). block_marked_p0 ab b"
    by (rule blocks_p0(1))
  show "filterItem_p0 ab v ls (Item k (Some ty) cu None h d dr)
        = (if allowed ab ty then v + 1 else v, ls,
           Item k (Some ty) cu None h (Some (JBool (\<not> allowed ab ty)))
             (Some (if allowed ab ty then [] else [''This block is not allowed''])))"
    by simp
qed

theorem filter_marks_blocks_witness:
  "lower_case_list allow0
   \<and> typed_blocks toolbox0
   \<and> filterContents allow0 toolbox0 = (Inr 2, toolbox0_mgr)
   \<and> isBlock (toolbox_items toolbox0_mgr ! 1)
   \<and> btype (toolbox_items toolbox0_mgr ! 1) = Some ''Text''
   \<and> ci_allowed allow0 (toolbox_items toolbox0_mgr ! 1)
   \<and> disabled (toolbox_items toolbox0_mgr ! 1) = Some (JBool False)
   \<and> disabledReasons (toolbox_items toolbox0_mgr ! 1) = Some []
   \<and> isBlock (toolbox_items toolbox0_mgr ! 2)
   \<and> btype (toolbox_items toolbox0_mgr ! 2) = Some ''logic_compare''
   \<and> \<not> ci_allowed allow0 (toolbox_items toolbox0_mgr ! 2)
   \<and> disabled (toolbox_items toolbox0_mgr ! 2) = Some (JBool True)
   \<and> disabledReasons (toolbox_items toolbox0_mgr ! 2) = Some [''This block is not allowed'']
   \<and> toUpperCase ''block'' = ''BLOCK''
   \<and> filterItem allow0 0 (Item (Some ''block'') (Some ''Math_Number'') None None None None None)
       = (Inr 1, Item (Some ''block'') (Some ''Math_Number'') None None None
                   (Some (JBool False)) (Some []))
   \<and> filterContents_p0 allow0 toolbox0 = (1, toolbox0_p0)
   \<and> isBlock_p0 (all_items toolbox0_p0 ! 1)
   \<and> btype (all_items toolbox0_p0 ! 1) = Some ''Text''
   \<and> disabled (all_items toolbox0_p0 ! 1) = Some (JBool True)
   \<and> isBlock_p0 (all_items toolbox0_p0 ! 6)
   \<and> btype (all_items toolbox0_p0 ! 6) = Some ''math_number''
   \<and> disabled (all_items toolbox0_p0 ! 6) = Some (JBool False)
   \<and> disabledReasons (all_items toolbox0_p0 ! 6) = Some []"
proof -
  note T = filter_marks_blocks[of allow0 toolbox0 "''block''" 0 "''Math_Number''"
      None None None None None]
  have lc: "lower_case_list allow0"
    by (simp add: lower_case_list_def allow0_def case_eval)
  have tb: "typed_blocks toolbox0"
    by (simp add: typed_blocks_def toolbox0_def kinds filter_eval)
  have up: "toUpperCase ''block'' = ''BLOCK''"
    by (simp add: toUpperCase_def upper_char_def is_ascii_def)
  have lo: "toLowerCase ''Math_Number'' = ''math_number''"
    by (simp add: toLowerCase_def lower_char_def is_ascii_def)
  from T lc filter_toolbox0_mgr
  have A: "\<forall>b\<in>set (toolbox_items toolbox0_mgr). block_marked_ci allow0 b"
    by blast
  from T filter_toolbox0_p0
  have B: "\<forall>b\<in>set (all_items toolbox0_p0). block_marked_p0 allow0 b"
    by simp
  from T up lo
  have I: "filterItem allow0 0 (Item (Some ''block'') (Some ''Math_Number'') None None None None None)
       = (Inr 1, Item (Some ''block'') (Some ''Math_Number'') None None None
                   (Some (JBool False)) (Some []))"
    by (simp add: allow0_def allowed_def)
  have a1: "block_marked_ci allow0 (toolbox_items toolbox0_mgr ! 1)"
    and a2: "block_marked_ci allow0 (toolbox_items toolbox0_mgr ! 2)"
    by (rule Ball_nth[OF A], simp add: toolbox0_mgr_def isCategoryKind_def filter_eval)+
  have b1: "block_marked_p0 allow0 (all_items toolbox0_p0 ! 1)"
    and b6: "block_marked_p0 allow0 (all_items toolbox0_p0 ! 6)"
    by (rule Ball_nth[OF B], simp add: toolbox0_p0_def)+
  have c: "ci_allowed allow0 (toolbox_items toolbox0_mgr ! 1)"
    "\<not> ci_allowed allow0 (toolbox_items toolbox0_mgr ! 2)"
    "isBlock (toolbox_items toolbox0_mgr ! 1)" "isBlock (toolbox_items toolbox0_mgr ! 2)"
    "isBlock_p0 (all_items toolbox0_p0 ! 1)" "isBlock_p0 (all_items toolbox0_p0 ! 6)"
    by (simp_all add: ci_allowed_def ci_member_def allow0_def toolbox0_mgr_def toolbox0_p0_def
        isBlock_def isBlock_p0_def isCategoryKind_def filter_eval)
  show ?thesis
    using a1 a2 b1 b6 c lc tb up I filter_toolbox0_mgr filter_toolbox0_p0
    by (simp add: block_marked_ci_def block_marked_p0_def
        toolbox0_mgr_def toolbox0_p0_def allow0_def filter_eval isCategoryKind_def)
qed

subsection \<open>Categories and separators\<close>

text \<open>
  The claim C2 says that after a run a category is hidden iff it has no visible descendant
  leaf, and a separator is hidden iff no visible content has appeared since the previous
  visible separator. Five runs where this fails: the filter of \<open>manager.ts\<close> has no case
  for separators and leaves two separators in a row as they are; a category that holds
  only a label, a leaf that nothing hides, is hidden by both filters, and so is by
  \<open>unnamed/part_000\<close> a category that holds only a block without a \<open>type\<close>; \<open>unnamed/part_000\<close>
  passes over a separator whose kind is written \<open>sep\<close> in lower case; a separator that was
  hidden before the run stays hidden between two enabled blocks; and when one separator
  object stands before and after an enabled block, the mark it gets at the head of the
  list hides it after the block as well.
\<close>

theorem filter_separators_counterexample:
  "isSeparator mkSep \<and> hidden mkSep = None
   \<and> filterContents None [mkSep, mkSep] = (Inr 0, [mkSep, mkSep])
   \<and> displayed_leaf mkLabel
   \<and> filterContents None [mkCategory [mkLabel]]
       = (Inr 0, [Item (Some ''CATEGORY'') None None (Some [mkLabel]) (Some (JStr ''true''))
                    None None])
   \<and> filterContents_p0 None [mkCategory [mkLabel]]
       = (0, [Item (Some ''CATEGORY'') None None (Some [mkLabel]) (Some (JStr ''true''))
                None None])
   \<and> isBlock xmlBlock \<and> displayed_leaf xmlBlock
   \<and> filterContents_p0 None [mkCategory [xmlBlock]]
       = (0, [Item (Some ''CATEGORY'') None None (Some [xmlBlock]) (Some (JStr ''true''))
                None None])
   \<and> isSeparator lowerSep \<and> hidden lowerSep = None
   \<and> filterContents_p0 None [lowerSep, lowerSep] = (0, [lowerSep, lowerSep])
   \<and> isSeparator_p0 hiddenSep \<and> sep_hidden hiddenSep
   \<and> filterContents_p0 None [mkBlock ''a'', hiddenSep, mkBlock ''b'']
       = (2, [Item (Some ''BLOCK'') (Some ''a'') None None None (Some (JBool False)) (Some []),
              hiddenSep,
              Item (Some ''BLOCK'') (Some ''b'') None None None (Some (JBool False)) (Some [])])
   \<and> read_st 0 shared_store shared_roots
       = Some [mkSep, mkBlock ''a'', mkSep, mkBlock ''b'']
   \<and> run_st 0 None shared_store shared_roots
       = Some (2, [hiddenSep,
                   Item (Some ''BLOCK'') (Some ''a'') None None None (Some (JBool False))
                     (Some []),
                   hiddenSep,
                   Item (Some ''BLOCK'') (Some ''b'') None None None (Some (JBool False))
                     (Some [])])"
  by (simp add: mkSep_def mkLabel_def mkCategory_def xmlBlock_def lowerSep_def hiddenSep_def
      mkBlock_def isSeparator_def isSeparator_p0_def isBlock_def displayed_leaf_def
      sep_hidden_def toUpperCase_def upper_char_def is_ascii_def allowed_def
      run_st_def shared_store_def shared_roots_def sepObj_def blockObj_def no_obj_def)

text \<open>
  C2 (amended). Categories: after a run of either filter every static category is hidden
  iff none of its descendants is a counted leaf, that is, a block or a dynamic category
  that the filter has enabled; an item of any other shape (a label, a separator, for
  \<open>unnamed/part_000\<close> a block without a \<open>type\<close>) is passed over unchanged and counts for
  nothing.
  For \<open>manager.ts\<close> this is about the runs that return, which they do when the allow-list is
  undefined or every block has a \<open>type\<close>; that filter passes over every separator.

  Separators, for \<open>unnamed/part_000\<close> and the items whose kind is the string \<open>SEP\<close> in
  capitals: in the top-level list and in the contents of every category, a separator is
  hidden after the run iff it was hidden before the run or no unit has been counted since
  the previous separator of the list (\<open>seps_rule_p0\<close>); so no list has a visible separator at
  its head or right after another separator (\<open>no_redundant_seps_p0\<close>). When no separator of
  the tree was hidden before the run, a separator is hidden iff no unit has been counted
  since the previous visible separator (\<open>seps_ok_p0\<close>). A unit is a block or a dynamic
  category that the run has enabled, or a static category that it has left not hidden.

  All this is about the tree \<open>snd (filterContents_p0 ab cs)\<close> that the run leaves when it
  starts from the tree \<open>cs\<close>; the last conjunct says that this is the tree that the filter
  leaves in a store that holds \<open>cs\<close> with no object at two positions.
\<close>

theorem filter_invariant:
  "(\<forall>n cs'. filterContents ab cs = (Inr n, cs') \<longrightarrow>
       (\<forall>c\<in>set (toolbox_items cs'). category_marked c))
   \<and> (typed_blocks cs \<or> ab = None \<longrightarrow> (\<exists>n cs'. filterContents ab cs = (Inr n, cs')))
   \<and> (passed_over x \<longrightarrow> filterItem ab v x = (Inr v, x))
   \<and> (isSeparator x \<longrightarrow> passed_over x)
   \<and> (\<forall>c\<in>set (all_items (snd (filterContents_p0 ab cs))). category_marked_p0 c)
   \<and> (passed_over_p0 x \<longrightarrow> filterItem_p0 ab v ls x = (v, ls, x))
   \<and> seps_rule_p0 False cs (snd (filterContents_p0 ab cs))
   \<and> list_all2 cat_seps_rule_p0 (all_items cs) (all_items (snd (filterContents_p0 ab cs)))
   \<and> no_redundant_seps_p0 (snd (filterContents_p0 ab cs))
   \<and> (\<forall>c\<in>set (all_items (snd (filterContents_p0 ab cs))).
         \<forall>ccs. contents c = Some ccs \<longrightarrow> no_redundant_seps_p0 ccs)
   \<and> (fresh_seps_p0 cs \<longrightarrow>
        seps_ok_p0 False (snd (filterContents_p0 ab cs))
        \<and> (\<forall>c\<in>set (all_items (snd (filterContents_p0 ab cs))).
             \<forall>ccs. contents c = Some ccs \<longrightarrow> seps_ok_p0 False ccs))
   \<and> (read_st fuel s as = Some cs \<and> distinct (objects_st fuel s as) \<longrightarrow>
        run_st fuel ab s as = Some (filterContents_p0 ab cs))"
proof (intro conjI)
  show "read_st fuel s as = Some cs \<and> distinct (objects_st fuel s as) \<longrightarrow>
        run_st fuel ab s as = Some (filterContents_p0 ab cs)"
  proof
    assume h: "read_st fuel s as = Some cs \<and> distinct (objects_st fuel s as)"
    with filter_st_refines(1)[of fuel s as ab] obtain s'
      where "filterContents_st fuel ab s as = Some (fst (filterContents_p0 ab cs), s')"
        and "read_st fuel s' as = Some (snd (filterContents_p0 ab cs))"
      by blast
    then show "run_st fuel ab s as = Some (filterContents_p0 ab cs)"
      by (simp add: run_st_def del: filterContents_st.simps filterContents_p0.simps)
  qed
  let ?r = "snd (filterContents_p0 ab cs)"
  show "\<forall>n cs'. filterContents ab cs = (Inr n, cs') \<longrightarrow>
       (\<forall>c\<in>set (toolbox_items cs'). category_marked c)"
    using count_mgr(1) by blast
  show "typed_blocks cs \<or> ab = None \<longrightarrow> (\<exists>n cs'. filterContents ab cs = (Inr n, cs'))"
    using total_mgr(1) filter_None_total(1) by blast
  show "passed_over x \<longrightarrow> filterItem ab v x = (Inr v, x)"
    using passed_over_mgr by blast
  show "isSeparator x \<longrightarrow> passed_over x"
    using separator_passed_over by blast
  show "\<forall>c\<in>set (all_items ?r). category_marked_p0 c"
    using count_p0(1) by blast
  show "passed_over_p0 x \<longrightarrow> filterItem_p0 ab v ls x = (v, ls, x)"
    using passed_over_filter_p0 by blast
  have a: "seps_rule_p0 False cs ?r"
    and b: "list_all2 cat_seps_rule_p0 (all_items cs) (all_items ?r)"
    using seps_rule_run_p0(1)[of cs ab] by simp_all
  show "seps_rule_p0 False cs ?r" by (rule a)
  show "list_all2 cat_seps_rule_p0 (all_items cs) (all_items ?r)" by (rule b)
  show "no_redundant_seps_p0 ?r"
    using a by (rule seps_rule_no_redundant)
  show "\<forall>c\<in>set (all_items ?r). \<forall>ccs. contents c = Some ccs \<longrightarrow> no_redundant_seps_p0 ccs"
    using nested_no_redundant_p0[OF b] by blast
  show "fresh_seps_p0 cs \<longrightarrow>
        seps_ok_p0 False ?r
        \<and> (\<forall>c\<in>set (all_items ?r). \<forall>ccs. contents c = Some ccs \<longrightarrow> seps_ok_p0 False ccs)"
  proof
    assume f: "fresh_seps_p0 cs"
    from seps_p0(1)[of cs ab] f have c: "seps_ok_p0 False ?r" and d: "nested_seps_ok_p0 ?r"
      by blast+
    show "seps_ok_p0 False ?r
        \<and> (\<forall>c\<in>set (all_items ?r). \<forall>ccs. contents c = Some ccs \<longrightarrow> seps_ok_p0 False ccs)"
      using c d unfolding nested_seps_ok_p0_def by blast
  qed
qed

theorem filter_invariant_witness:
  "typed_blocks toolbox0
   \<and> filterContents allow0 toolbox0 = (Inr 2, toolbox0_mgr)
   \<and> isStaticCategory (toolbox_items toolbox0_mgr ! 0)
   \<and> counted_leaf (toolbox_items toolbox0_mgr ! 1)
   \<and> hidden (toolbox_items toolbox0_mgr ! 0) = Some (JStr ''false'')
   \<and> isSeparator mkSep \<and> passed_over mkSep
   \<and> filterItem allow0 0 mkSep = (Inr 0, mkSep)
   \<and> filterContents_p0 allow0 toolbox0 = (1, toolbox0_p0)
   \<and> isStaticCategory_p0 (all_items toolbox0_p0 ! 0)
   \<and> hidden (all_items toolbox0_p0 ! 0) = Some (JStr ''true'')
   \<and> fresh_seps_p0 toolbox0
   \<and> seps_ok_p0 False toolbox0_p0
   \<and> no_redundant_seps_p0 toolbox0_p0
   \<and> fresh_seps_p0 toolbox5
   \<and> seps_ok_p0 False (snd (filterContents_p0 (Some [''c'']) toolbox5))
   \<and> sep_hidden (snd (filterContents_p0 (Some [''c'']) toolbox5) ! 1)
   \<and> sep_hidden (snd (filterContents_p0 (Some [''c'']) toolbox5) ! 3)
   \<and> disabled (snd (filterContents_p0 (Some [''c'']) toolbox5) ! 4) = Some (JBool False)
   \<and> fresh_seps_p0 toolbox6
   \<and> contents (all_items (snd (filterContents_p0 (Some [''c'']) toolbox6)) ! 0)
       = Some [hiddenSep,
               Item (Some ''BLOCK'') (Some ''c'') None None None (Some (JBool False)) (Some []),
               mkSep, hiddenSep, mkLabel]
   \<and> seps_ok_p0 False
        [hiddenSep,
         Item (Some ''BLOCK'') (Some ''c'') None None None (Some (JBool False)) (Some []),
         mkSep, hiddenSep, mkLabel]
   \<and> no_redundant_seps_p0
        [hiddenSep,
         Item (Some ''BLOCK'') (Some ''c'') None None None (Some (JBool False)) (Some []),
         mkSep, hiddenSep, mkLabel]
   \<and> passed_over_p0 lowerSep
   \<and> filterItem_p0 allow0 0 0 lowerSep = (0, 0, lowerSep)
   \<and> read_st 1 tree_store tree_roots
       = Some [mkCategory [mkSep, mkBlock ''c'', mkSep], mkSep, mkBlock ''a'']
   \<and> distinct (objects_st 1 tree_store tree_roots)
   \<and> run_st 1 (Some [''c'']) tree_store tree_roots
       = Some (1, [Item (Some ''CATEGORY'') None None
                     (Some [hiddenSep,
                            Item (Some ''BLOCK'') (Some ''c'') None None None
                              (Some (JBool False)) (Some []),
                            mkSep])
                     (Some (JStr ''false'')) None None,
                   mkSep,
                   Item (Some ''BLOCK'') (Some ''a'') None None None (Some (JBool True))
                     (Some [''This block is not allowed''])])"
proof -
  note TS = filter_invariant[of "Some [''c'']"
      "[mkCategory [mkSep, mkBlock ''c'', mkSep], mkSep, mkBlock ''a'']" mkSep 0 0
      1 tree_store tree_roots]
  have rs: "read_st 1 tree_store tree_roots
       = Some [mkCategory [mkSep, mkBlock ''c'', mkSep], mkSep, mkBlock ''a'']"
    by (simp add: tree_store_def tree_roots_def sepObj_def blockObj_def categoryObj_def
        no_obj_def mkSep_def mkBlock_def mkCategory_def)
  have ds: "distinct (objects_st 1 tree_store tree_roots)"
    by (simp add: tree_store_def tree_roots_def sepObj_def blockObj_def categoryObj_def
        no_obj_def)
  from TS rs ds
  have "run_st 1 (Some [''c'']) tree_store tree_roots
      = Some (filterContents_p0 (Some [''c''])
                [mkCategory [mkSep, mkBlock ''c'', mkSep], mkSep, mkBlock ''a''])"
    by blast
  then have us: "run_st 1 (Some [''c'']) tree_store tree_roots
       = Some (1, [Item (Some ''CATEGORY'') None None
                     (Some [hiddenSep,
                            Item (Some ''BLOCK'') (Some ''c'') None None None
                              (Some (JBool False)) (Some []),
                            mkSep])
                     (Some (JStr ''false'')) None None,
                   mkSep,
                   Item (Some ''BLOCK'') (Some ''a'') None None None (Some (JBool True))
                     (Some [''This block is not allowed''])])"
    by (simp add: hiddenSep_def filter_eval)
  note T = filter_invariant[of allow0 toolbox0 mkSep 0 0]
  note T5 = filter_invariant[of "Some [''c'']" toolbox5 mkSep 0 0]
  note T6 = filter_invariant[of "Some [''c'']" toolbox6 lowerSep 0 0]
  let ?inner = "[hiddenSep,
         Item (Some ''BLOCK'') (Some ''c'') None None None (Some (JBool False)) (Some []),
         mkSep, hiddenSep, mkLabel]"
  from T filter_toolbox0_mgr
  have A: "\<forall>c\<in>set (toolbox_items toolbox0_mgr). category_marked c"
    by blast
  from T filter_toolbox0_p0
  have B: "\<forall>c\<in>set (all_items toolbox0_p0). category_marked_p0 c"
    by simp
  have tb: "typed_blocks toolbox0"
    by (simp add: typed_blocks_def toolbox0_def kinds filter_eval)
  have f: "fresh_seps_p0 toolbox0" and f5: "fresh_seps_p0 toolbox5"
    and f6: "fresh_seps_p0 toolbox6"
    by (simp_all add: fresh_seps_p0_def toolbox0_def toolbox5_def toolbox6_def sep_hidden_def
        mkLabel_def lowerSep_def filter_eval)
  have sp: "isSeparator mkSep" "passed_over_p0 lowerSep"
    by (simp_all add: isSeparator_def passed_over_p0_def kinds_p0 mkSep_def lowerSep_def
        case_eval)
  from T sp(1) have po: "passed_over mkSep"
    by blast
  from T po have pm: "filterItem allow0 0 mkSep = (Inr 0, mkSep)"
    by blast
  from T6 sp(2) have pl: "filterItem_p0 (Some [''c'']) 0 0 lowerSep = (0, 0, lowerSep)"
    by blast
  have pl0: "filterItem_p0 allow0 0 0 lowerSep = (0, 0, lowerSep)"
    using pl by (simp add: lowerSep_def)
  from T f filter_toolbox0_p0
  have S: "seps_ok_p0 False toolbox0_p0" "no_redundant_seps_p0 toolbox0_p0"
    by simp_all
  from T5 f5
  have S5: "seps_ok_p0 False (snd (filterContents_p0 (Some [''c'']) toolbox5))"
    by blast
  have e6: "filterContents_p0 (Some [''c'']) toolbox6
      = (1, [Item (Some ''CATEGORY'') None None (Some ?inner) (Some (JStr ''false'')) None None,
             lowerSep])"
    by (simp add: toolbox6_def hiddenSep_def mkLabel_def lowerSep_def filter_eval)
  have c6: "contents (all_items (snd (filterContents_p0 (Some [''c'']) toolbox6)) ! 0)
       = Some ?inner"
    unfolding e6 by simp
  have m6: "all_items (snd (filterContents_p0 (Some [''c'']) toolbox6)) ! 0
       \<in> set (all_items (snd (filterContents_p0 (Some [''c'']) toolbox6)))"
    unfolding e6 by simp
  from T6 f6 m6 c6 have S6: "seps_ok_p0 False ?inner" "no_redundant_seps_p0 ?inner"
    by blast+
  have a0: "category_marked (toolbox_items toolbox0_mgr ! 0)"
    by (rule Ball_nth[OF A], simp add: toolbox0_mgr_def isCategoryKind_def filter_eval)
  have b0: "category_marked_p0 (all_items toolbox0_p0 ! 0)"
    by (rule Ball_nth[OF B], simp add: toolbox0_p0_def)
  have e5: "filterContents_p0 (Some [''c'']) toolbox5
      = (1, [Item (Some ''BLOCK'') (Some ''a'') None None None (Some (JBool True))
               (Some [''This block is not allowed'']),
             Item (Some ''SEP'') None None None (Some (JBool True)) None None,
             Item (Some ''BLOCK'') (Some ''b'') None None None (Some (JBool True))
               (Some [''This block is not allowed'']),
             Item (Some ''SEP'') None None None (Some (JBool True)) None None,
             Item (Some ''BLOCK'') (Some ''c'') None None None (Some (JBool False)) (Some [])])"
    by (simp add: toolbox5_def filter_eval)
  have h5: "sep_hidden (snd (filterContents_p0 (Some [''c'']) toolbox5) ! 1)
      \<and> sep_hidden (snd (filterContents_p0 (Some [''c'']) toolbox5) ! 3)
      \<and> disabled (snd (filterContents_p0 (Some [''c'']) toolbox5) ! 4) = Some (JBool False)"
    using S5 unfolding e5
    by (simp add: isSeparator_p0_def counted_unit_p0_def counted_leaf_p0_def isBlock_p0_def
        isDynamicCategory_p0_def isStaticCategory_p0_def)
  have v: "isStaticCategory (toolbox_items toolbox0_mgr ! 0)"
    "counted_leaf (toolbox_items toolbox0_mgr ! 1)"
    "isStaticCategory_p0 (all_items toolbox0_p0 ! 0)"
    by (simp_all add: toolbox0_mgr_def toolbox0_p0_def isStaticCategory_def isCategoryKind_def
        counted_leaf_def isBlock_def isStaticCategory_p0_def filter_eval)
  have ha: "hidden (toolbox_items toolbox0_mgr ! 0) = Some (JStr ''false'')"
    using a0 v
    by (simp add: category_marked_def toolbox0_mgr_def isCategoryKind_def counted_leaf_def
        isBlock_def isDynamicCategory_def filter_eval)
  have hb: "hidden (all_items toolbox0_p0 ! 0) = Some (JStr ''true'')"
    using b0 v
    by (simp add: category_marked_p0_def toolbox0_p0_def counted_leaf_p0_def isBlock_p0_def
        isDynamicCategory_p0_def)
  show ?thesis
    using filter_toolbox0_mgr filter_toolbox0_p0 v ha hb f f5 f6 S S5 h5 tb sp po pm pl0 c6 S6
      rs ds us
    by simp
qed

subsection \<open>The empty allow-list\<close>

text \<open>
  The claim C4 says that under an empty allow-list every block and every dynamic category
  is hidden or disabled and every separator is hidden. The filter of \<open>manager.ts\<close> leaves a
  separator as it is; \<open>unnamed/part_000\<close> leaves as they are a dynamic category whose
  kind is written \<open>category\<close> and a separator whose kind is written \<open>sep\<close>.
\<close>

theorem filter_empty_counterexample:
  "isSeparator mkSep \<and> hidden mkSep = None
   \<and> filterContents (Some []) [mkBlock ''text'', mkSep]
       = (Inr 0, [Item (Some ''BLOCK'') (Some ''text'') None None None (Some (JBool True))
                    (Some [''This block is not allowed'']), mkSep])
   \<and> isDynamicCategory lowerDynamic \<and> disabled lowerDynamic = None
   \<and> hidden lowerDynamic = None
   \<and> isSeparator lowerSep \<and> hidden lowerSep = None
   \<and> filterContents_p0 (Some []) [lowerDynamic, lowerSep] = (0, [lowerDynamic, lowerSep])"
  by (simp add: mkSep_def mkBlock_def lowerSep_def lowerDynamic_def isSeparator_def
      isDynamicCategory_def isCategoryKind_def toUpperCase_def upper_char_def
      toLowerCase_def lower_char_def is_ascii_def allowed_def)

text \<open>
  C4 (amended). Under an empty allow-list a run of \<open>unnamed/part_000\<close> counts nothing and
  leaves disabled every item without \<open>contents\<close> that has a \<open>type\<close>, hidden every item with
  \<open>contents\<close>, disabled every dynamic category whose kind is the string \<open>CATEGORY\<close> in
  capitals, and hidden every separator whose kind is the string \<open>SEP\<close> in capitals; every
  other item is passed over unchanged. A run of \<open>manager.ts\<close> returns when every item of kind
  \<open>block\<close> has a \<open>type\<close> and throws at a block that has none; a run that returns counts
  nothing and leaves disabled every item of kind \<open>block\<close> and hidden every item of kind
  \<open>category\<close> that has \<open>contents\<close> (static) or else \<open>custom\<close> (dynamic), the kind being read
  in any letter case; every other item, a separator among them, is passed over unchanged.
\<close>

theorem filter_empty_allow_list:
  "fst (filterContents_p0 (Some []) cs) = 0
   \<and> (\<forall>i\<in>set (all_items (snd (filterContents_p0 (Some []) cs))). marked_none_p0 i)
   \<and> (passed_over_p0 x \<longrightarrow> filterItem_p0 (Some []) v ls x = (v, ls, x))
   \<and> (\<forall>n cs'. filterContents (Some []) cs = (Inr n, cs') \<longrightarrow>
         n = 0 \<and> (\<forall>i\<in>set (toolbox_items cs'). marked_none i))
   \<and> (typed_blocks cs \<longrightarrow> (\<exists>n cs'. filterContents (Some []) cs = (Inr n, cs')))
   \<and> (isBlock x \<and> btype x = None \<longrightarrow> filterItem (Some []) v x = (Inl TypeError, x))
   \<and> (passed_over x \<longrightarrow> filterItem (Some []) v x = (Inr v, x))
   \<and> (isSeparator x \<longrightarrow> passed_over x)"
proof (intro conjI)
  show "fst (filterContents_p0 (Some []) cs) = 0"
    using empty_p0(1) by blast
  show "\<forall>i\<in>set (all_items (snd (filterContents_p0 (Some []) cs))). marked_none_p0 i"
    using empty_p0(1) by blast
  show "passed_over_p0 x \<longrightarrow> filterItem_p0 (Some []) v ls x = (v, ls, x)"
    using passed_over_filter_p0 by blast
  show "\<forall>n cs'. filterContents (Some []) cs = (Inr n, cs') \<longrightarrow>
         n = 0 \<and> (\<forall>i\<in>set (toolbox_items cs'). marked_none i)"
    using empty_mgr(1) by blast
  show "typed_blocks cs \<longrightarrow> (\<exists>n cs'. filterContents (Some []) cs = (Inr n, cs'))"
    using total_mgr(1) by blast
  show "isBlock x \<and> btype x = None \<longrightarrow> filterItem (Some []) v x = (Inl TypeError, x)"
    using untyped_block_throws by blast
  show "passed_over x \<longrightarrow> filterItem (Some []) v x = (Inr v, x)"
    using passed_over_mgr by blast
  show "isSeparator x \<longrightarrow> passed_over x"
    using separator_passed_over by blast
qed

theorem filter_empty_allow_list_witness:
  "filterContents_p0 (Some []) toolbox0 = (0, toolbox0_none_p0)
   \<and> isStaticCategory_p0 (all_items toolbox0_none_p0 ! 0)
   \<and> hidden (all_items toolbox0_none_p0 ! 0) = Some (JStr ''true'')
   \<and> isBlock_p0 (all_items toolbox0_none_p0 ! 1)
   \<and> disabled (all_items toolbox0_none_p0 ! 1) = Some (JBool True)
   \<and> isSeparator_p0 (all_items toolbox0_none_p0 ! 3)
   \<and> hidden (all_items toolbox0_none_p0 ! 3) = Some (JBool True)
   \<and> isDynamicCategory_p0 (all_items toolbox0_none_p0 ! 4)
   \<and> disabled (all_items toolbox0_none_p0 ! 4) = Some (JStr ''true'')
   \<and> passed_over_p0 mkLabel
   \<and> filterItem_p0 (Some []) 0 0 mkLabel = (0, 0, mkLabel)
   \<and> typed_blocks toolbox0
   \<and> filterContents (Some []) toolbox0 = (Inr 0, toolbox0_none_mgr)
   \<and> isStaticCategory (toolbox_items toolbox0_none_mgr ! 0)
   \<and> hidden (toolbox_items toolbox0_none_mgr ! 0) = Some (JStr ''true'')
   \<and> isDynamicCategory (toolbox_items toolbox0_none_mgr ! 4)
   \<and> hidden (toolbox_items toolbox0_none_mgr ! 4) = Some (JStr ''true'')
   \<and> isBlock (toolbox_items toolbox0_none_mgr ! 6)
   \<and> disabled (toolbox_items toolbox0_none_mgr ! 6) = Some (JBool True)
   \<and> isSeparator mkSep \<and> passed_over mkSep
   \<and> filterItem (Some []) 0 mkSep = (Inr 0, mkSep)
   \<and> isBlock xmlBlock \<and> btype xmlBlock = None
   \<and> filterItem (Some []) 0 xmlBlock = (Inl TypeError, xmlBlock)"
proof -
  note T = filter_empty_allow_list[of toolbox0 mkSep 0 0]
  note TL = filter_empty_allow_list[of toolbox0 mkLabel 0 0]
  note TX = filter_empty_allow_list[of toolbox0 xmlBlock 0 0]
  from T filter_toolbox0_none_p0
  have A: "\<forall>i\<in>set (all_items toolbox0_none_p0). marked_none_p0 i"
    by simp
  from T filter_toolbox0_none_mgr
  have B: "\<forall>i\<in>set (toolbox_items toolbox0_none_mgr). marked_none i"
    by blast
  have k: "isStaticCategory_p0 (all_items toolbox0_none_p0 ! 0)"
    "isBlock_p0 (all_items toolbox0_none_p0 ! 1)"
    "isSeparator_p0 (all_items toolbox0_none_p0 ! 3)"
    "isDynamicCategory_p0 (all_items toolbox0_none_p0 ! 4)"
    "passed_over_p0 mkLabel"
    by (simp_all add: toolbox0_none_p0_def passed_over_p0_def mkLabel_def kinds_p0)
  have km: "isStaticCategory (toolbox_items toolbox0_none_mgr ! 0)"
    "isDynamicCategory (toolbox_items toolbox0_none_mgr ! 4)"
    "isBlock (toolbox_items toolbox0_none_mgr ! 6)"
    "isSeparator mkSep"
    "isBlock xmlBlock" "btype xmlBlock = None"
    by (simp_all add: toolbox0_none_mgr_def xmlBlock_def kinds isSeparator_def filter_eval)
  have tb: "typed_blocks toolbox0"
    by (simp add: typed_blocks_def toolbox0_def kinds filter_eval)
  from T km(4) have po: "passed_over mkSep"
    by blast
  from T po have s: "filterItem (Some []) 0 mkSep = (Inr 0, mkSep)"
    by blast
  from TL k(5) have l: "filterItem_p0 (Some []) 0 0 mkLabel = (0, 0, mkLabel)"
    by blast
  from TX km(5,6) have x: "filterItem (Some []) 0 xmlBlock = (Inl TypeError, xmlBlock)"
    by blast
  have a0: "marked_none_p0 (all_items toolbox0_none_p0 ! 0)"
    and a1: "marked_none_p0 (all_items toolbox0_none_p0 ! 1)"
    and a3: "marked_none_p0 (all_items toolbox0_none_p0 ! 3)"
    and a4: "marked_none_p0 (all_items toolbox0_none_p0 ! 4)"
    by (rule Ball_nth[OF A], simp add: toolbox0_none_p0_def)+
  have b0: "marked_none (toolbox_items toolbox0_none_mgr ! 0)"
    and b4: "marked_none (toolbox_items toolbox0_none_mgr ! 4)"
    and b6: "marked_none (toolbox_items toolbox0_none_mgr ! 6)"
    by (rule Ball_nth[OF B], simp add: toolbox0_none_mgr_def isCategoryKind_def filter_eval)+
  show ?thesis
    using filter_toolbox0_none_p0 filter_toolbox0_none_mgr k km tb po s l x
      a0 a1 a3 a4 b0 b4 b6
    by (simp add: marked_none_p0_def marked_none_def)
qed

subsection \<open>Idempotence\<close>

text \<open>
  C9. Running a filter again with the same allow-list on the tree it has left gives the
  same result and leaves the same tree, so every mark on every item is the same as after
  one run. For \<open>manager.ts\<close> this includes a run that throws: the second run throws at the
  same block and leaves the tree as the first run left it.
\<close>

theorem filter_idempotent:
  "filterContents_p0 ab (snd (filterContents_p0 ab cs)) = filterContents_p0 ab cs
   \<and> filterContents ab (snd (filterContents ab cs)) = filterContents ab cs"
proof
  show "filterContents_p0 ab (snd (filterContents_p0 ab cs)) = filterContents_p0 ab cs"
    by (rule idem_p0(1))
  obtain r cs' where e: "filterContents ab cs = (r, cs')"
    by (cases "filterContents ab cs") auto
  from idem_mgr(1)[OF e] e
  show "filterContents ab (snd (filterContents ab cs)) = filterContents ab cs"
    by (simp del: filterContents.simps)
qed

theorem filter_idempotent_witness:
  "filterContents allow0 toolbox0 = (Inr 2, toolbox0_mgr)
   \<and> filterContents allow0 toolbox0_mgr = (Inr 2, toolbox0_mgr)
   \<and> filterContents_p0 allow0 toolbox0 = (1, toolbox0_p0)
   \<and> filterContents_p0 allow0 toolbox0_p0 = (1, toolbox0_p0)
   \<and> filterContents allow0 untyped0 = (Inl TypeError, untyped0_thrown)
   \<and> filterContents allow0 untyped0_thrown = (Inl TypeError, untyped0_thrown)"
proof -
  note T = filter_idempotent[of allow0 toolbox0]
  note U = filter_idempotent[of allow0 untyped0]
  have u: "filterContents allow0 untyped0 = (Inl TypeError, untyped0_thrown)"
    by (simp add: allow0_def untyped0_def untyped0_thrown_def filter_eval)
  from T filter_toolbox0_mgr have "filterContents allow0 toolbox0_mgr = (Inr 2, toolbox0_mgr)"
    by (simp del: filterContents.simps)
  moreover from T filter_toolbox0_p0
  have "filterContents_p0 allow0 toolbox0_p0 = (1, toolbox0_p0)"
    by (simp del: filterContents_p0.simps)
  moreover from U u have "filterContents allow0 untyped0_thrown = (Inl TypeError, untyped0_thrown)"
    by (simp del: filterContents.simps)
  ultimately show ?thesis
    using filter_toolbox0_mgr filter_toolbox0_p0 u by (simp del: filterContents.simps filterContents_p0.simps)
qed

subsection \<open>Hidden separators stay hidden\<close>

text \<open>
  C10. The filter of \<open>unnamed/part_000\<close> only ever sets \<open>hidden\<close> of a separator to \<open>true\<close>:
  after any sequence of runs, with any allow-lists, the item at each position of the tree
  that was a separator is still a separator whose \<open>hidden\<close> is what it was or \<open>true\<close>. A
  separator hidden by one run is therefore hidden after every later run.
\<close>

theorem separator_stays_hidden:
  "list_all2 sep_kept (all_items cs) (all_items (runs_p0 allows cs))"
  by (rule seps_kept_runs_p0)

theorem separator_stays_hidden_witness:
  "runs_p0 [Some []] seps0
     = [Item (Some ''BLOCK'') (Some ''a'') None None None (Some (JBool True))
          (Some [''This block is not allowed'']),
        Item (Some ''SEP'') None None None (Some (JBool True)) None None]
   \<and> isSeparator_p0 (all_items (runs_p0 [Some []] seps0) ! 1)
   \<and> sep_hidden (all_items (runs_p0 [Some []] seps0) ! 1)
   \<and> isSeparator_p0 (all_items (runs_p0 [Some [], None] seps0) ! 1)
   \<and> sep_hidden (all_items (runs_p0 [Some [], None] seps0) ! 1)
   \<and> disabled (all_items (runs_p0 [Some [], None] seps0) ! 0) = Some (JBool False)"
proof -
  let ?one = "[Item (Some ''BLOCK'') (Some ''a'') None None None (Some (JBool True))
          (Some [''This block is not allowed'']),
        Item (Some ''SEP'') None None None (Some (JBool True)) None None]"
  have r1: "runs_p0 [Some []] seps0 = ?one"
    by (simp add: seps0_def filter_eval)
  have r2: "runs_p0 [Some [], None] seps0 = runs_p0 [None] ?one"
    using r1 by simp
  have s1: "isSeparator_p0 (all_items ?one ! 1)" "sep_hidden (all_items ?one ! 1)"
    by (simp_all add: isSeparator_p0_def sep_hidden_def)
  have "list_all2 sep_kept (all_items ?one) (all_items (runs_p0 [None] ?one))"
    by (rule separator_stays_hidden)
  then have "sep_kept (all_items ?one ! 1) (all_items (runs_p0 [None] ?one) ! 1)"
    by (rule list_all2_nthD) simp
  then have s2: "isSeparator_p0 (all_items (runs_p0 [None] ?one) ! 1)
      \<and> sep_hidden (all_items (runs_p0 [None] ?one) ! 1)"
    using s1 by (auto simp: sep_kept_def sep_hidden_def simp del: runs_p0.simps all_items.simps)
  have d: "disabled (all_items (runs_p0 [None] ?one) ! 0) = Some (JBool False)"
    by (simp add: filter_eval)
  show ?thesis
    unfolding r2 using r1 s1 s2 d by (simp del: runs_p0.simps)
qed

section \<open>The kernel-changed handler\<close>

text \<open>
  C5. A kernel-changed event whose new kernel's name is a key of the kernel-spec catalog
  makes that spec the selected kernel, sets the generator to the registry's entry for the
  spec's language (absent when the registry has none, whatever the generator was before)
  and emits \<open>kernel\<close> once.
\<close>

theorem onKernelChanged_known:
  assumes "map_of (kernelspecs m) nm = Some s"
  shows "selectedKernel (onKernelChanged (Some nm) m) = Some s
       \<and> generator (onKernelChanged (Some nm) m) = generators m (language s)
       \<and> emitted (onKernelChanged (Some nm) m) = emitted m @ [Kernel]"
  using assms by (simp add: onKernelChanged_def emit_def)

theorem onKernelChanged_known_witness:
  "map_of (kernelspecs manager0) ''lua'' = Some lua
   \<and> generator manager0 = Some 7
   \<and> selectedKernel (onKernelChanged (Some ''lua'') manager0) = Some lua
   \<and> generator (onKernelChanged (Some ''lua'') manager0) = None
   \<and> emitted (onKernelChanged (Some ''lua'') manager0) = [Kernel]
   \<and> generator (onKernelChanged (Some ''python3'') manager0) = Some 7"
proof -
  have h: "map_of (kernelspecs manager0) ''lua'' = Some lua"
    by (simp add: manager0_def)
  have h2: "map_of (kernelspecs manager0) ''python3'' = Some python3"
    by (simp add: manager0_def)
  show ?thesis
    using h onKernelChanged_known[OF h] onKernelChanged_known[OF h2]
    by (simp add: manager0_def lua_def python3_def)
qed

text \<open>
  C6. A kernel-changed event without a new kernel, or with one whose name is not a key of
  the catalog, leaves the whole manager state as it was: no field changes and nothing is
  emitted.
\<close>

theorem onKernelChanged_unknown:
  assumes "newValue = None \<or> (\<exists>nm. newValue = Some nm \<and> map_of (kernelspecs m) nm = None)"
  shows "onKernelChanged newValue m = m"
  using assms by (auto simp: onKernelChanged_def)

theorem onKernelChanged_unknown_witness:
  "map_of (kernelspecs manager0) ''ruby'' = None
   \<and> onKernelChanged (Some ''ruby'') manager0 = manager0
   \<and> onKernelChanged None manager0 = manager0"
proof -
  have h: "map_of (kernelspecs manager0) ''ruby'' = None"
    by (simp add: manager0_def)
  show ?thesis
    using h onKernelChanged_unknown[of "Some ''ruby''" manager0]
      onKernelChanged_unknown[of None manager0]
    by simp
qed

section \<open>Selecting a toolbox\<close>

lemma filterToolbox_fields:
  "filterToolbox m = Inr m' \<Longrightarrow> toolbox m' = toolbox m \<and> emitted m' = emitted m"
  by (auto simp: filterToolbox_def split: option.splits sum.splits prod.splits)

lemma filterToolbox_error:
  assumes "filterToolbox m = Inl e"
  shows "allowedBlocks m \<noteq> None"
proof
  assume n: "allowedBlocks m = None"
  obtain cs where c: "map_of (toolboxes m) (toolbox m) = Some cs"
    using assms by (cases "map_of (toolboxes m) (toolbox m)") (auto simp: filterToolbox_def)
  obtain n cs' where "filterContents None cs = (Inr n, cs')"
    using filter_None_total(1) by blast
  then show False
    using assms c n by (simp add: filterToolbox_def del: filterContents.simps)
qed

lemma filterToolbox_p0_fields:
  "toolbox (filterToolbox_p0 m) = toolbox m \<and> emitted (filterToolbox_p0 m) = emitted m"
  by (simp add: filterToolbox_p0_def split: option.splits)

text \<open>
  The claim C3 says that \<open>setToolbox\<close> with an unregistered name does not emit when the
  current toolbox is already \<open>default\<close>. Both copies emit \<open>toolbox\<close> there: the guard
  compares the current name with the requested name, not with the name the fallback
  selects.
\<close>

theorem setToolbox_fallback_emits_counterexample:
  "toolbox manager0 = ''default'' \<and> map_of (toolboxes manager0) ''nonexistent'' = None
   \<and> emitted manager0 = []
   \<and> map_sum id emitted (setToolbox ''nonexistent'' manager0) = Inr [Toolbox]
   \<and> emitted (setToolbox_p0 ''nonexistent'' manager0) = [Toolbox]"
  by (simp add: manager0_def setToolbox_def setToolbox_p0_def filterToolbox_def
      filterToolbox_p0_def emit_def mkBlock_def toUpperCase_def upper_char_def is_ascii_def allowed_def)

text \<open>
  C3 (amended). \<open>setToolbox\<close> with the currently selected name changes nothing. With another
  name that is not registered, the active toolbox becomes \<open>default\<close> and \<open>toolbox\<close> is
  emitted once, whether the current toolbox was \<open>default\<close> or not. In \<open>manager.ts\<close> this
  holds when the filter run returns; it can only throw under a defined allow-list.
\<close>

theorem setToolbox_unregistered:
  "setToolbox (toolbox m) m = Inr m \<and> setToolbox_p0 (toolbox m) m = m
   \<and> (toolbox m \<noteq> nm \<and> map_of (toolboxes m) nm = None \<longrightarrow>
        toolbox (setToolbox_p0 nm m) = ''default''
        \<and> emitted (setToolbox_p0 nm m) = emitted m @ [Toolbox]
        \<and> (case setToolbox nm m of
             Inl e \<Rightarrow> allowedBlocks m \<noteq> None
           | Inr m' \<Rightarrow> toolbox m' = ''default'' \<and> emitted m' = emitted m @ [Toolbox]))"
proof -
  have noop: "setToolbox (toolbox m) m = Inr m \<and> setToolbox_p0 (toolbox m) m = m"
    by (simp add: setToolbox_def setToolbox_p0_def)
  {
    assume h: "toolbox m \<noteq> nm" "map_of (toolboxes m) nm = None"
    let ?m1 = "m\<lparr>toolbox := ''default''\<rparr>"
    have p0: "setToolbox_p0 nm m = emit Toolbox (filterToolbox_p0 ?m1)"
      using h by (simp add: setToolbox_p0_def)
    have a: "toolbox (setToolbox_p0 nm m) = ''default''
        \<and> emitted (setToolbox_p0 nm m) = emitted m @ [Toolbox]"
      using filterToolbox_p0_fields[of ?m1] by (simp add: p0 emit_def)
    have b: "(case setToolbox nm m of
             Inl e \<Rightarrow> allowedBlocks m \<noteq> None
           | Inr m' \<Rightarrow> toolbox m' = ''default'' \<and> emitted m' = emitted m @ [Toolbox])"
    proof (cases "filterToolbox ?m1")
      case (Inl e)
      then show ?thesis using h filterToolbox_error[OF Inl] by (simp add: setToolbox_def)
    next
      case (Inr m2)
      then show ?thesis using h filterToolbox_fields[OF Inr] by (simp add: setToolbox_def emit_def)
    qed
    note a b
  }
  then show ?thesis using noop by blast
qed

theorem setToolbox_unregistered_witness:
  "toolbox manager0 \<noteq> ''nonexistent'' \<and> map_of (toolboxes manager0) ''nonexistent'' = None
   \<and> toolbox (setToolbox_p0 ''nonexistent'' manager0) = ''default''
   \<and> emitted (setToolbox_p0 ''nonexistent'' manager0) = [Toolbox]
   \<and> map_sum id toolbox (setToolbox ''nonexistent'' manager0) = Inr ''default''
   \<and> map_sum id emitted (setToolbox ''nonexistent'' manager0) = Inr [Toolbox]
   \<and> setToolbox ''default'' manager0 = Inr manager0"
proof -
  have h: "toolbox manager0 \<noteq> ''nonexistent'' \<and> map_of (toolboxes manager0) ''nonexistent'' = None"
    by (simp add: manager0_def)
  have e: "emitted manager0 = []" "toolbox manager0 = ''default''" "allowedBlocks manager0 = None"
    by (simp_all add: manager0_def)
  show ?thesis
    using h e setToolbox_unregistered[of manager0 "''nonexistent''"]
    by (auto split: sum.splits)
qed

section \<open>Loading and saving\<close>

lemma filterToolbox_frame:
  "filterToolbox m = Inr m' \<Longrightarrow>
     generators m' = generators m \<and> kernelspecs m' = kernelspecs m
     \<and> changeKernelCalls m' = changeKernelCalls m \<and> selectedKernel m' = selectedKernel m"
  by (auto simp: filterToolbox_def split: option.splits sum.splits prod.splits)

lemma setToolbox_frame:
  assumes "setToolbox nm m = Inr m'"
  shows "generators m' = generators m \<and> kernelspecs m' = kernelspecs m
     \<and> changeKernelCalls m' = changeKernelCalls m \<and> selectedKernel m' = selectedKernel m"
proof (cases "toolbox m = nm")
  case True
  then show ?thesis using assms by (simp add: setToolbox_def)
next
  case False
  then obtain m1 where
    f: "filterToolbox (m\<lparr>toolbox := (if map_of (toolboxes m) nm \<noteq> None then nm else ''default'')\<rparr>) = Inr m1"
    and e: "m' = emit Toolbox m1"
    using assms by (auto simp: setToolbox_def split: sum.splits)
  show ?thesis using filterToolbox_frame[OF f] e by (simp add: emit_def)
qed

lemma setToolbox_registered:
  assumes "setToolbox nm m = Inr m'" and "map_of (toolboxes m) nm \<noteq> None"
  shows "toolbox m' = nm"
proof (cases "toolbox m = nm")
  case True
  then show ?thesis using assms by (simp add: setToolbox_def)
next
  case False
  then obtain m1 where
    f: "filterToolbox (m\<lparr>toolbox := nm\<rparr>) = Inr m1"
    and e: "m' = emit Toolbox m1"
    using assms by (auto simp: setToolbox_def split: sum.splits)
  show ?thesis using filterToolbox_fields[OF f] e by (simp add: emit_def)
qed

lemma find_names:
  "find (\<lambda>v. snd v = T) (map (\<lambda>(nm, tb). (nm, nm)) l)
     = (if map_of l T \<noteq> None then Some (T, T) else None)"
  by (induction l) auto

lemma find_listToolboxes:
  "find (\<lambda>v. snd v = T) (listToolboxes m)
     = (if map_of (toolboxes m) T \<noteq> None then Some (T, T) else None)"
  by (simp add: listToolboxes_def find_names)

lemma find_not_string:
  "(\<forall>T. x \<noteq> Some (JStr T)) \<Longrightarrow> find (\<lambda>v. Some (JStr (snd v)) = x) l = None"
  by (induction l) auto

lemma find_value_Some:
  "find (\<lambda>v. snd v = K) l = Some v \<Longrightarrow> snd v = K"
  by (auto simp: find_Some_iff)

lemma find_value_None:
  "(find (\<lambda>v. snd v = K) l = None) = (K \<notin> snd ` set l)"
  by (auto simp: find_None_iff image_iff)

lemma load_toolbox_result:
  assumes "load_toolbox md p = Inr p2"
  shows "workspace p2 = workspace p \<and> warnings p2 = warnings p \<and> model p2 = model p
     \<and> generators (manager p2) = generators (manager p)
     \<and> kernelspecs (manager p2) = kernelspecs (manager p)
     \<and> changeKernelCalls (manager p2) = changeKernelCalls (manager p)
     \<and> (\<forall>T. getProp md ''toolbox'' = Some (JStr T) \<and> T \<noteq> []
            \<and> map_of (toolboxes (manager p)) T \<noteq> None \<longrightarrow> toolbox (manager p2) = T)
     \<and> (\<not> truthy (getProp md ''toolbox'')
          \<or> \<not> (\<exists>T. getProp md ''toolbox'' = Some (JStr T)
                  \<and> map_of (toolboxes (manager p)) T \<noteq> None) \<longrightarrow>
          toolbox (manager p2) = toolbox (manager p))
     \<and> (truthy (getProp md ''toolbox'')
          \<and> \<not> (\<exists>T. getProp md ''toolbox'' = Some (JStr T)
                  \<and> map_of (toolboxes (manager p)) T \<noteq> None) \<longrightarrow>
          errorMessages p2 = errorMessages p @ [(''Unknown toolbox'', getProp md ''toolbox'')])"
proof (cases "truthy (getProp md ''toolbox'')")
  case False
  then have "p2 = p" using assms by (simp add: load_toolbox_def)
  then show ?thesis using False by auto
next
  case True
  show ?thesis
  proof (cases "\<exists>T. getProp md ''toolbox'' = Some (JStr T)")
    case False
    then have "find (\<lambda>v. Some (JStr (snd v)) = getProp md ''toolbox'') (listToolboxes (manager p)) = None"
      by (intro find_not_string) auto
    then have "p2 = showErrorMessage ''Unknown toolbox'' (getProp md ''toolbox'') p"
      using assms True by (simp add: load_toolbox_def)
    then show ?thesis using False True by (auto simp: showErrorMessage_def)
  next
    case ex: True
    then obtain T where T: "getProp md ''toolbox'' = Some (JStr T)" by blast
    show ?thesis
    proof (cases "map_of (toolboxes (manager p)) T \<noteq> None")
      case False
      then have "p2 = showErrorMessage ''Unknown toolbox'' (getProp md ''toolbox'') p"
        using assms True T by (simp add: load_toolbox_def find_listToolboxes)
      then show ?thesis using False True T by (auto simp: showErrorMessage_def)
    next
      case reg: True
      then obtain m' where s: "setToolbox T (manager p) = Inr m'" and e: "p2 = p\<lparr>manager := m'\<rparr>"
        using assms True T by (auto simp: load_toolbox_def find_listToolboxes split: sum.splits)
      show ?thesis
        using setToolbox_frame[OF s] setToolbox_registered[OF s reg] e T reg True by auto
    qed
  qed
qed

lemma load_kernel_result:
  "workspace (load_kernel md p) = workspace p \<and> errorMessages (load_kernel md p) = errorMessages p
   \<and> model (load_kernel md p) = model p
   \<and> toolbox (manager (load_kernel md p)) = toolbox (manager p)
   \<and> (\<forall>K. getProp md ''kernel'' = Some (JStr K) \<and> K \<noteq> [] \<and> K \<noteq> ''No kernel''
          \<and> K \<in> snd ` set (listKernels (manager p)) \<longrightarrow>
        changeKernelCalls (manager (load_kernel md p)) = changeKernelCalls (manager p) @ [K]
        \<and> warnings (load_kernel md p) = warnings p)
   \<and> (\<not> (\<exists>K. getProp md ''kernel'' = Some (JStr K) \<and> K \<noteq> [] \<and> K \<noteq> ''No kernel''
              \<and> K \<in> snd ` set (listKernels (manager p))) \<longrightarrow>
        changeKernelCalls (manager (load_kernel md p)) = changeKernelCalls (manager p))
   \<and> (truthy (getProp md ''kernel'') \<and> getProp md ''kernel'' \<noteq> Some (JStr ''No kernel'')
        \<and> \<not> (\<exists>K. getProp md ''kernel'' = Some (JStr K)
              \<and> K \<in> snd ` set (listKernels (manager p))) \<longrightarrow>
        warnings (load_kernel md p) = warnings p @ [the (getProp md ''kernel'')])"
proof (cases "truthy (getProp md ''kernel'') \<and> getProp md ''kernel'' \<noteq> Some (JStr ''No kernel'')")
  case False
  then have "load_kernel md p = p" by (auto simp: load_kernel_def)
  then show ?thesis using False by auto
next
  case True
  show ?thesis
  proof (cases "\<exists>K. getProp md ''kernel'' = Some (JStr K)")
    case False
    then have "find (\<lambda>v. Some (JStr (snd v)) = getProp md ''kernel'') (listKernels (manager p)) = None"
      by (intro find_not_string) auto
    then have "load_kernel md p = p\<lparr>warnings := warnings p @ [the (getProp md ''kernel'')]\<rparr>"
      using True by (simp add: load_kernel_def)
    then show ?thesis using False True by auto
  next
    case ex: True
    then obtain K where K: "getProp md ''kernel'' = Some (JStr K)" by blast
    show ?thesis
    proof (cases "K \<in> snd ` set (listKernels (manager p))")
      case False
      then have "find (\<lambda>v. snd v = K) (listKernels (manager p)) = None"
        using find_value_None[of K "listKernels (manager p)"] by blast
      then have "load_kernel md p = p\<lparr>warnings := warnings p @ [the (getProp md ''kernel'')]\<rparr>"
        using True K by (simp add: load_kernel_def)
      then show ?thesis using False True K by auto
    next
      case inl: True
      then have "find (\<lambda>v. snd v = K) (listKernels (manager p)) \<noteq> None"
        using find_value_None[of K "listKernels (manager p)"] by blast
      then obtain v where f: "find (\<lambda>v. snd v = K) (listKernels (manager p)) = Some v"
        by blast
      have "snd v = K" using find_value_Some[OF f] .
      then have "load_kernel md p = p\<lparr>manager := selectKernel K (manager p)\<rparr>"
        using True K f by (simp add: load_kernel_def)
      then show ?thesis using inl True K by (auto simp: selectKernel_def)
    qed
  qed
qed

lemma load_format2:
  assumes nn: "model p \<noteq> JNull"
    and f: "getProp (model p) ''format'' = Some (JNum 2)" and l: "load p = Inr p'"
  shows "workspace p' = getProp (model p) ''workspace'' \<and> metadata_applied p p'"
proof (cases "truthy (getProp (model p) ''metadata'')")
  case False
  then have "p' = p\<lparr>workspace := getProp (model p) ''workspace''\<rparr>"
    using nn f l by (simp add: load_def Let_def)
  then show ?thesis
    using False by (simp add: metadata_applied_def doc_toolbox_def doc_kernel_def)
next
  let ?p1 = "p\<lparr>workspace := getProp (model p) ''workspace''\<rparr>"
  let ?md = "the (getProp (model p) ''metadata'')"
  case True
  then obtain p2 where t: "load_toolbox ?md ?p1 = Inr p2" and e: "p' = load_kernel ?md p2"
    using nn f l by (auto simp: load_def Let_def split: sum.splits)
  have lk: "listKernels (manager p2) = listKernels (manager p)"
    using load_toolbox_result[OF t] by (simp add: listKernels_def)
  note A = load_toolbox_result[OF t]
  note B = load_kernel_result[of ?md p2]
  have dt: "doc_toolbox (model p) = getProp ?md ''toolbox''"
    and dk: "doc_kernel (model p) = getProp ?md ''kernel''"
    using True by (simp_all add: doc_toolbox_def doc_kernel_def)
  have w: "workspace p' = getProp (model p) ''workspace''"
    using A B e by simp
  have tb1: "\<forall>T. doc_toolbox (model p) = Some (JStr T) \<and> T \<noteq> []
                \<and> map_of (toolboxes (manager p)) T \<noteq> None \<longrightarrow> toolbox (manager p') = T"
    using A B e dt by simp
  have tb2: "\<not> (\<exists>T. doc_toolbox (model p) = Some (JStr T)
                    \<and> map_of (toolboxes (manager p)) T \<noteq> None) \<longrightarrow>
              toolbox (manager p') = toolbox (manager p)
              \<and> (truthy (doc_toolbox (model p)) \<longrightarrow>
                   errorMessages p' =
                     errorMessages p @ [(''Unknown toolbox'', doc_toolbox (model p))])"
    using A B e dt by simp
  have k1: "\<forall>K. doc_kernel (model p) = Some (JStr K) \<and> K \<noteq> [] \<and> K \<noteq> ''No kernel''
                \<and> K \<in> snd ` set (listKernels (manager p)) \<longrightarrow>
              changeKernelCalls (manager p') = changeKernelCalls (manager p) @ [K]"
    using A B e dk lk by simp
  have k2: "\<not> (\<exists>K. doc_kernel (model p) = Some (JStr K)
                    \<and> K \<in> snd ` set (listKernels (manager p))) \<longrightarrow>
              changeKernelCalls (manager p') = changeKernelCalls (manager p)
              \<and> (truthy (doc_kernel (model p))
                   \<and> doc_kernel (model p) \<noteq> Some (JStr ''No kernel'') \<longrightarrow>
                   warnings p' = warnings p @ [the (doc_kernel (model p))])"
    using A B e dk lk by auto
  show ?thesis
    unfolding metadata_applied_def using w tb1 tb2 k1 k2 by blast
qed

lemmas example_defs =
  panel0_def manager0_def python3_def lua_def mkBlock_def legacy_doc_def v2_doc_def
  v2_unknown_doc_def v3_doc_def

lemma load_v2_example:
  "load (panel0\<lparr>model := v2_doc\<rparr>)
     = Inr (panel0\<lparr>model := v2_doc, workspace := Some (JObj [(''blocks'', JObj [])]),
            manager := manager0\<lparr>toolbox := ''maths'',
              toolboxes := [(''default'', [mkBlock ''text'']),
                 (''maths'', [Item (Some ''BLOCK'') (Some ''math_number'') None None None
                                (Some (JBool False)) (Some [])])],
              changeKernelCalls := [''python3''], emitted := [Toolbox]\<rparr>\<rparr>)"
  by (simp add: example_defs load_def load_toolbox_def load_kernel_def listToolboxes_def
      listKernels_def setToolbox_def filterToolbox_def selectKernel_def emit_def
      toUpperCase_def upper_char_def is_ascii_def)

lemma load_v2_unknown_example:
  "load (panel0\<lparr>model := v2_unknown_doc\<rparr>)
     = Inr (panel0\<lparr>model := v2_unknown_doc, workspace := Some (JObj []),
            errorMessages := [(''Unknown toolbox'', Some (JStr ''gone''))],
            warnings := [JStr ''lua'']\<rparr>)"
  by (simp add: example_defs load_def load_toolbox_def load_kernel_def listToolboxes_def
      listKernels_def showErrorMessage_def)

lemma metadata_applied_unknown_toolbox:
  "metadata_applied p p' \<Longrightarrow> doc_toolbox (model p) = Some (JStr T) \<Longrightarrow> T \<noteq> [] \<Longrightarrow>
     map_of (toolboxes (manager p)) T = None \<Longrightarrow>
     toolbox (manager p') = toolbox (manager p)
     \<and> errorMessages p' = errorMessages p @ [(''Unknown toolbox'', Some (JStr T))]"
  by (simp add: metadata_applied_def)

lemma metadata_applied_unknown_kernel:
  "metadata_applied p p' \<Longrightarrow> doc_kernel (model p) = Some (JStr K) \<Longrightarrow> K \<noteq> [] \<Longrightarrow>
     K \<noteq> ''No kernel'' \<Longrightarrow> K \<notin> snd ` set (listKernels (manager p)) \<Longrightarrow>
     changeKernelCalls (manager p') = changeKernelCalls (manager p)
     \<and> warnings p' = warnings p @ [JStr K]"
  by (simp add: metadata_applied_def)

lemma setToolbox_total:
  assumes "allowedBlocks m = None"
  shows "\<exists>m'. setToolbox nm m = Inr m'"
proof (cases "setToolbox nm m")
  case (Inr m')
  then show ?thesis by blast
next
  case (Inl e)
  let ?m1 = "m\<lparr>toolbox := (if map_of (toolboxes m) nm \<noteq> None then nm else ''default'')\<rparr>"
  have "filterToolbox ?m1 = Inl e"
    using Inl by (simp add: setToolbox_def split: if_splits sum.splits)
  then have "allowedBlocks ?m1 \<noteq> None" by (rule filterToolbox_error)
  then show ?thesis using assms by simp
qed

lemma load_toolbox_total:
  assumes "allowedBlocks (manager p) = None"
  shows "\<exists>p2. load_toolbox md p = Inr p2"
proof -
  have "\<exists>m'. setToolbox nm (manager p) = Inr m'" for nm
    using setToolbox_total[OF assms] .
  then show ?thesis
    by (auto simp: load_toolbox_def split: option.splits sum.splits) (metis sum.distinct(1))
qed

lemma load_total:
  assumes "model p \<noteq> JNull" and "allowedBlocks (manager p) = None"
  shows "\<exists>p'. load p = Inr p'"
proof -
  have "\<exists>p2. load_toolbox md (p\<lparr>workspace := w\<rparr>) = Inr p2" for md w
    using load_toolbox_total[of "p\<lparr>workspace := w\<rparr>"] assms(2) by simp
  then show ?thesis
    using assms(1) by (auto simp: load_def Let_def split: sum.splits) (metis sum.distinct(1))
qed

lemma load_kernel_frame:
  "kernelspecs (manager (load_kernel md p)) = kernelspecs (manager p)
   \<and> generators (manager (load_kernel md p)) = generators (manager p)"
  by (simp add: load_kernel_def selectKernel_def split: option.splits)

lemma load_frame:
  assumes "load p = Inr p'"
  shows "kernelspecs (manager p') = kernelspecs (manager p)"
proof (cases "getProp (model p) ''format'' = Some (JNum 2) \<and> truthy (getProp (model p) ''metadata'')")
  case True
  let ?md = "the (getProp (model p) ''metadata'')"
  from True obtain p2 where
    t: "load_toolbox ?md (p\<lparr>workspace := getProp (model p) ''workspace''\<rparr>) = Inr p2"
    and e: "p' = load_kernel ?md p2"
    using assms by (auto simp: load_def Let_def split: if_splits sum.splits)
  have "kernelspecs (manager p2) = kernelspecs (manager p)"
    using load_toolbox_result[OF t] by simp
  then show ?thesis using e load_kernel_frame[of ?md p2] by simp
next
  case False
  then show ?thesis
    using assms by (auto simp: load_def Let_def showErrorMessage_def split: if_splits)
qed

lemma saved_document:
  "model (onSave Started p) \<noteq> JNull
   \<and> getProp (model (onSave Started p)) ''format'' = Some (JNum 2)
   \<and> getProp (model (onSave Started p)) ''workspace'' = workspace p
   \<and> doc_toolbox (model (onSave Started p)) = Some (JStr (toolbox (manager p)))
   \<and> doc_kernel (model (onSave Started p)) = Some (JStr (kernel (manager p)))"
  by (cases "workspace p") (simp_all add: onSave_def doc_toolbox_def doc_kernel_def getToolbox_def)

lemma metadata_applied_toolbox:
  "metadata_applied p p' \<Longrightarrow> doc_toolbox (model p) = Some (JStr T) \<Longrightarrow> T \<noteq> [] \<Longrightarrow>
     map_of (toolboxes (manager p)) T \<noteq> None \<Longrightarrow> toolbox (manager p') = T"
  by (simp add: metadata_applied_def)

lemma metadata_applied_kernel:
  "metadata_applied p p' \<Longrightarrow> doc_kernel (model p) = Some (JStr K) \<Longrightarrow> K \<noteq> [] \<Longrightarrow>
     K \<noteq> ''No kernel'' \<Longrightarrow> K \<in> snd ` set (listKernels (manager p)) \<Longrightarrow>
     changeKernelCalls (manager p') = changeKernelCalls (manager p) @ [K]"
  by (simp add: metadata_applied_def)

lemma kernel_cases:
  "(selectedKernel m = None \<longrightarrow> kernel m = ''No kernel'')
   \<and> (\<forall>s. selectedKernel m = Some s \<and> name s \<noteq> [] \<longrightarrow> kernel m = name s)"
  by (simp add: kernel_def)

text \<open>
  The claim C7 says that a document without \<open>format\<close> whose \<open>blocks\<close> key is present is
  loaded as a legacy document. \<open>_load\<close> tests the value of \<open>blocks\<close> for truthiness: a
  document whose \<open>blocks\<close> is \<open>null\<close> has the key, is reported as an unsupported format and
  sets no workspace.
\<close>

theorem load_null_blocks_counterexample:
  "getProp null_blocks_doc ''format'' = None
   \<and> getProp null_blocks_doc ''blocks'' = Some JNull
   \<and> load (panel0\<lparr>model := null_blocks_doc\<rparr>)
       = Inr (panel0\<lparr>model := null_blocks_doc,
                     errorMessages := [(''Unsupported file format'', None)]\<rparr>)
   \<and> workspace (panel0\<lparr>model := null_blocks_doc,
                     errorMessages := [(''Unsupported file format'', None)]\<rparr>) = None"
  by (simp add: null_blocks_doc_def load_def panel0_def showErrorMessage_def)

text \<open>
  C7 (amended). For a document that is not \<open>null\<close>: without \<open>format\<close> and with a truthy
  \<open>blocks\<close> value the whole payload becomes the workspace and nothing else changes; with
  \<open>format\<close> equal to 2 a load that returns has set the workspace from the \<open>workspace\<close> key
  and has applied the metadata as \<open>metadata_applied\<close> says (names are applied only when they
  are registered, and a mismatch is only reported); in every other case the dialog
  \<open>Unsupported file format\<close> is opened and nothing else changes, so no workspace is set.
\<close>

theorem load_dispatch:
  assumes "model p \<noteq> JNull"
  shows
   "(getProp (model p) ''format'' = None \<and> truthy (getProp (model p) ''blocks'') \<longrightarrow>
       load p = Inr (p\<lparr>workspace := Some (model p)\<rparr>))
    \<and> (getProp (model p) ''format'' = Some (JNum 2) \<longrightarrow>
        (\<forall>p'. load p = Inr p' \<longrightarrow>
           workspace p' = getProp (model p) ''workspace'' \<and> metadata_applied p p'))
    \<and> (\<not> (getProp (model p) ''format'' = None \<and> truthy (getProp (model p) ''blocks''))
        \<and> getProp (model p) ''format'' \<noteq> Some (JNum 2) \<longrightarrow>
        load p = Inr (p\<lparr>errorMessages :=
                          errorMessages p
                          @ [(''Unsupported file format'', getProp (model p) ''format'')]\<rparr>))"
proof (intro conjI)
  show "getProp (model p) ''format'' = None \<and> truthy (getProp (model p) ''blocks'') \<longrightarrow>
       load p = Inr (p\<lparr>workspace := Some (model p)\<rparr>)"
    using assms by (simp add: load_def Let_def)
  show "\<not> (getProp (model p) ''format'' = None \<and> truthy (getProp (model p) ''blocks''))
        \<and> getProp (model p) ''format'' \<noteq> Some (JNum 2) \<longrightarrow>
        load p = Inr (p\<lparr>errorMessages :=
                          errorMessages p
                          @ [(''Unsupported file format'', getProp (model p) ''format'')]\<rparr>)"
    using assms by (simp add: load_def Let_def showErrorMessage_def)
  show "getProp (model p) ''format'' = Some (JNum 2) \<longrightarrow>
        (\<forall>p'. load p = Inr p' \<longrightarrow>
           workspace p' = getProp (model p) ''workspace'' \<and> metadata_applied p p')"
    using load_format2[OF assms] by blast
qed

theorem load_dispatch_witness:
  "load (panel0\<lparr>model := legacy_doc\<rparr>)
     = Inr (panel0\<lparr>model := legacy_doc, workspace := Some legacy_doc\<rparr>)
   \<and> workspace (projr (load (panel0\<lparr>model := v2_doc\<rparr>))) = Some (JObj [(''blocks'', JObj [])])
   \<and> toolbox (manager (projr (load (panel0\<lparr>model := v2_doc\<rparr>)))) = ''maths''
   \<and> changeKernelCalls (manager (projr (load (panel0\<lparr>model := v2_doc\<rparr>)))) = [''python3'']
   \<and> toolbox (manager (projr (load (panel0\<lparr>model := v2_unknown_doc\<rparr>)))) = ''default''
   \<and> errorMessages (projr (load (panel0\<lparr>model := v2_unknown_doc\<rparr>)))
       = [(''Unknown toolbox'', Some (JStr ''gone''))]
   \<and> changeKernelCalls (manager (projr (load (panel0\<lparr>model := v2_unknown_doc\<rparr>)))) = []
   \<and> warnings (projr (load (panel0\<lparr>model := v2_unknown_doc\<rparr>))) = [JStr ''lua'']
   \<and> load (panel0\<lparr>model := v3_doc\<rparr>)
       = Inr (panel0\<lparr>model := v3_doc,
                     errorMessages := [(''Unsupported file format'', Some (JNum 3))]\<rparr>)"
proof -
  let ?L = "panel0\<lparr>model := legacy_doc\<rparr>"
  let ?A = "panel0\<lparr>model := v2_doc\<rparr>"
  let ?B = "panel0\<lparr>model := v2_unknown_doc\<rparr>"
  let ?C = "panel0\<lparr>model := v3_doc\<rparr>"
  have nL: "model ?L \<noteq> JNull" and nA: "model ?A \<noteq> JNull" and nB: "model ?B \<noteq> JNull"
    and nC: "model ?C \<noteq> JNull"
    by (simp_all add: legacy_doc_def v2_doc_def v2_unknown_doc_def v3_doc_def)
  have hL: "getProp (model ?L) ''format'' = None \<and> truthy (getProp (model ?L) ''blocks'')"
    by (simp add: legacy_doc_def)
  have hC: "\<not> (getProp (model ?C) ''format'' = None \<and> truthy (getProp (model ?C) ''blocks''))
      \<and> getProp (model ?C) ''format'' \<noteq> Some (JNum 2)"
    and fC: "getProp (model ?C) ''format'' = Some (JNum 3)"
    by (simp_all add: v3_doc_def)
  have l: "load ?L = Inr (panel0\<lparr>model := legacy_doc, workspace := Some legacy_doc\<rparr>)"
    using load_dispatch[OF nL] hL by simp
  have "load ?C = Inr (?C\<lparr>errorMessages := errorMessages ?C
           @ [(''Unsupported file format'', getProp (model ?C) ''format'')]\<rparr>)"
    using load_dispatch[OF nC] hC by blast
  then have c: "load ?C = Inr (panel0\<lparr>model := v3_doc,
                     errorMessages := [(''Unsupported file format'', Some (JNum 3))]\<rparr>)"
    using fC by (simp add: panel0_def)
  have fA: "getProp (model ?A) ''format'' = Some (JNum 2)"
    and wA: "getProp (model ?A) ''workspace'' = Some (JObj [(''blocks'', JObj [])])"
    and tA: "doc_toolbox (model ?A) = Some (JStr ''maths'')"
    and kA: "doc_kernel (model ?A) = Some (JStr ''python3'')"
    by (simp_all add: v2_doc_def doc_toolbox_def doc_kernel_def)
  have rA: "map_of (toolboxes (manager ?A)) ''maths'' \<noteq> None"
    "''python3'' \<in> snd ` set (listKernels (manager ?A))"
    "changeKernelCalls (manager ?A) = []"
    by (simp_all add: panel0_def manager0_def listKernels_def python3_def lua_def)
  obtain a where a: "load ?A = Inr a" using load_v2_example by simp
  have fa: "workspace a = getProp (model ?A) ''workspace'' \<and> metadata_applied ?A a"
    using load_dispatch[OF nA] fA a by blast
  have ta: "toolbox (manager a) = ''maths''"
    using metadata_applied_toolbox[OF conjunct2[OF fa] tA _ rA(1)] by simp
  have ka: "changeKernelCalls (manager a) = [''python3'']"
    using metadata_applied_kernel[OF conjunct2[OF fa] kA _ _ rA(2)] rA(3) by simp
  have fB: "getProp (model ?B) ''format'' = Some (JNum 2)"
    and tB: "doc_toolbox (model ?B) = Some (JStr ''gone'')"
    and kB: "doc_kernel (model ?B) = Some (JStr ''lua'')"
    by (simp_all add: v2_unknown_doc_def doc_toolbox_def doc_kernel_def)
  have rB: "map_of (toolboxes (manager ?B)) ''gone'' = None"
    "''lua'' \<notin> snd ` set (listKernels (manager ?B))"
    "changeKernelCalls (manager ?B) = []" "toolbox (manager ?B) = ''default''"
    "errorMessages ?B = []" "warnings ?B = []"
    by (simp_all add: panel0_def manager0_def listKernels_def python3_def lua_def)
  obtain b where b: "load ?B = Inr b" using load_v2_unknown_example by simp
  have fb: "metadata_applied ?B b"
    using load_dispatch[OF nB] fB b by blast
  have tb: "toolbox (manager b) = ''default''
      \<and> errorMessages b = [(''Unknown toolbox'', Some (JStr ''gone''))]"
    using metadata_applied_unknown_toolbox[OF fb tB _ rB(1)] rB(4,5) by simp
  have kb: "changeKernelCalls (manager b) = [] \<and> warnings b = [JStr ''lua'']"
    using metadata_applied_unknown_kernel[OF fb kB _ _ rB(2)] rB(3,6) by simp
  show ?thesis using l c a fa wA ta ka b tb kb by simp
qed

text \<open>
  The claim C8 says that loading a saved document reproduces the toolbox name whenever that
  name is registered. A toolbox registered under the empty name is not reproduced: the
  saved \<open>metadata.toolbox\<close> is the empty string, which \<open>_load\<close> skips as falsy, so a fresh
  manager stays on \<open>default\<close>.
\<close>

theorem save_then_load_unnamed_counterexample:
  "map_of (toolboxes (manager unnamed_saver)) (toolbox (manager unnamed_saver)) \<noteq> None
   \<and> map_of (kernelspecs (manager unnamed_saver)) (kernel (manager unnamed_saver)) = Some python3
   \<and> generators (manager unnamed_saver) (language python3) \<noteq> None
   \<and> toolbox (manager unnamed_saver) = []
   \<and> map_sum id (\<lambda>q. toolbox (manager q))
        (load (panel0\<lparr>manager := unnamed_manager, model := model (onSave Started unnamed_saver)\<rparr>))
       = Inr ''default''"
  by (simp add: unnamed_saver_def unnamed_manager_def example_defs onSave_def getToolbox_def
      kernel_def load_def load_toolbox_def load_kernel_def listKernels_def selectKernel_def)

text \<open>
  C8 (amended). \<open>_onSave\<close> at \<open>started\<close> writes a document of format 2 whose
  \<open>metadata.toolbox\<close> is the current toolbox name and whose \<open>metadata.kernel\<close> is the name of
  the selected kernel, or \<open>No kernel\<close> when none is selected or its name is empty. Let \<open>q\<close>
  be any panel holding that document, in whose registry the saved toolbox name is
  registered and in whose kernel list the saved kernel name occurs, the toolbox name being
  non-empty and the kernel name neither empty nor \<open>No kernel\<close>. Then a load that returns
  has selected the saved toolbox and has requested the saved kernel from the session; once
  the session reports that kernel (a catalog entry under its own name), the manager's
  kernel name is the saved one. The load returns when the allow-list of \<open>q\<close> is undefined.
\<close>

theorem save_then_load:
  "getProp (model (onSave Started p)) ''format'' = Some (JNum 2)
   \<and> doc_toolbox (model (onSave Started p)) = Some (JStr (toolbox (manager p)))
   \<and> doc_kernel (model (onSave Started p)) = Some (JStr (kernel (manager p)))
   \<and> (selectedKernel (manager p) = None \<longrightarrow> kernel (manager p) = ''No kernel'')
   \<and> (\<forall>s. selectedKernel (manager p) = Some s \<and> name s \<noteq> [] \<longrightarrow> kernel (manager p) = name s)
   \<and> (model q = model (onSave Started p)
        \<and> toolbox (manager p) \<noteq> []
        \<and> map_of (toolboxes (manager q)) (toolbox (manager p)) \<noteq> None
        \<and> selectedKernel (manager p) = Some s \<and> name s \<noteq> [] \<and> name s \<noteq> ''No kernel''
        \<and> name s \<in> snd ` set (listKernels (manager q)) \<longrightarrow>
        (\<forall>q'. load q = Inr q' \<longrightarrow>
           toolbox (manager q') = toolbox (manager p)
           \<and> changeKernelCalls (manager q') = changeKernelCalls (manager q) @ [name s]
           \<and> (\<forall>s'. map_of (kernelspecs (manager q)) (name s) = Some s' \<and> name s' = name s \<longrightarrow>
                 kernel (onKernelChanged (Some (name s)) (manager q')) = name s))
        \<and> (allowedBlocks (manager q) = None \<longrightarrow> (\<exists>q'. load q = Inr q')))"
proof -
  note sd = saved_document[of p]
  have rt: "toolbox (manager q') = toolbox (manager p)
           \<and> changeKernelCalls (manager q') = changeKernelCalls (manager q) @ [name s]
           \<and> (\<forall>s'. map_of (kernelspecs (manager q)) (name s) = Some s' \<and> name s' = name s \<longrightarrow>
                 kernel (onKernelChanged (Some (name s)) (manager q')) = name s)"
    if m: "model q = model (onSave Started p)"
      and t: "toolbox (manager p) \<noteq> []" "map_of (toolboxes (manager q)) (toolbox (manager p)) \<noteq> None"
      and k: "selectedKernel (manager p) = Some s" "name s \<noteq> []" "name s \<noteq> ''No kernel''"
        "name s \<in> snd ` set (listKernels (manager q))"
      and l: "load q = Inr q'" for q'
  proof -
    have nn: "model q \<noteq> JNull" and f: "getProp (model q) ''format'' = Some (JNum 2)"
      using sd m by simp_all
    have ma: "metadata_applied q q'" using load_format2[OF nn f l] by simp
    have kn: "kernel (manager p) = name s" using k by (simp add: kernel_def)
    have dt: "doc_toolbox (model q) = Some (JStr (toolbox (manager p)))"
      and dk: "doc_kernel (model q) = Some (JStr (name s))"
      using sd m kn by simp_all
    have a: "toolbox (manager q') = toolbox (manager p)"
      using metadata_applied_toolbox[OF ma dt t] .
    have b: "changeKernelCalls (manager q') = changeKernelCalls (manager q) @ [name s]"
      using metadata_applied_kernel[OF ma dk k(2,3,4)] .
    have c: "kernel (onKernelChanged (Some (name s)) (manager q')) = name s"
      if "map_of (kernelspecs (manager q)) (name s) = Some s'" "name s' = name s" for s'
      using that load_frame[OF l] k(2) by (simp add: onKernelChanged_def emit_def kernel_def)
    show ?thesis using a b c by blast
  qed
  have tot: "\<exists>q'. load q = Inr q'"
    if "model q = model (onSave Started p)" "allowedBlocks (manager q) = None"
    using load_total[of q] that sd by simp
  show ?thesis
  proof (intro conjI)
    show "model q = model (onSave Started p)
        \<and> toolbox (manager p) \<noteq> []
        \<and> map_of (toolboxes (manager q)) (toolbox (manager p)) \<noteq> None
        \<and> selectedKernel (manager p) = Some s \<and> name s \<noteq> [] \<and> name s \<noteq> ''No kernel''
        \<and> name s \<in> snd ` set (listKernels (manager q)) \<longrightarrow>
        (\<forall>q'. load q = Inr q' \<longrightarrow>
           toolbox (manager q') = toolbox (manager p)
           \<and> changeKernelCalls (manager q') = changeKernelCalls (manager q) @ [name s]
           \<and> (\<forall>s'. map_of (kernelspecs (manager q)) (name s) = Some s' \<and> name s' = name s \<longrightarrow>
                 kernel (onKernelChanged (Some (name s)) (manager q')) = name s))
        \<and> (allowedBlocks (manager q) = None \<longrightarrow> (\<exists>q'. load q = Inr q'))"
      using rt tot by (intro impI conjI allI) blast+
  qed (use sd kernel_cases[of "manager p"] in simp_all)
qed

theorem save_then_load_witness:
  "model (onSave Started saver) = v2_doc
   \<and> toolbox (manager saver) = ''maths'' \<and> kernel (manager saver) = ''python3''
   \<and> toolbox (manager panel0) = ''default'' \<and> kernel (manager panel0) = ''No kernel''
   \<and> toolbox (manager (projr (load (panel0\<lparr>model := v2_doc\<rparr>)))) = ''maths''
   \<and> changeKernelCalls (manager (projr (load (panel0\<lparr>model := v2_doc\<rparr>)))) = [''python3'']
   \<and> kernel (onKernelChanged (Some ''python3'')
                (manager (projr (load (panel0\<lparr>model := v2_doc\<rparr>))))) = ''python3''"
proof -
  let ?q = "panel0\<lparr>model := v2_doc\<rparr>"
  have m: "model (onSave Started saver) = v2_doc"
    by (simp add: saver_def onSave_def example_defs getToolbox_def kernel_def)
  have h: "model ?q = model (onSave Started saver)
        \<and> toolbox (manager saver) \<noteq> []
        \<and> map_of (toolboxes (manager ?q)) (toolbox (manager saver)) \<noteq> None
        \<and> selectedKernel (manager saver) = Some python3 \<and> name python3 \<noteq> []
        \<and> name python3 \<noteq> ''No kernel''
        \<and> name python3 \<in> snd ` set (listKernels (manager ?q))"
    using m by (simp add: saver_def example_defs listKernels_def)
  have ab: "allowedBlocks (manager ?q) = None" by (simp add: example_defs)
  note T = save_then_load[of saver ?q python3]
  from T h ab obtain q' where q': "load ?q = Inr q'" by blast
  from T h q' have r: "toolbox (manager q') = toolbox (manager saver)
       \<and> changeKernelCalls (manager q') = changeKernelCalls (manager ?q) @ [name python3]
       \<and> (\<forall>s'. map_of (kernelspecs (manager ?q)) (name python3) = Some s' \<and> name s' = name python3 \<longrightarrow>
                 kernel (onKernelChanged (Some (name python3)) (manager q')) = name python3)"
    by blast
  have s: "map_of (kernelspecs (manager ?q)) (name python3) = Some python3"
    by (simp add: example_defs)
  have k: "kernel (onKernelChanged (Some (name python3)) (manager q')) = name python3"
    using r s by blast
  have e: "toolbox (manager saver) = ''maths''" "kernel (manager saver) = ''python3''"
    "toolbox (manager panel0) = ''default''" "kernel (manager panel0) = ''No kernel''"
    "name python3 = ''python3''" "changeKernelCalls (manager ?q) = []"
    by (simp_all add: saver_def example_defs kernel_def)
  show ?thesis using m q' r k e by simp
qed

end
